(* ===== verification/Prelude.thy ===== *)
theory Prelude
  imports Main "HOL-Library.Word" "HOL-Library.Char_ord" "HOL-Library.List_Lexorder" "HOL-Library.Code_Target_Nat"
begin

text \<open>
  What every component of the development shares: the widths of the Rust integers, results as
  sums, the character classes and the string operations of the Rust standard library that the
  sources call, decimal rendering, and \<open>BTreeMap<String, V>\<close> as a sorted association list with
  its interface locale.

  A Rust \<open>char\<close> is modelled by a HOL \<^typ>\<open>char\<close>, read as the Unicode scalar value
  \<open>U+0000 .. U+00FF\<close> with the same number; a \<open>String\<close> is the list of its scalar values. On that
  range the ASCII classes, \<open>char::is_whitespace\<close> and the order of strings are the ones of Rust.
\<close>

section \<open>Types and collections of facts\<close>

type_synonym i64 = "64 word"
type_synonym i32 = "32 word"
type_synonym u16 = "16 word"
type_synonym u64 = "64 word"
type_synonym u8 = "8 word"
type_synonym ('e, 'a) result = "'e + 'a"

named_theorems shrinks \<open>a scanner or parser step leaves a shorter rest\<close>
named_theorems str_simps \<open>equations of the string operations\<close>

section \<open>Results\<close>

text \<open>Rust's \<open>Option::ok_or\<close>, \<open>Result::map\<close> and the early return of the \<open>?\<close> operator.\<close>

definition ok_or :: "'e \<Rightarrow> 'a option \<Rightarrow> ('e, 'a) result" where
  "ok_or e x = (case x of None \<Rightarrow> Inl e | Some a \<Rightarrow> Inr a)"

definition rbind :: "('e, 'a) result \<Rightarrow> ('a \<Rightarrow> ('e, 'b) result) \<Rightarrow> ('e, 'b) result" where
  "rbind m f = (case m of Inl e \<Rightarrow> Inl e | Inr a \<Rightarrow> f a)"

text \<open>\<open>Iterator::collect\<close> into a \<open>Result\<close>: the first error wins.\<close>

fun collect_results :: "('e, 'a) result list \<Rightarrow> ('e, 'a list) result" where
  "collect_results [] = Inr []"
| "collect_results (r # rs) =
     rbind r (\<lambda>x. rbind (collect_results rs) (\<lambda>xs. Inr (x # xs)))"

definition is_ok :: "('e, 'a) result \<Rightarrow> bool" where
  "is_ok r \<longleftrightarrow> (case r of Inl _ \<Rightarrow> False | Inr _ \<Rightarrow> True)"

lemma ok_or_simps [simp]: "ok_or e None = Inl e" "ok_or e (Some a) = Inr a"
  by (simp_all add: ok_or_def)

lemma ok_or_Inr_iff: "ok_or e x = Inr v \<longleftrightarrow> x = Some v"
  by (simp add: ok_or_def split: option.splits)

lemma ok_or_Inl_iff: "ok_or e x = Inl e' \<longleftrightarrow> x = None \<and> e' = e"
  by (auto simp: ok_or_def split: option.splits)

lemma map_sum_Inl_iff: "map_sum id f x = Inl e \<longleftrightarrow> x = Inl e"
  by (cases x) auto

lemma map_sum_Inr_iff: "map_sum id f x = Inr y \<longleftrightarrow> (\<exists>z. x = Inr z \<and> y = f z)"
  by (cases x) auto

lemma rbind_simps [simp]: "rbind (Inl e) f = Inl e" "rbind (Inr a) f = f a"
  by (simp_all add: rbind_def)

lemma rbind_Inr_iff: "rbind m f = Inr b \<longleftrightarrow> (\<exists>a. m = Inr a \<and> f a = Inr b)"
  by (cases m) auto

lemma rbind_mono:
  assumes "rbind m f = Inr b" "\<And>x. m = Inr x \<Longrightarrow> m' = Inr x" "\<And>x. f x = Inr b \<Longrightarrow> f' x = Inr b"
  shows "rbind m' f' = Inr b"
  using assms by (auto simp: rbind_Inr_iff)

lemma rbind_Inl_iff: "rbind m f = Inl e \<longleftrightarrow> m = Inl e \<or> (\<exists>a. m = Inr a \<and> f a = Inl e)"
  by (cases m) auto

lemma rbind_cong [fundef_cong]:
  assumes "m = m'" and "\<And>a. m' = Inr a \<Longrightarrow> f a = f' a"
  shows "rbind m f = rbind m' f'"
  using assms by (cases m') auto

text \<open>Computations that may also fail to return (a panic or an endless loop): \<^const>\<open>None\<close>.\<close>

definition pbind ::
  "('e, 'a) result option \<Rightarrow> ('a \<Rightarrow> ('e, 'b) result option) \<Rightarrow> ('e, 'b) result option" where
  "pbind m f = (case m of None \<Rightarrow> None | Some (Inl e) \<Rightarrow> Some (Inl e) | Some (Inr a) \<Rightarrow> f a)"

lemma pbind_simps [simp]:
  "pbind None f = None" "pbind (Some (Inl e)) f = Some (Inl e)" "pbind (Some (Inr a)) f = f a"
  by (simp_all add: pbind_def)

lemma pbind_Inr_iff: "pbind m f = Some (Inr b) \<longleftrightarrow> (\<exists>a. m = Some (Inr a) \<and> f a = Some (Inr b))"
  by (auto simp: pbind_def split: option.splits sum.splits)

lemma pbind_Inl_iff:
  "pbind m f = Some (Inl e) \<longleftrightarrow> m = Some (Inl e) \<or> (\<exists>a. m = Some (Inr a) \<and> f a = Some (Inl e))"
  by (auto simp: pbind_def split: option.splits sum.splits)

lemma pbind_None_iff: "pbind m f = None \<longleftrightarrow> m = None \<or> (\<exists>a. m = Some (Inr a) \<and> f a = None)"
  by (auto simp: pbind_def split: option.splits sum.splits)

lemma is_ok_simps [simp]: "\<not> is_ok (Inl e)" "is_ok (Inr a)"
  by (simp_all add: is_ok_def)

lemma collect_results_Inr:
  "collect_results rs = Inr xs \<longleftrightarrow> rs = map Inr xs"
  by (induction rs arbitrary: xs) (auto simp: rbind_Inr_iff Cons_eq_map_conv)

section \<open>Characters\<close>

definition is_ascii_digit :: "char \<Rightarrow> bool" where
  "is_ascii_digit c \<longleftrightarrow> 48 \<le> (of_char c :: nat) \<and> (of_char c :: nat) \<le> 57"

definition is_ascii_alphabetic :: "char \<Rightarrow> bool" where
  "is_ascii_alphabetic c \<longleftrightarrow>
     65 \<le> (of_char c :: nat) \<and> (of_char c :: nat) \<le> 90 \<or>
     97 \<le> (of_char c :: nat) \<and> (of_char c :: nat) \<le> 122"

definition is_ascii_alphanumeric :: "char \<Rightarrow> bool" where
  "is_ascii_alphanumeric c \<longleftrightarrow> is_ascii_alphabetic c \<or> is_ascii_digit c"

definition is_whitespace :: "char \<Rightarrow> bool" where
  "is_whitespace c \<longleftrightarrow>
     9 \<le> (of_char c :: nat) \<and> (of_char c :: nat) \<le> 13 \<or>
     (of_char c :: nat) = 32 \<or> (of_char c :: nat) = 133 \<or> (of_char c :: nat) = 160"

lemmas char_class_defs =
  is_ascii_digit_def is_ascii_alphabetic_def is_ascii_alphanumeric_def is_whitespace_def

text \<open>The quote characters, by code, so that no literal needs escaping.\<close>

definition dquote :: char where
  "dquote = char_of (34 :: nat)"

definition squote :: char where
  "squote = char_of (39 :: nat)"

lemma quote_distinct [simp]:
  "dquote \<noteq> squote" "squote \<noteq> dquote"
  by (simp_all add: dquote_def squote_def)

section \<open>Strings\<close>

text \<open>\<open>str::strip_prefix\<close>, \<open>str::strip_suffix\<close>, \<open>str::starts_with\<close>, \<open>str::ends_with\<close>,
  \<open>str::contains\<close>, \<open>str::find\<close> and \<open>str::split\<close> with a character, \<open>trim\<close> and \<open>[String]::join\<close>.\<close>

fun strip_prefix :: "string \<Rightarrow> string \<Rightarrow> string option" where
  "strip_prefix [] s = Some s"
| "strip_prefix (p # ps) [] = None"
| "strip_prefix (p # ps) (c # cs) = (if p = c then strip_prefix ps cs else None)"

definition starts_with :: "string \<Rightarrow> string \<Rightarrow> bool" where
  "starts_with p s \<longleftrightarrow> strip_prefix p s \<noteq> None"

definition strip_suffix :: "string \<Rightarrow> string \<Rightarrow> string option" where
  "strip_suffix p s = map_option rev (strip_prefix (rev p) (rev s))"

definition ends_with :: "string \<Rightarrow> string \<Rightarrow> bool" where
  "ends_with p s \<longleftrightarrow> strip_suffix p s \<noteq> None"

fun contains_str :: "string \<Rightarrow> string \<Rightarrow> bool" where
  "contains_str p [] = (p = [])"
| "contains_str p (c # cs) = (starts_with p (c # cs) \<or> contains_str p cs)"

fun find_index :: "(char \<Rightarrow> bool) \<Rightarrow> string \<Rightarrow> nat option" where
  "find_index P [] = None"
| "find_index P (c # cs) = (if P c then Some 0 else map_option Suc (find_index P cs))"

fun split_char :: "char \<Rightarrow> string \<Rightarrow> string list" where
  "split_char d [] = [[]]"
| "split_char d (c # cs) =
     (if c = d then [] # split_char d cs
      else (case split_char d cs of [] \<Rightarrow> [[c]] | p # ps \<Rightarrow> (c # p) # ps))"

definition trim_start :: "string \<Rightarrow> string" where
  "trim_start = dropWhile is_whitespace"

definition trim_end :: "string \<Rightarrow> string" where
  "trim_end s = rev (dropWhile is_whitespace (rev s))"

definition trim :: "string \<Rightarrow> string" where
  "trim s = trim_end (trim_start s)"

fun join :: "string \<Rightarrow> string list \<Rightarrow> string" where
  "join sep [] = []"
| "join sep [x] = x"
| "join sep (x # y # ys) = x @ sep @ join sep (y # ys)"

text \<open>Decimal rendering of a count, as \<open>format!\<close> does.\<close>

fun show_nat :: "nat \<Rightarrow> string" where
  "show_nat n =
     (if n < 10 then [char_of (48 + n)] else show_nat (n div 10) @ [char_of (48 + n mod 10)])"

declare show_nat.simps [simp del]

subsection \<open>Facts about the string operations\<close>

lemma strip_prefix_Some_iff: "strip_prefix p s = Some r \<longleftrightarrow> s = p @ r"
  by (induction p s rule: strip_prefix.induct) auto

lemma strip_prefix_append [simp]: "strip_prefix p (p @ s) = Some s"
  by (simp add: strip_prefix_Some_iff)

lemma starts_with_iff: "starts_with p s \<longleftrightarrow> (\<exists>r. s = p @ r)"
  by (auto simp: starts_with_def strip_prefix_Some_iff)

lemma starts_with_Cons [simp]:
  "starts_with (p # ps) (c # cs) \<longleftrightarrow> p = c \<and> starts_with ps cs"
  "starts_with [] s" "\<not> starts_with (p # ps) []"
  by (auto simp: starts_with_iff)

lemma strip_suffix_Some_iff: "strip_suffix p s = Some r \<longleftrightarrow> s = r @ p"
  by (auto simp: strip_suffix_def strip_prefix_Some_iff) (metis rev_append rev_rev_ident)

lemma strip_suffix_append [simp]: "strip_suffix p (s @ p) = Some s"
  by (simp add: strip_suffix_Some_iff)

lemma ends_with_iff: "ends_with p s \<longleftrightarrow> (\<exists>r. s = r @ p)"
  by (auto simp: ends_with_def strip_suffix_Some_iff)

lemma contains_str_iff: "contains_str p s \<longleftrightarrow> (\<exists>u v. s = u @ p @ v)"
proof (induction s)
  case Nil
  then show ?case by simp
next
  case (Cons c cs)
  then show ?case
    by (auto simp: starts_with_iff Cons_eq_append_conv)
qed

lemma split_char_ne [simp]: "split_char d s \<noteq> []"
  by (induction s) (auto split: list.splits)

lemma join_split_char: "join [d] (split_char d s) = s"
proof (induction s)
  case Nil
  then show ?case by simp
next
  case (Cons c cs)
  obtain p ps where "split_char d cs = p # ps"
    by (cases "split_char d cs") auto
  with Cons show ?case by (cases ps) auto
qed

lemma split_char_no_sep: "d \<notin> set s \<Longrightarrow> split_char d s = [s]"
  by (induction s) auto

lemma split_char_append_sep:
  "d \<notin> set s \<Longrightarrow> split_char d (s @ d # t) = s # split_char d t"
  by (induction s) auto

lemma split_char_join:
  "xs \<noteq> [] \<Longrightarrow> \<forall>x \<in> set xs. d \<notin> set x \<Longrightarrow> split_char d (join [d] xs) = xs"
proof (induction xs rule: induct_list012)
  case (3 x y zs)
  then show ?case by (simp add: split_char_append_sep)
qed (auto simp: split_char_no_sep)

lemma find_index_Some:
  "find_index P s = Some n \<Longrightarrow> n < length s \<and> P (s ! n) \<and> (\<forall>i < n. \<not> P (s ! i))"
proof (induction s arbitrary: n)
  case Nil
  then show ?case by simp
next
  case (Cons c cs)
  show ?case
  proof (cases "P c")
    case True
    with Cons.prems show ?thesis by simp
  next
    case False
    with Cons.prems obtain m where m: "find_index P cs = Some m" "n = Suc m" by auto
    with Cons.IH False show ?thesis by (auto simp: less_Suc_eq_0_disj)
  qed
qed

lemma length_trim_start [simp]: "length (trim_start s) \<le> length s"
  by (simp add: trim_start_def length_dropWhile_le)

lemma trim_start_Cons [str_simps]:
  "trim_start (c # cs) = (if is_whitespace c then trim_start cs else c # cs)"
  by (simp add: trim_start_def)

lemma trim_start_Nil [str_simps]: "trim_start [] = []"
  by (simp add: trim_start_def)

section \<open>Machine integers\<close>

definition fits_i64 :: "int \<Rightarrow> bool" where
  "fits_i64 i \<longleftrightarrow> - (2 ^ 63) \<le> i \<and> i < 2 ^ 63"

lemma sint_of_fits: "fits_i64 i \<Longrightarrow> sint (word_of_int i :: i64) = i"
  by (simp add: fits_i64_def signed_of_int signed_take_bit_int_eq_self)

lemma fits_sint [simp]: "fits_i64 (sint (w :: i64))"
  using sint_greater_eq [of w] sint_less [of w] by (simp add: fits_i64_def)

text \<open>\<open>i64::checked_add\<close>.\<close>

definition checked_add :: "i64 \<Rightarrow> i64 \<Rightarrow> i64 option" where
  "checked_add a b = (if fits_i64 (sint a + sint b) then Some (a + b) else None)"

lemma checked_add_Some: "checked_add a b = Some c \<Longrightarrow> sint c = sint a + sint b"
proof -
  assume "checked_add a b = Some c"
  then have c: "c = a + b" and fits: "fits_i64 (sint a + sint b)"
    by (auto simp: checked_add_def split: if_splits)
  have "c = word_of_int (sint a + sint b)" by (simp add: c)
  then show ?thesis using sint_of_fits [OF fits] by simp
qed

section \<open>Ordered maps\<close>

text \<open>A \<open>BTreeMap\<close> is the list of its entries in increasing key order. Its two operations used by
  the sources are \<open>get\<close> and \<open>insert\<close>; iteration is the list itself.\<close>

type_synonym 'v btree_map = "(string \<times> 'v) list"

definition bt_wf :: "('k::linorder \<times> 'v) list \<Rightarrow> bool" where
  "bt_wf m \<longleftrightarrow> sorted_wrt (<) (map fst m)"

definition bt_get :: "('k::linorder \<times> 'v) list \<Rightarrow> 'k \<Rightarrow> 'v option" where
  "bt_get m k = map_of m k"

fun bt_insert :: "'k::linorder \<Rightarrow> 'v \<Rightarrow> ('k \<times> 'v) list \<Rightarrow> ('k \<times> 'v) list" where
  "bt_insert k v [] = [(k, v)]"
| "bt_insert k v ((a, b) # m) =
     (if k < a then (k, v) # (a, b) # m
      else if k = a then (k, v) # m
      else (a, b) # bt_insert k v m)"

text \<open>What the clients of a map may rely on, and what follows from it alone.\<close>

locale ordered_map =
  fixes empty :: "'m"
    and lookup :: "'m \<Rightarrow> 'k \<Rightarrow> 'v option"
    and insert_entry :: "'k \<Rightarrow> 'v \<Rightarrow> 'm \<Rightarrow> 'm"
    and valid :: "'m \<Rightarrow> bool"
  assumes lookup_empty: "lookup empty k = None"
    and lookup_insert: "lookup (insert_entry k v m) = (lookup m)(k \<mapsto> v)"
    and valid_empty: "valid empty"
    and valid_insert: "valid m \<Longrightarrow> valid (insert_entry k v m)"
    and extensional: "valid m \<Longrightarrow> valid m' \<Longrightarrow> lookup m = lookup m' \<Longrightarrow> m = m'"
begin

lemma insert_same:
  "valid m \<Longrightarrow> insert_entry k v (insert_entry k w m) = insert_entry k v m"
  by (rule extensional) (auto simp: lookup_insert valid_insert)

lemma insert_commute:
  "valid m \<Longrightarrow> k \<noteq> l \<Longrightarrow>
     insert_entry k v (insert_entry l w m) = insert_entry l w (insert_entry k v m)"
  by (rule extensional) (auto simp: lookup_insert valid_insert fun_upd_twist)

lemma insert_id: "valid m \<Longrightarrow> lookup m k = Some v \<Longrightarrow> insert_entry k v m = m"
  by (rule extensional) (auto simp: lookup_insert valid_insert)

lemma lookup_fold_insert:
  "lookup (fold (\<lambda>(k, v). insert_entry k v) kvs m) = lookup m ++ map_of (rev kvs)"
proof (induction kvs arbitrary: m)
  case Nil
  then show ?case by simp
next
  case (Cons kv kvs)
  then show ?case
    by (cases kv) (simp add: lookup_insert map_add_def fun_eq_iff split: option.split)
qed

lemma valid_fold_insert:
  "valid m \<Longrightarrow> valid (fold (\<lambda>(k, v). insert_entry k v) kvs m)"
  by (induction kvs arbitrary: m) (auto simp: valid_insert)

end

lemma bt_get_insert: "bt_get (bt_insert k v m) = (bt_get m)(k \<mapsto> v)"
  by (induction k v m rule: bt_insert.induct) (auto simp: bt_get_def)

lemma fst_bt_insert: "set (map fst (bt_insert k v m)) = insert k (set (map fst m))"
  by (induction k v m rule: bt_insert.induct) auto

lemma bt_wf_insert: "bt_wf m \<Longrightarrow> bt_wf (bt_insert k v m)"
proof (induction k v m rule: bt_insert.induct)
  case (2 k v a b m)
  then show ?case
    using fst_bt_insert [of k v m] by (fastforce simp: bt_wf_def)
qed (simp add: bt_wf_def)

lemma bt_wf_extensional:
  assumes "bt_wf m" and "bt_wf m'" and "bt_get m = bt_get m'"
  shows "m = m'"
  using assms
proof (induction m arbitrary: m')
  case Nil
  then have "map_of m' k = None" for k
    by (simp add: bt_get_def fun_eq_iff)
  then have "k \<notin> fst ` set m'" for k
    by (simp add: map_of_eq_None_iff)
  then have "set m' = {}" by (metis equals0I imageI)
  then show ?case by simp
next
  case (Cons e m)
  obtain k v where e: "e = (k, v)" by (cases e)
  have pt: "map_of (e # m) x = map_of m' x" for x
    using Cons.prems(3) by (simp add: bt_get_def fun_eq_iff)
  have mk: "map_of m' k = Some v" using pt [of k] e by simp
  then obtain e' n where m': "m' = e' # n" by (cases m') auto
  obtain k' v' where e': "e' = (k', v')" by (cases e')
  have below: "\<forall>x \<in> fst ` set m. k < x" "\<forall>x \<in> fst ` set n. k' < x"
    using Cons.prems e m' e' by (auto simp: bt_wf_def)
  have "k = k' \<or> k \<in> fst ` set n"
    using mk m' e' by (metis fun_upd_apply map_of.simps(2) map_of_eq_None_iff option.distinct(1) prod.sel)
  moreover have "k = k' \<or> k' \<in> fst ` set m"
    using pt [of k'] e m' e' by (metis fun_upd_apply map_of.simps(2) map_of_eq_None_iff option.distinct(1) prod.sel)
  ultimately have kk: "k = k'" using below by (meson less_asym)
  have vv: "v = v'" using mk m' e' kk by simp
  have "map_of m k = None" "map_of n k = None"
    using below kk by (auto simp: map_of_eq_None_iff)
  then have "map_of m x = map_of n x" for x
    using pt [of x] e m' e' kk by (cases "x = k") auto
  then have "bt_get m = bt_get n" by (simp add: bt_get_def fun_eq_iff)
  moreover have "bt_wf m" "bt_wf n"
    using Cons.prems e m' e' by (auto simp: bt_wf_def)
  ultimately have "m = n" by (intro Cons.IH)
  then show ?case using e m' e' kk vv by simp
qed

interpretation bt: ordered_map "[] :: ('k::linorder \<times> 'v) list" bt_get bt_insert bt_wf
proof unfold_locales
  show "bt_get [] k = None" for k :: 'k by (simp add: bt_get_def)
  show "bt_wf ([] :: ('k \<times> 'v) list)" by (simp add: bt_wf_def)
qed (auto intro: bt_get_insert bt_wf_insert bt_wf_extensional)

end
