(* ===== verification/Float64.thy ===== *)
theory Float64
  imports Prelude
begin

text \<open>
  Rust's \<open>f64\<close> as far as the sources use it: the comparison operators and \<open>==\<close>, \<open>+\<close> and \<open>-\<close>,
  \<open>as f64\<close> from \<open>i64\<close>, and \<open>str::parse\<close> of plain decimal text. A value is its IEEE 754 binary64
  bit pattern; rounding is to nearest, ties to even. The payload of a NaN result is not
  observable in the sources: the model returns the default quiet NaN.
\<close>

section \<open>Bit patterns\<close>

datatype f64 = F64 (f64_bits: "64 word")

definition f64_mag :: "f64 \<Rightarrow> nat" where
  "f64_mag x = unat (f64_bits x) mod 2 ^ 63"

definition f64_neg :: "f64 \<Rightarrow> bool" where
  "f64_neg x \<longleftrightarrow> 2 ^ 63 \<le> unat (f64_bits x)"

definition f64_make :: "bool \<Rightarrow> nat \<Rightarrow> f64" where
  "f64_make neg mag = F64 (word_of_nat (mag + (if neg then 2 ^ 63 else 0)))"

definition inf_mag :: nat where
  "inf_mag = 2047 * 2 ^ 52"

definition is_nan :: "f64 \<Rightarrow> bool" where
  "is_nan x \<longleftrightarrow> inf_mag < f64_mag x"

definition is_infinite :: "f64 \<Rightarrow> bool" where
  "is_infinite x \<longleftrightarrow> f64_mag x = inf_mag"

definition f64_nan :: f64 where
  "f64_nan = f64_make False (2047 * 2 ^ 52 + 2 ^ 51)"

text \<open>Away from NaN the order of the values is the order of sign and magnitude, and the two
  zeros share the key 0.\<close>

definition f64_key :: "f64 \<Rightarrow> int" where
  "f64_key x = (if f64_neg x then - int (f64_mag x) else int (f64_mag x))"

definition f64_eq :: "f64 \<Rightarrow> f64 \<Rightarrow> bool" where
  "f64_eq x y \<longleftrightarrow> \<not> is_nan x \<and> \<not> is_nan y \<and> f64_key x = f64_key y"

definition f64_lt :: "f64 \<Rightarrow> f64 \<Rightarrow> bool" where
  "f64_lt x y \<longleftrightarrow> \<not> is_nan x \<and> \<not> is_nan y \<and> f64_key x < f64_key y"

definition f64_le :: "f64 \<Rightarrow> f64 \<Rightarrow> bool" where
  "f64_le x y \<longleftrightarrow> \<not> is_nan x \<and> \<not> is_nan y \<and> f64_key x \<le> f64_key y"

section \<open>Rounding\<close>

fun bitlen :: "nat \<Rightarrow> nat" where
  "bitlen n = (if n = 0 then 0 else Suc (bitlen (n div 2)))"

declare bitlen.simps [simp del]

text \<open>\<open>round_mag n d\<close> is the magnitude of the double nearest to \<open>n / d\<close> units of \<open>2 ^ (-1074)\<close>, the
  smallest positive double. The significand and the exponent field are added, so a carry out of
  the significand moves to the next exponent, and everything above the largest double is
  infinity.\<close>

definition round_shift :: "nat \<Rightarrow> nat \<Rightarrow> nat" where
  "round_shift n d = bitlen (n div d) - 53"

definition round_quot :: "nat \<Rightarrow> nat \<Rightarrow> nat" where
  "round_quot n m =
     (let q = n div m; r = n mod m
      in if m < 2 * r \<or> (2 * r = m \<and> odd q) then q + 1 else q)"

definition round_mag :: "nat \<Rightarrow> nat \<Rightarrow> nat" where
  "round_mag n d =
     (let s = round_shift n d
      in min (s * 2 ^ 52 + round_quot n (d * 2 ^ s)) inf_mag)"

text \<open>The value of a finite magnitude, in the same units.\<close>

definition mag_scaled :: "nat \<Rightarrow> nat" where
  "mag_scaled b =
     (if b < 2 ^ 52 then b else (2 ^ 52 + b mod 2 ^ 52) * 2 ^ (b div 2 ^ 52 - 1))"

definition f64_scaled :: "f64 \<Rightarrow> int" where
  "f64_scaled x = (if f64_neg x then - int (mag_scaled (f64_mag x)) else int (mag_scaled (f64_mag x)))"

section \<open>Operations\<close>

text \<open>One, in units of \<open>2 ^ (-1074)\<close>.\<close>

definition f64_unit :: nat where
  "f64_unit = 2 ^ 1074"

definition f64_of_int :: "int \<Rightarrow> f64" where
  "f64_of_int i = f64_make (i < 0) (round_mag (nat \<bar>i\<bar> * f64_unit) 1)"

definition f64_of_i64 :: "i64 \<Rightarrow> f64" where
  "f64_of_i64 w = f64_of_int (sint w)"

text \<open>The text \<open>-?<digits>.<digits>\<close>: its digits as one number and how many follow the point.\<close>

definition f64_of_decimal :: "bool \<Rightarrow> nat \<Rightarrow> nat \<Rightarrow> f64" where
  "f64_of_decimal neg n k = f64_make neg (round_mag (n * f64_unit) (10 ^ k))"

definition f64_negate :: "f64 \<Rightarrow> f64" where
  "f64_negate x = f64_make (\<not> f64_neg x) (f64_mag x)"

definition f64_add :: "f64 \<Rightarrow> f64 \<Rightarrow> f64" where
  "f64_add x y =
     (if is_nan x \<or> is_nan y then f64_nan
      else if is_infinite x then
        (if is_infinite y \<and> f64_neg x \<noteq> f64_neg y then f64_nan else x)
      else if is_infinite y then y
      else let k = f64_scaled x + f64_scaled y
        in if k = 0 then f64_make (f64_neg x \<and> f64_neg y) 0
           else f64_make (k < 0) (round_mag (nat \<bar>k\<bar>) 1))"

definition f64_sub :: "f64 \<Rightarrow> f64 \<Rightarrow> f64" where
  "f64_sub x y = f64_add x (f64_negate y)"

lemmas f64_defs = f64_mag_def f64_neg_def f64_make_def is_nan_def is_infinite_def f64_key_def
  f64_eq_def f64_lt_def f64_le_def inf_mag_def

section \<open>Order\<close>

lemma f64_eq_sym: "f64_eq x y = f64_eq y x"
  by (auto simp: f64_eq_def)

lemma f64_eq_trans: "f64_eq x y \<Longrightarrow> f64_eq y z \<Longrightarrow> f64_eq x z"
  by (auto simp: f64_eq_def)

lemma f64_eq_refl_iff: "f64_eq x x \<longleftrightarrow> \<not> is_nan x"
  by (auto simp: f64_eq_def)

lemma f64_le_iff: "f64_le x y \<longleftrightarrow> f64_lt x y \<or> f64_eq x y"
  by (auto simp: f64_le_def f64_lt_def f64_eq_def)

lemma f64_lt_asym: "f64_lt x y \<Longrightarrow> \<not> f64_lt y x"
  by (auto simp: f64_lt_def)

lemma f64_trichotomy:
  "\<not> is_nan x \<Longrightarrow> \<not> is_nan y \<Longrightarrow> f64_lt x y \<or> f64_eq x y \<or> f64_lt y x"
  by (auto simp: f64_lt_def f64_eq_def)

section \<open>Correct rounding\<close>

lemma bitlen_bounds:
  assumes "0 < n"
  shows "2 ^ (bitlen n - 1) \<le> n \<and> n < 2 ^ bitlen n \<and> 0 < bitlen n"
  using assms
proof (induction n rule: bitlen.induct)
  case (1 n)
  show ?case
  proof (cases "n = 1")
    case True
    then show ?thesis by (simp add: bitlen.simps [of "Suc 0"] bitlen.simps [of 0])
  next
    case False
    with "1.prems" have "0 < n div 2" by simp
    with "1.IH" "1.prems" have IH:
      "2 ^ (bitlen (n div 2) - 1) \<le> n div 2" "n div 2 < 2 ^ bitlen (n div 2)"
      "0 < bitlen (n div 2)"
      by auto
    then obtain k where k: "bitlen (n div 2) = Suc k" by (cases "bitlen (n div 2)") auto
    have "bitlen n = Suc (bitlen (n div 2))"
      using "1.prems" by (subst bitlen.simps) simp
    with IH k show ?thesis by auto
  qed
qed

lemma bitlen_0 [simp]: "bitlen 0 = 0"
  by (simp add: bitlen.simps)

lemma bitlen_less: "n < 2 ^ bitlen n"
  by (cases "n = 0") (use bitlen_bounds [of n] in auto)

lemma bitlen_mono:
  assumes "m \<le> n"
  shows "bitlen m \<le> bitlen n"
proof (rule ccontr)
  assume "\<not> bitlen m \<le> bitlen n"
  then have lt: "bitlen n < bitlen m" by simp
  then have "0 < m" by (cases m) auto
  then have "2 ^ (bitlen m - 1) \<le> m" using bitlen_bounds by blast
  moreover have "(2::nat) ^ bitlen n \<le> 2 ^ (bitlen m - 1)"
    using lt by (intro power_increasing) auto
  ultimately show False using assms bitlen_less [of n] by linarith
qed

lemma round_quot_mono: "0 < m \<Longrightarrow> n \<le> n' \<Longrightarrow> round_quot n m \<le> round_quot n' m"
proof -
  assume m: "0 < m" and nn: "n \<le> n'"
  have qq: "n div m \<le> n' div m" using nn by (rule div_le_mono)
  show ?thesis
  proof (cases "n div m = n' div m")
    case True
    have "n mod m \<le> n' mod m"
      using nn True by (metis add_le_cancel_left div_mult_mod_eq)
    with True show ?thesis by (auto simp: round_quot_def Let_def)
  next
    case False
    with qq show ?thesis by (auto simp: round_quot_def Let_def)
  qed
qed

lemma round_quot_bounds: "n div m \<le> round_quot n m \<and> round_quot n m \<le> n div m + 1"
  by (auto simp: round_quot_def Let_def)

lemma quot_bounds:
  assumes "0 < d"
  shows "n div (d * 2 ^ round_shift n d) < 2 ^ 53"
    and "0 < round_shift n d \<Longrightarrow> 2 ^ 52 \<le> n div (d * 2 ^ round_shift n d)"
proof -
  let ?k = "n div d" and ?s = "round_shift n d"
  have q: "n div (d * 2 ^ ?s) = ?k div 2 ^ ?s" by (simp add: div_mult2_eq)
  have le: "bitlen ?k \<le> 53 + ?s" by (simp add: round_shift_def)
  have "?k < 2 ^ bitlen ?k" by (rule bitlen_less)
  also have "\<dots> \<le> 2 ^ (53 + ?s)" using le by (intro power_increasing) auto
  finally have "?k < 2 ^ 53 * 2 ^ ?s" by (simp add: power_add)
  then show "n div (d * 2 ^ ?s) < 2 ^ 53"
    unfolding q by (simp add: less_mult_imp_div_less)
  assume s: "0 < ?s"
  then have k: "0 < ?k" by (cases "?k") (auto simp: round_shift_def)
  have "bitlen ?k - 1 = 52 + ?s" using s by (simp add: round_shift_def)
  with bitlen_bounds [OF k] have "2 ^ (52 + ?s) \<le> ?k" by simp
  then have "2 ^ 52 * 2 ^ ?s \<le> ?k" by (simp add: power_add)
  then show "2 ^ 52 \<le> n div (d * 2 ^ ?s)"
    unfolding q by (metis div_le_mono nonzero_mult_div_cancel_right power_not_zero zero_neq_numeral)
qed

lemma round_mag_mono:
  assumes d: "0 < d" and nn: "n \<le> n'"
  shows "round_mag n d \<le> round_mag n' d"
proof -
  let ?s = "round_shift n d" and ?s' = "round_shift n' d"
  have ss: "?s \<le> ?s'"
    using nn by (auto simp: round_shift_def intro!: diff_le_mono bitlen_mono div_le_mono)
  have "?s * 2 ^ 52 + round_quot n (d * 2 ^ ?s) \<le> ?s' * 2 ^ 52 + round_quot n' (d * 2 ^ ?s')"
  proof (cases "?s = ?s'")
    case True
    with d nn show ?thesis by (auto intro: round_quot_mono)
  next
    case False
    with ss have lt: "Suc ?s \<le> ?s'" by simp
    have "round_quot n (d * 2 ^ ?s) \<le> 2 ^ 53"
      using quot_bounds(1) [OF d, of n] round_quot_bounds [of n "d * 2 ^ ?s"] by linarith
    moreover have "2 ^ 52 \<le> round_quot n' (d * 2 ^ ?s')"
      using quot_bounds(2) [OF d, of n'] lt round_quot_bounds [of n' "d * 2 ^ ?s'"] by linarith
    moreover have "Suc ?s * 2 ^ 52 \<le> ?s' * 2 ^ 52" using lt by (rule mult_le_mono1)
    ultimately show ?thesis by simp
  qed
  then show ?thesis by (auto simp: round_mag_def Let_def min_def)
qed

lemma round_mag_le: "round_mag n d \<le> inf_mag"
  by (simp add: round_mag_def Let_def)

lemma mag_make [simp]:
  assumes "mag \<le> inf_mag"
  shows "f64_mag (f64_make neg mag) = mag" "f64_neg (f64_make neg mag) = neg"
proof -
  have "mag < 2 ^ 63" using assms by (simp add: inf_mag_def)
  then have "mag + (if neg then 2 ^ 63 else 0) < 2 ^ LENGTH(64)" by simp
  then have "unat (word_of_nat (mag + (if neg then 2 ^ 63 else 0)) :: 64 word) =
      mag + (if neg then 2 ^ 63 else 0)"
    by (simp only: unsigned_of_nat take_bit_nat_eq_self of_nat_id)
  then show "f64_mag (f64_make neg mag) = mag" "f64_neg (f64_make neg mag) = neg"
    using \<open>mag < 2 ^ 63\<close> by (auto simp: f64_mag_def f64_neg_def f64_make_def)
qed

lemma f64_of_int_parts [simp]:
  "f64_mag (f64_of_int i) = round_mag (nat \<bar>i\<bar> * f64_unit) 1"
  "f64_neg (f64_of_int i) \<longleftrightarrow> i < 0"
  by (simp_all add: f64_of_int_def round_mag_le)

lemma f64_of_int_not_nan [simp]: "\<not> is_nan (f64_of_int i)"
  using round_mag_le by (simp add: is_nan_def not_less)

text \<open>The conversion of integers never reverses an order.\<close>

lemma f64_of_int_mono:
  assumes "i \<le> j"
  shows "f64_le (f64_of_int i) (f64_of_int j)"
proof -
  have mono: "round_mag (nat \<bar>a\<bar> * f64_unit) 1 \<le> round_mag (nat \<bar>b\<bar> * f64_unit) 1"
    if "\<bar>a\<bar> \<le> \<bar>b\<bar>" for a b :: int
    using that by (intro round_mag_mono mult_le_mono1 nat_mono) auto
  show ?thesis
    using assms mono [of i j] mono [of j i]
    by (auto simp: f64_le_def f64_key_def)
qed

section \<open>Exactness\<close>

text \<open>A value with at most 53 significant bits is represented exactly.\<close>

lemma bitlen_le: "n < 2 ^ k \<Longrightarrow> bitlen n \<le> k"
proof (rule ccontr)
  assume n: "n < 2 ^ k" and "\<not> bitlen n \<le> k"
  then have "k \<le> bitlen n - 1" and "0 < n" by (cases n; simp)+
  then have "(2::nat) ^ k \<le> 2 ^ (bitlen n - 1)" "2 ^ (bitlen n - 1) \<le> n"
    using bitlen_bounds [of n] by (auto intro: power_increasing)
  with n show False by linarith
qed

lemma mag_scaled_encode:
  assumes "q < 2 ^ 53" and "0 < s \<Longrightarrow> 2 ^ 52 \<le> q"
  shows "mag_scaled (s * 2 ^ 52 + q) = q * 2 ^ s"
proof (cases "2 ^ 52 \<le> q")
  case True
  then obtain f where q: "q = 2 ^ 52 + f" by (metis le_Suc_ex)
  with assms(1) have f: "f < 2 ^ 52" by simp
  have b: "s * 2 ^ 52 + q = f + Suc s * 2 ^ 52" using q by simp
  have "(f + Suc s * 2 ^ 52) div 2 ^ 52 = Suc s" "(f + Suc s * 2 ^ 52) mod 2 ^ 52 = f"
    using f by (simp_all only: div_mult_self1 mod_mult_self1) simp_all
  moreover have "\<not> f + Suc s * 2 ^ 52 < 2 ^ 52" by simp
  ultimately show ?thesis
    unfolding b mag_scaled_def using q by simp
next
  case False
  with assms(2) have "s = 0" by auto
  with False show ?thesis by (simp add: mag_scaled_def)
qed

lemma round_mag_exact:
  assumes a: "a < 2 ^ 53" and n: "n = a * 2 ^ t" and small: "t < 2000"
  shows "mag_scaled (round_mag n 1) = n"
proof -
  let ?s = "round_shift n 1"
  have "n < 2 ^ (53 + t)" using a n by (simp add: power_add)
  then have "bitlen n \<le> 53 + t" by (rule bitlen_le)
  then have st: "?s \<le> t" by (simp add: round_shift_def)
  then have "2 ^ ?s dvd n" unfolding n by (intro dvd_mult le_imp_power_dvd)
  then have r: "n mod 2 ^ ?s = 0" and q: "n div 2 ^ ?s * 2 ^ ?s = n" by auto
  have rq: "round_quot n (1 * 2 ^ ?s) = n div 2 ^ ?s"
    using r by (simp add: round_quot_def Let_def)
  have q53: "n div 2 ^ ?s < 2 ^ 53" using quot_bounds(1) [of 1 n] by simp
  have "?s * 2 ^ 52 \<le> 2000 * 2 ^ 52" using st small by simp
  then have fin: "?s * 2 ^ 52 + n div 2 ^ ?s \<le> inf_mag"
    using q53 by (simp add: inf_mag_def)
  have "round_mag n 1 = ?s * 2 ^ 52 + n div 2 ^ ?s"
    using fin rq by (simp add: round_mag_def Let_def)
  then show ?thesis
    using mag_scaled_encode [OF q53, of ?s] quot_bounds(2) [of 1 n] q by simp
qed

lemma f64_of_int_exact:
  assumes "\<bar>i\<bar> \<le> 2 ^ 53"
  shows "f64_scaled (f64_of_int i) = i * int f64_unit"
proof -
  have "mag_scaled (round_mag (nat \<bar>i\<bar> * f64_unit) 1) = nat \<bar>i\<bar> * f64_unit"
  proof (cases "\<bar>i\<bar> = 2 ^ 53")
    case True
    then have "nat \<bar>i\<bar> * f64_unit = 1 * 2 ^ (53 + 1074)"
      unfolding f64_unit_def by (simp only: power_add) (simp add: nat_power_eq)
    then show ?thesis by (intro round_mag_exact [where a = 1 and t = "53 + 1074"]) auto
  next
    case False
    with assms have "nat \<bar>i\<bar> < 2 ^ 53" by (simp add: nat_less_iff)
    then show ?thesis by (intro round_mag_exact [OF _ _, where t = 1074]) (auto simp: f64_unit_def)
  qed
  then have "f64_scaled (f64_of_int i) = (if i < 0 then - int (nat \<bar>i\<bar> * f64_unit) else int (nat \<bar>i\<bar> * f64_unit))"
    by (simp only: f64_scaled_def f64_of_int_parts)
  also have "\<dots> = i * int f64_unit" by simp
  finally show ?thesis .
qed

lemma f64_unit_pos: "0 < f64_unit"
  by (simp add: f64_unit_def)

lemma mag_scaled_0 [simp]: "mag_scaled 0 = 0"
  by (simp add: mag_scaled_def)

lemma key_eq_scaled_eq:
  assumes "f64_key x = f64_key y"
  shows "f64_scaled x = f64_scaled y"
proof (cases "f64_neg x = f64_neg y")
  case True
  with assms show ?thesis by (auto simp: f64_key_def f64_scaled_def split: if_splits)
next
  case False
  with assms have "f64_mag x = 0" "f64_mag y = 0"
    by (auto simp: f64_key_def split: if_splits)
  then show ?thesis by (simp add: f64_scaled_def)
qed

text \<open>On integers of at most 53 bits the comparison of doubles is the comparison of integers.\<close>

lemma f64_of_int_inj:
  assumes "\<bar>i\<bar> \<le> 2 ^ 53" "\<bar>j\<bar> \<le> 2 ^ 53" "f64_key (f64_of_int i) = f64_key (f64_of_int j)"
  shows "i = j"
proof -
  have "i * int f64_unit = j * int f64_unit"
    using key_eq_scaled_eq [OF assms(3)] f64_of_int_exact assms(1,2) by simp
  then show ?thesis using f64_unit_pos by simp
qed

lemma f64_lt_of_int_iff:
  assumes "\<bar>i\<bar> \<le> 2 ^ 53" "\<bar>j\<bar> \<le> 2 ^ 53"
  shows "f64_lt (f64_of_int i) (f64_of_int j) \<longleftrightarrow> i < j"
    and "f64_le (f64_of_int i) (f64_of_int j) \<longleftrightarrow> i \<le> j"
proof -
  have "f64_key (f64_of_int i) \<le> f64_key (f64_of_int j)" if "i \<le> j"
    using f64_of_int_mono [OF that] by (simp add: f64_le_def)
  moreover have "f64_key (f64_of_int j) \<le> f64_key (f64_of_int i)" if "j \<le> i"
    using f64_of_int_mono [OF that] by (simp add: f64_le_def)
  moreover note f64_of_int_inj [OF assms]
  ultimately show "f64_lt (f64_of_int i) (f64_of_int j) \<longleftrightarrow> i < j"
    "f64_le (f64_of_int i) (f64_of_int j) \<longleftrightarrow> i \<le> j"
    by (auto simp: f64_lt_def f64_le_def) force+
qed

text \<open>Beyond that the conversion is not injective: \<open>2^53 + 1\<close> lies halfway between two doubles and
  rounds to the even one.\<close>

lemma bitlen_eq:
  assumes "2 ^ k \<le> n" and "n < 2 ^ Suc k"
  shows "bitlen n = Suc k"
proof (rule antisym)
  show "bitlen n \<le> Suc k" using assms(2) by (rule bitlen_le)
  show "Suc k \<le> bitlen n"
  proof (rule ccontr)
    assume "\<not> Suc k \<le> bitlen n"
    then have "(2::nat) ^ bitlen n \<le> 2 ^ k" by (intro power_increasing) simp_all
    then show False using bitlen_less [of n] assms(1) by (meson leD le_trans)
  qed
qed

lemma f64_of_int_tie: "f64_of_int 9007199254740993 = f64_of_int 9007199254740992"
proof -
  define u :: nat where "u = 2 ^ 1074"
  have u: "u > 0" by (simp add: u_def)
  have p: "(2::nat) ^ 1127 = 9007199254740992 * u" "(2::nat) ^ Suc 1127 = 18014398509481984 * u"
    "(2::nat) ^ 1075 = 2 * u"
    unfolding u_def by (simp_all flip: power_add)
  have b: "bitlen (9007199254740992 * u) = 1128" "bitlen (9007199254740993 * u) = 1128"
    using u by (subst bitlen_eq [of 1127]; simp only: p; simp)+
  have "9007199254740993 * u = 4503599627370496 * (2 * u) + u" by simp
  then have q: "9007199254740993 * u div (2 * u) = 4503599627370496" "9007199254740993 * u mod (2 * u) = u"
    using u by simp_all
  have "9007199254740992 * u = 4503599627370496 * (2 * u)" by simp
  then have q': "9007199254740992 * u div (2 * u) = 4503599627370496" "9007199254740992 * u mod (2 * u) = 0"
    using u by simp_all
  have quot: "round_quot (9007199254740993 * u) (2 * u) = round_quot (9007199254740992 * u) (2 * u)"
    unfolding round_quot_def q q' by simp
  have mag: "round_mag n 1 = min (1075 * 2 ^ 52 + round_quot n (2 * u)) inf_mag" if "bitlen n = 1128" for n
  proof -
    have "bitlen n - 53 = 1075" using that by simp
    then show ?thesis unfolding round_mag_def round_shift_def Let_def div_by_1 mult_1 by (simp only: p(3))
  qed
  have "round_mag (9007199254740993 * u) 1 = round_mag (9007199254740992 * u) 1"
    unfolding mag [OF b(1)] mag [OF b(2)] quot ..
  then show ?thesis by (simp add: f64_of_int_def f64_unit_def u_def)
qed

end
