(* ===== verification/Field_Value.thy ===== *)
theory Field_Value
  imports Float64
begin

text \<open>
  The domain values of \<open>embyr-core/src/domain\<close>: field values with their derived equality,
  documents, query filters, and the translation of JSON into field values. JSON values are the
  data type of the \<open>serde_json\<close> interface: numbers are unsigned, negative or floating, objects are
  ordered by key.
\<close>

section \<open>Field values\<close>

datatype field_value =
    FNull
  | FBoolean bool
  | FInteger i64
  | FDouble f64
  | FTimestamp i64 i32
  | FString string
  | FBytes "u8 list"
  | FReference string
  | FArray "field_value list"
  | FMap "(string \<times> field_value) list"

type_synonym fields = "(string \<times> field_value) list"

text \<open>The derived \<open>PartialEq\<close>: structural, with the equality of \<open>f64\<close> at the doubles.\<close>

fun fv_eq :: "field_value \<Rightarrow> field_value \<Rightarrow> bool"
  and fvs_eq :: "field_value list \<Rightarrow> field_value list \<Rightarrow> bool"
  and fvm_eq :: "fields \<Rightarrow> fields \<Rightarrow> bool" where
  "fv_eq FNull w = (case w of FNull \<Rightarrow> True | _ \<Rightarrow> False)"
| "fv_eq (FBoolean a) w = (case w of FBoolean b \<Rightarrow> a = b | _ \<Rightarrow> False)"
| "fv_eq (FInteger a) w = (case w of FInteger b \<Rightarrow> a = b | _ \<Rightarrow> False)"
| "fv_eq (FDouble a) w = (case w of FDouble b \<Rightarrow> f64_eq a b | _ \<Rightarrow> False)"
| "fv_eq (FTimestamp s n) w = (case w of FTimestamp s' n' \<Rightarrow> s = s' \<and> n = n' | _ \<Rightarrow> False)"
| "fv_eq (FString a) w = (case w of FString b \<Rightarrow> a = b | _ \<Rightarrow> False)"
| "fv_eq (FBytes a) w = (case w of FBytes b \<Rightarrow> a = b | _ \<Rightarrow> False)"
| "fv_eq (FReference a) w = (case w of FReference b \<Rightarrow> a = b | _ \<Rightarrow> False)"
| "fv_eq (FArray a) w = (case w of FArray b \<Rightarrow> fvs_eq a b | _ \<Rightarrow> False)"
| "fv_eq (FMap a) w = (case w of FMap b \<Rightarrow> fvm_eq a b | _ \<Rightarrow> False)"
| "fvs_eq [] ws = (ws = [])"
| "fvs_eq (a # as) ws = (case ws of [] \<Rightarrow> False | b # bs \<Rightarrow> fv_eq a b \<and> fvs_eq as bs)"
| "fvm_eq [] ws = (ws = [])"
| "fvm_eq ((k, a) # as) ws =
     (case ws of [] \<Rightarrow> False | (l, b) # bs \<Rightarrow> k = l \<and> fv_eq a b \<and> fvm_eq as bs)"

text \<open>\<open>Vec::contains\<close>.\<close>

definition fv_contains :: "field_value list \<Rightarrow> field_value \<Rightarrow> bool" where
  "fv_contains xs v \<longleftrightarrow> list_ex (\<lambda>x. fv_eq x v) xs"

text \<open>No NaN anywhere inside: on such values the derived equality is reflexive.\<close>

fun nan_free :: "field_value \<Rightarrow> bool"
  and nan_free_list :: "field_value list \<Rightarrow> bool"
  and nan_free_map :: "fields \<Rightarrow> bool" where
  "nan_free (FDouble d) = (\<not> is_nan d)"
| "nan_free (FArray xs) = nan_free_list xs"
| "nan_free (FMap m) = nan_free_map m"
| "nan_free _ = True"
| "nan_free_list [] = True"
| "nan_free_list (x # xs) = (nan_free x \<and> nan_free_list xs)"
| "nan_free_map [] = True"
| "nan_free_map ((k, x) # xs) = (nan_free x \<and> nan_free_map xs)"

lemma fv_eq_sym_imp:
  "fv_eq a b \<Longrightarrow> fv_eq b a" "fvs_eq as bs \<Longrightarrow> fvs_eq bs as" "fvm_eq ms ns \<Longrightarrow> fvm_eq ns ms"
  by (induction a and as and ms arbitrary: b and bs and ns rule: nan_free_nan_free_list_nan_free_map.induct)
    (auto split: field_value.splits list.splits simp: f64_eq_sym)

lemma fv_eq_trans_all:
  "fv_eq a b \<Longrightarrow> fv_eq b c \<Longrightarrow> fv_eq a c"
  "fvs_eq as bs \<Longrightarrow> fvs_eq bs cs \<Longrightarrow> fvs_eq as cs"
  "fvm_eq ms ns \<Longrightarrow> fvm_eq ns os \<Longrightarrow> fvm_eq ms os"
  by (induction a and as and ms arbitrary: b c and bs cs and ns os rule: nan_free_nan_free_list_nan_free_map.induct)
    (auto split: field_value.splits list.splits intro: f64_eq_trans)

lemma fv_eq_refl_all:
  "nan_free a \<Longrightarrow> fv_eq a a" "nan_free_list as \<Longrightarrow> fvs_eq as as" "nan_free_map ms \<Longrightarrow> fvm_eq ms ms"
  by (induction a and as and ms rule: nan_free_nan_free_list_nan_free_map.induct)
    (auto simp: f64_eq_refl_iff)

lemma fv_eq_sym: "fv_eq a b = fv_eq b a"
  using fv_eq_sym_imp(1) by blast

lemmas fv_eq_trans = fv_eq_trans_all(1)
lemmas fv_eq_refl = fv_eq_refl_all(1)

lemma fv_eq_String [simp]: "fv_eq (FString s) v \<longleftrightarrow> v = FString s" "fv_eq v (FString s) \<longleftrightarrow> v = FString s"
  by (cases v; auto)+

section \<open>JSON into field values\<close>

datatype json_number = PosInt u64 | NegInt i64 | FloatNum f64

datatype json =
    JNull
  | JBool bool
  | JNumber json_number
  | JString string
  | JArray "json list"
  | JObject "(string \<times> json) list"

fun as_i64 :: "json_number \<Rightarrow> i64 option" where
  "as_i64 (PosInt n) = (if unat n < 2 ^ 63 then Some n else None)"
| "as_i64 (NegInt n) = Some n"
| "as_i64 (FloatNum d) = None"

fun as_f64 :: "json_number \<Rightarrow> f64" where
  "as_f64 (PosInt n) = f64_of_int (uint n)"
| "as_f64 (NegInt n) = f64_of_i64 n"
| "as_f64 (FloatNum d) = d"

definition number_value :: "json_number \<Rightarrow> field_value" where
  "number_value n = (case as_i64 n of Some i \<Rightarrow> FInteger i | None \<Rightarrow> FDouble (as_f64 n))"

fun from_json_value :: "json \<Rightarrow> field_value"
  and from_json_items :: "json list \<Rightarrow> field_value list"
  and from_json_entries :: "(string \<times> json) list \<Rightarrow> fields" where
  "from_json_value JNull = FNull"
| "from_json_value (JBool b) = FBoolean b"
| "from_json_value (JString s) = FString s"
| "from_json_value (JNumber n) = number_value n"
| "from_json_value (JArray items) = FArray (from_json_items items)"
| "from_json_value (JObject m) = FMap (from_json_entries m)"
| "from_json_items [] = []"
| "from_json_items (j # js) = from_json_value j # from_json_items js"
| "from_json_entries [] = []"
| "from_json_entries ((k, j) # m) = (k, from_json_value j) # from_json_entries m"

lemma from_json_entries_map: "from_json_entries m = map (\<lambda>(k, j). (k, from_json_value j)) m"
  by (induction m) auto

lemma bt_wf_from_json_entries: "bt_wf m \<Longrightarrow> bt_wf (from_json_entries m)"
  by (simp add: from_json_entries_map bt_wf_def comp_def case_prod_unfold)

section \<open>Documents and queries\<close>

record document_path =
  project_id :: string
  collection_path :: string
  document_id :: string

record firestore_document =
  path :: document_path
  doc_fields :: fields
  create_time :: "i64 \<times> i32"
  update_time :: "i64 \<times> i32"
  version :: i64

datatype filter_op =
    LessThan | LessThanOrEqual | GreaterThan | GreaterThanOrEqual | Equal | NotEqual
  | ArrayContains | OpIn | NotIn | ArrayContainsAny | IsNan | IsNotNan | IsNull | IsNotNull

record field_filter =
  field_path :: string
  filter_op :: filter_op
  filter_value :: field_value

datatype query_filter =
    Field field_filter
  | Composite "query_filter list"
  | CompositeOr "query_filter list"

text \<open>Which documents a filter tree selects, given what a single comparison selects: \<open>Composite\<close>
  is a conjunction and \<open>CompositeOr\<close> a disjunction. The comparisons themselves are executed by the
  database, so they are a parameter.\<close>

fun filter_matches :: "(field_filter \<Rightarrow> fields \<Rightarrow> bool) \<Rightarrow> query_filter \<Rightarrow> fields \<Rightarrow> bool" where
  "filter_matches sat (Field ff) d = sat ff d"
| "filter_matches sat (Composite fs) d = (\<forall>f \<in> set fs. filter_matches sat f d)"
| "filter_matches sat (CompositeOr fs) d = (\<exists>f \<in> set fs. filter_matches sat f d)"

text \<open>The one fact about the comparisons that access control relies on: a document selected by
  \<open>field == "text"\<close> holds that string in that field.\<close>

definition equality_exact :: "(field_filter \<Rightarrow> fields \<Rightarrow> bool) \<Rightarrow> bool" where
  "equality_exact sat \<longleftrightarrow>
     (\<forall>ff d s. filter_op ff = Equal \<longrightarrow> filter_value ff = FString s \<longrightarrow> sat ff d \<longrightarrow>
        bt_get d (field_path ff) = Some (FString s))"

text \<open>A comparison function with that property.\<close>

definition equality_only :: "field_filter \<Rightarrow> fields \<Rightarrow> bool" where
  "equality_only ff d \<longleftrightarrow>
     (case bt_get d (field_path ff) of None \<Rightarrow> False | Some v \<Rightarrow> fv_eq v (filter_value ff))"

lemma equality_exact_equality_only: "equality_exact equality_only"
  by (auto simp: equality_exact_def equality_only_def split: option.splits)

end
