(* ===== verification/Condition_Syntax.thy ===== *)
theory Condition_Syntax
  imports Field_Value
begin

text \<open>
  The data of \<open>embyr-core/src/access_control/mod.rs\<close>: the condition syntax tree, the tokens, the
  parse errors with their message texts, and the evaluation context.
\<close>

section \<open>Syntax trees\<close>

datatype duration_unit = Seconds | Minutes | Hours | Days

datatype arithmetic_op = Add | Sub

datatype compare_op = Eq | Ne | Lt | Le | Gt | Ge

datatype path_template_segment =
    TLiteral string
  | TAuthUid
  | TPathVariable string

record path_template =
  template_segments :: "path_template_segment list"

datatype operand =
    AuthUid
  | AuthNullSentinel
  | ResourceField string
  | RequestResourceField string
  | AuthTokenClaim string
  | BoolLiteral bool
  | NullLiteral
  | StringLiteral string
  | PathVariable string
  | IntLiteral i64
  | DoubleLiteral f64
  | ListLiteral "operand list"
  | RequestTime
  | Arithmetic operand arithmetic_op operand
  | DurationLiteral i64 duration_unit
  | CrossDocumentExists path_template
  | CrossDocumentGet path_template string

datatype condition =
    CLiteral bool
  | Compare operand compare_op operand
  | And condition condition
  | Or condition condition
  | Not condition
  | In operand operand

text \<open>The products in \<open>as_seconds\<close> are on \<open>i64\<close> and wrap around in a release build.\<close>

definition as_seconds :: "duration_unit \<Rightarrow> i64 \<Rightarrow> i64" where
  "as_seconds u amount =
     (case u of Seconds \<Rightarrow> amount | Minutes \<Rightarrow> amount * 60 | Hours \<Rightarrow> amount * 3600 | Days \<Rightarrow> amount * 86400)"

section \<open>Parse errors\<close>

datatype unsupported_construct = CustomFunction | WildcardPath | UnsupportedExpressionGrammar

datatype condition_parse_error =
    SyntaxError string
  | UnsupportedConstruct unsupported_construct string

section \<open>Tokens\<close>

datatype token =
    LParen | RParen | TAnd | TOr | TNot | TEq | TNe
  | Word string
  | TString string
  | TInt i64
  | TDouble f64
  | TLt | TLe | TGt | TGe
  | LBracket | RBracket | Comma | Plus | Minus
  | SingleQuotedUnit string
  | ExistsCall string
  | GetCall string string

section \<open>Evaluation\<close>

record auth_context =
  uid :: string
  claims :: fields

datatype evaluation_outcome = Allow | Deny

record eval_context =
  auth :: "auth_context option"
  resource_fields :: fields
  request_resource_fields :: fields
  path_variable_value :: "string option"
  ancestor_path_variable_values :: "string btree_map"
  request_time :: "field_value option"
  cross_document_reads :: "firestore_document option btree_map"

text \<open>The two unit structs that serve as errors.\<close>

datatype field_missing = FieldMissing

datatype undecidable = Undecidable

end
