(* ===== verification/Condition_Lexer.thy ===== *)
theory Condition_Lexer
  imports Condition_Syntax
begin

text \<open>
  The pre-scan and the tokenizer of \<open>access_control/mod.rs\<close>. A scanning function gets the position
  \<open>i\<close> of the character it looks at, which the messages quote, and the rest of the input from
  there; it returns the token and the number of characters it consumed. In the message texts the
  dash \<open>U+2014\<close> is written \<open>--\<close>.
\<close>

section \<open>Messages\<close>

definition quoted :: "string \<Rightarrow> string" where
  "quoted s = squote # s @ [squote]"

definition syntax_error :: "string \<Rightarrow> condition_parse_error" where
  "syntax_error detail = SyntaxError detail"

definition unsupported_grammar :: "string \<Rightarrow> condition_parse_error" where
  "unsupported_grammar detail = UnsupportedConstruct UnsupportedExpressionGrammar detail"

section \<open>The pre-scan\<close>

definition is_word_char :: "char \<Rightarrow> bool" where
  "is_word_char c \<longleftrightarrow> is_ascii_alphanumeric c \<or> c = CHR ''_'' \<or> c = CHR ''.''"

definition is_word_start :: "char \<Rightarrow> bool" where
  "is_word_start c \<longleftrightarrow> is_ascii_alphabetic c \<or> c = CHR ''_''"

fun mask_quoted :: "bool \<Rightarrow> string \<Rightarrow> string" where
  "mask_quoted in_quotes [] = []"
| "mask_quoted in_quotes (c # cs) =
     (if c = dquote then CHR '' '' # mask_quoted (\<not> in_quotes) cs
      else if in_quotes then CHR '' '' # mask_quoted in_quotes cs
      else c # mask_quoted in_quotes cs)"

definition allowed_call :: "string \<Rightarrow> bool" where
  "allowed_call ident \<longleftrightarrow> ident = ''duration.value'' \<or> ident = ''get'' \<or> ident = ''exists''"

definition custom_function_error :: "string \<Rightarrow> condition_parse_error" where
  "custom_function_error ident = UnsupportedConstruct CustomFunction
     (''custom function calls ('' @ quoted (ident @ ''(...)'') @ '') are not supported in v1'')"

definition wildcard_error :: condition_parse_error where
  "wildcard_error = UnsupportedConstruct WildcardPath
     ''wildcard/recursive path matching is not supported in v1''"

function scan_calls :: "string \<Rightarrow> condition_parse_error option" where
  "scan_calls [] = None"
| "scan_calls (c # cs) =
     (if is_word_start c then
        (let ident = takeWhile is_word_char (c # cs); rest = dropWhile is_word_char cs
         in if starts_with ''('' rest \<and> \<not> allowed_call ident
            then Some (custom_function_error ident)
            else scan_calls rest)
      else scan_calls cs)"
  by pat_completeness auto
termination scan_calls
  by (relation "measure length") (auto simp: le_imp_less_Suc length_dropWhile_le)

definition detect_unsupported_construct :: "string \<Rightarrow> condition_parse_error option" where
  "detect_unsupported_construct source =
     (let masked = mask_quoted False source
      in if contains_str ''**'' masked \<or> CHR ''{'' \<in> set masked then Some wildcard_error
         else scan_calls masked)"

section \<open>Tokens that span several characters\<close>

definition starts_with_at :: "string \<Rightarrow> string \<Rightarrow> bool" where
  "starts_with_at s needle \<longleftrightarrow> starts_with needle s"

fun paren_close :: "nat \<Rightarrow> string \<Rightarrow> nat option" where
  "paren_close depth [] = None"
| "paren_close depth (c # cs) =
     (if c = CHR ''('' then map_option Suc (paren_close (Suc depth) cs)
      else if c = CHR '')'' then
        (if depth \<le> 1 then Some 0 else map_option Suc (paren_close (depth - 1) cs))
      else map_option Suc (paren_close depth cs))"

definition find_matching_paren :: "nat \<Rightarrow> string \<Rightarrow> (condition_parse_error, nat) result" where
  "find_matching_paren start s =
     ok_or (syntax_error (''unterminated '' @ quoted ''('' @ '' starting search at position '' @ show_nat start))
       (paren_close 1 s)"

definition digits_value :: "string \<Rightarrow> nat" where
  "digits_value ds = foldl (\<lambda>n c. 10 * n + (of_char c - 48)) 0 ds"

definition parse_i64 :: "bool \<Rightarrow> string \<Rightarrow> i64 option" where
  "parse_i64 neg ds =
     (let v = digits_value ds
      in if neg then (if v \<le> 2 ^ 63 then Some (word_of_int (- int v)) else None)
         else (if v < 2 ^ 63 then Some (word_of_nat v) else None))"

definition starts_number :: "string \<Rightarrow> bool" where
  "starts_number s \<longleftrightarrow>
     (case s of
        [] \<Rightarrow> False
      | c # cs \<Rightarrow> is_ascii_digit c \<or>
          (c = CHR ''-'' \<and> (case cs of [] \<Rightarrow> False | d # _ \<Rightarrow> is_ascii_digit d)))"

definition lex_number :: "nat \<Rightarrow> string \<Rightarrow> (condition_parse_error, token \<times> nat) result" where
  "lex_number i s =
     (let neg = starts_with ''-'' s;
          body = (if neg then tl s else s);
          ds = takeWhile is_ascii_digit body;
          rest = dropWhile is_ascii_digit body;
          sign = (if neg then ''-'' else []);
          n = length sign + length ds
      in case rest of
           c # frac \<Rightarrow>
             if c = CHR ''.'' then
               (let fs = takeWhile is_ascii_digit frac
                in if fs = [] then
                     Inl (syntax_error (''expected a digit after '' @ quoted ''.'' @
                       '' in numeric literal at position '' @ show_nat (i + n)))
                   else Inr (TDouble (f64_of_decimal neg (digits_value (ds @ fs)) (length fs)),
                     n + 1 + length fs))
             else map_sum id (\<lambda>v. (TInt v, n))
               (ok_or (syntax_error (''invalid integer literal '' @ quoted (sign @ ds))) (parse_i64 neg ds))
         | [] \<Rightarrow> map_sum id (\<lambda>v. (TInt v, n))
               (ok_or (syntax_error (''invalid integer literal '' @ quoted (sign @ ds))) (parse_i64 neg ds)))"

definition lex_exists :: "nat \<Rightarrow> string \<Rightarrow> (condition_parse_error, token \<times> nat) result" where
  "lex_exists i s =
     (let after = drop 7 s
      in rbind (find_matching_paren (i + 7) after) (\<lambda>close.
           Inr (ExistsCall (take close after), 7 + close + 1)))"

definition is_field_char :: "char \<Rightarrow> bool" where
  "is_field_char c \<longleftrightarrow> is_ascii_alphanumeric c \<or> c = CHR ''_''"

definition lex_get :: "nat \<Rightarrow> string \<Rightarrow> (condition_parse_error, token \<times> nat) result" where
  "lex_get i s =
     (let after = drop 4 s
      in rbind (find_matching_paren (i + 4) after) (\<lambda>close.
           case strip_prefix ''.data.'' (drop (close + 1) after) of
             None \<Rightarrow> Inl (syntax_error (''expected '' @ quoted ''.data.<field>'' @
               '' immediately after '' @ quoted ''get(...)''))
           | Some tail \<Rightarrow>
               (let field = takeWhile is_field_char tail
                in if field = [] then
                     Inl (syntax_error (''expected a field name after '' @ quoted ''get(...).data.''))
                   else Inr (GetCall (take close after) field, 4 + close + 1 + 6 + length field))))"

definition lex_word :: "string \<Rightarrow> token \<times> nat" where
  "lex_word s = (let w = takeWhile is_word_char s in (Word w, length w))"

definition lex_delimited ::
  "char \<Rightarrow> string \<Rightarrow> (string \<Rightarrow> token) \<Rightarrow> nat \<Rightarrow> string \<Rightarrow> (condition_parse_error, token \<times> nat) result" where
  "lex_delimited quote what mk i s =
     (let content = takeWhile (\<lambda>c. c \<noteq> quote) (tl s)
      in if length content = length (tl s) then
           Inl (syntax_error (''unterminated '' @ what @ '' starting at position '' @ show_nat i))
         else Inr (mk content, length content + 2))"

definition lex_string :: "nat \<Rightarrow> string \<Rightarrow> (condition_parse_error, token \<times> nat) result" where
  "lex_string = lex_delimited dquote ''string literal'' TString"

definition lex_unit :: "nat \<Rightarrow> string \<Rightarrow> (condition_parse_error, token \<times> nat) result" where
  "lex_unit = lex_delimited squote ''single-quoted unit'' SingleQuotedUnit"

definition lex_unsupported_op :: "char \<Rightarrow> (condition_parse_error, token \<times> nat) result" where
  "lex_unsupported_op c = Inl (unsupported_grammar (''the arithmetic operator '' @ quoted [c] @
     '' is not supported in v1 -- only '' @ quoted ''+'' @ '' and '' @ quoted ''-'' @ '' are''))"

definition lex_other :: "nat \<Rightarrow> char \<Rightarrow> (condition_parse_error, token \<times> nat) result" where
  "lex_other i c = Inl (syntax_error (''unexpected character '' @ quoted [c] @ '' at position '' @ show_nat i))"

section \<open>The tokenizer\<close>

text \<open>The punctuation arms of the match, in its order; \<open>None\<close> is "no arm so far".\<close>

definition lex_punct :: "string \<Rightarrow> (token \<times> nat) option" where
  "lex_punct s =
     (case s of
        [] \<Rightarrow> None
      | c # cs \<Rightarrow>
          if c = CHR ''('' then Some (LParen, 1)
          else if c = CHR '')'' then Some (RParen, 1)
          else if c = CHR ''['' then Some (LBracket, 1)
          else if c = CHR '']'' then Some (RBracket, 1)
          else if c = CHR '','' then Some (Comma, 1)
          else if starts_with ''&&'' s then Some (TAnd, 2)
          else if starts_with ''||'' s then Some (TOr, 2)
          else if starts_with ''=='' s then Some (TEq, 2)
          else if starts_with ''!='' s then Some (TNe, 2)
          else if c = CHR ''!'' then Some (TNot, 1)
          else if starts_with ''<='' s then Some (TLe, 2)
          else if c = CHR ''<'' then Some (TLt, 1)
          else if starts_with ''>='' s then Some (TGe, 2)
          else if c = CHR ''>'' then Some (TGt, 1)
          else if c = CHR ''+'' then Some (Plus, 1)
          else None)"

definition lex_step :: "nat \<Rightarrow> string \<Rightarrow> (condition_parse_error, token \<times> nat) result" where
  "lex_step i s =
     (case lex_punct s of
        Some r \<Rightarrow> Inr r
      | None \<Rightarrow>
          if starts_number s then lex_number i s
          else if starts_with ''-'' s then Inr (Minus, 1)
          else if starts_with_at s ''exists('' then lex_exists i s
          else if starts_with_at s ''get('' then lex_get i s
          else case s of
            [] \<Rightarrow> Inl (syntax_error [])
          | c # cs \<Rightarrow>
              if is_word_start c then Inr (lex_word s)
              else if c = dquote then lex_string i s
              else if c = squote then lex_unit i s
              else if c = CHR ''*'' \<or> c = CHR ''/'' \<or> c = CHR ''%'' then lex_unsupported_op c
              else lex_other i c)"

lemma is_word_start_char: "is_word_start c \<Longrightarrow> is_word_char c"
  by (auto simp: is_word_start_def is_word_char_def is_ascii_alphanumeric_def)

lemma lex_punct_pos: "lex_punct s = Some (t, n) \<Longrightarrow> 0 < n"
  by (auto simp: lex_punct_def split: list.splits if_splits)

lemma lex_number_pos:
  "starts_number s \<Longrightarrow> lex_number i s = Inr (t, n) \<Longrightarrow> 0 < n"
proof -
  assume s: "starts_number s" and n: "lex_number i s = Inr (t, n)"
  from s obtain c cs where c: "s = c # cs" by (cases s) (auto simp: starts_number_def)
  show ?thesis
  proof (cases "c = CHR ''-''")
    case True
    with n c show ?thesis
      by (auto simp: lex_number_def Let_def ok_or_def split: list.splits if_splits option.splits)
  next
    case False
    with s c have "is_ascii_digit c" by (simp add: starts_number_def)
    with n c False show ?thesis
      by (auto simp: lex_number_def Let_def ok_or_def split: list.splits if_splits option.splits)
  qed
qed

lemma lex_step_pos [shrinks]: "lex_step i s = Inr (t, n) \<Longrightarrow> 0 < n"
  unfolding lex_step_def
  by (auto simp: lex_exists_def lex_get_def lex_word_def lex_string_def lex_unit_def
      lex_delimited_def lex_unsupported_op_def lex_other_def Let_def rbind_Inr_iff is_word_start_char
      dest: lex_punct_pos lex_number_pos split: option.splits if_splits list.splits)

function tokenize_from :: "nat \<Rightarrow> string \<Rightarrow> (condition_parse_error, token list) result" where
  "tokenize_from i [] = Inr []"
| "tokenize_from i (c # cs) =
     (if is_whitespace c then tokenize_from (i + 1) cs
      else rbind (lex_step i (c # cs)) (\<lambda>(t, n).
        rbind (tokenize_from (i + n) (drop n (c # cs))) (\<lambda>ts. Inr (t # ts))))"
  by pat_completeness auto
termination tokenize_from
  by (relation "measure (\<lambda>(i, s). length s)") (auto dest: lex_step_pos)

definition tokenize :: "string \<Rightarrow> (condition_parse_error, token list) result" where
  "tokenize source = tokenize_from 0 source"

end
