(* ===== verification/Condition_Parser.thy ===== *)
theory Condition_Parser
  imports Condition_Lexer
begin

text \<open>
  The recursive-descent parser of \<open>access_control/mod.rs\<close>. The parser's position in the token
  slice is the list of tokens not yet consumed; every function returns it with its result.
\<close>

type_synonym 'a parse = "(condition_parse_error, 'a \<times> token list) result"

section \<open>Path templates and words\<close>

definition template_segment :: "string \<Rightarrow> (condition_parse_error, path_template_segment) result" where
  "template_segment raw =
     (case Option.bind (strip_prefix ''$('' raw) (strip_suffix '')'') of
        Some inner \<Rightarrow>
          if inner = ''request.auth.uid'' then Inr TAuthUid
          else (case strip_prefix ''request.path.'' inner of
            Some name \<Rightarrow>
              if name = [] then Inl (syntax_error
                (quoted ''request.path.'' @ '' inside '' @ quoted ''$(...)'' @ '' requires a variable name''))
              else Inr (TPathVariable name)
          | None \<Rightarrow> Inl (unsupported_grammar
              (quoted (''$('' @ inner @ '')'') @ '' is not supported in a get()/exists() path -- only '' @
               quoted ''$(request.auth.uid)'' @ '' and '' @ quoted ''$(request.path.<var>)'' @ '' are, in v1'')))
      | None \<Rightarrow>
          if CHR ''$'' \<in> set raw then Inl (unsupported_grammar
            (quoted raw @ '' is not a well-formed '' @ quoted ''$(...)'' @
             '' substitution in a get()/exists() path''))
          else Inr (TLiteral raw))"

definition template_prefix :: "string list" where
  "template_prefix = [''databases'', ''$(database)'', ''documents'']"

definition parse_path_template :: "string \<Rightarrow> (condition_parse_error, path_template) result" where
  "parse_path_template raw_path =
     (let all_segments = filter (\<lambda>s. s \<noteq> []) (split_char (CHR ''/'') raw_path)
      in if length all_segments < 3 \<or> take 3 all_segments \<noteq> template_prefix then
           Inl (syntax_error (''a get()/exists() path must start with '' @
             quoted ''/databases/$(database)/documents/''))
         else if length all_segments = 3 then
           Inl (syntax_error ''a get()/exists() path must reference at least one collection/document segment'')
         else rbind (collect_results (map template_segment (drop 3 all_segments))) (\<lambda>segs.
           Inr \<lparr>template_segments = segs\<rparr>))"

definition named_operand ::
  "(string \<Rightarrow> operand) \<Rightarrow> string \<Rightarrow> string \<Rightarrow> string \<Rightarrow> (condition_parse_error, operand) result" where
  "named_operand mk pre what name =
     (if name = [] then Inl (syntax_error (quoted pre @ '' requires '' @ what)) else Inr (mk name))"

definition word_to_operand :: "string \<Rightarrow> (condition_parse_error, operand) result" where
  "word_to_operand w =
     (if w = ''request.auth.uid'' then Inr AuthUid
      else if w = ''request.auth'' then Inr AuthNullSentinel
      else if w = ''null'' then Inr NullLiteral
      else if w = ''request.time'' then Inr RequestTime
      else if w = ''true'' then Inr (BoolLiteral True)
      else if w = ''false'' then Inr (BoolLiteral False)
      else case strip_prefix ''request.auth.token.'' w of
        Some n \<Rightarrow> named_operand AuthTokenClaim ''request.auth.token.'' ''a claim name'' n
      | None \<Rightarrow> (case strip_prefix ''request.path.'' w of
        Some n \<Rightarrow> named_operand PathVariable ''request.path.'' ''a variable name'' n
      | None \<Rightarrow> (case strip_prefix ''request.resource.data.'' w of
        Some n \<Rightarrow> named_operand RequestResourceField ''request.resource.data.'' ''a field name'' n
      | None \<Rightarrow> (case strip_prefix ''resource.data.'' w of
        Some n \<Rightarrow> named_operand ResourceField ''resource.data.'' ''a field name'' n
      | None \<Rightarrow> Inl (syntax_error (''unrecognized operand '' @ quoted w))))))"

section \<open>Looking at the next token\<close>

text \<open>\<open>peek\<close>, and \<open>match self.advance()\<close> with one good arm: \<open>expect f e\<close> consumes the next token
  and decodes it with \<open>f\<close>, or fails with \<open>e\<close>.\<close>

definition peek :: "token list \<Rightarrow> token option" where
  "peek ts = (case ts of [] \<Rightarrow> None | t # _ \<Rightarrow> Some t)"

definition expect :: "(token \<Rightarrow> 'a option) \<Rightarrow> condition_parse_error \<Rightarrow> token list \<Rightarrow> 'a parse" where
  "expect f e ts =
     (case ts of
        [] \<Rightarrow> Inl e
      | t # rest \<Rightarrow> (case f t of None \<Rightarrow> Inl e | Some x \<Rightarrow> Inr (x, rest)))"

definition tok :: "token \<Rightarrow> token \<Rightarrow> unit option" where
  "tok t t' = (if t = t' then Some () else None)"

fun int_token :: "token \<Rightarrow> i64 option" where
  "int_token (TInt v) = Some v"
| "int_token _ = None"

fun unit_token :: "token \<Rightarrow> string option" where
  "unit_token (SingleQuotedUnit u) = Some u"
| "unit_token _ = None"

fun arith_token :: "token \<Rightarrow> arithmetic_op option" where
  "arith_token Plus = Some Add"
| "arith_token Minus = Some Sub"
| "arith_token _ = None"

fun compare_token :: "token \<Rightarrow> compare_op option" where
  "compare_token TEq = Some Eq"
| "compare_token TNe = Some Ne"
| "compare_token TLt = Some Lt"
| "compare_token TLe = Some Le"
| "compare_token TGt = Some Gt"
| "compare_token TGe = Some Ge"
| "compare_token _ = None"

text \<open>After a list item: another one follows, or the list is closed.\<close>

fun more_token :: "token \<Rightarrow> bool option" where
  "more_token Comma = Some True"
| "more_token RBracket = Some False"
| "more_token _ = None"

fun exists_token :: "token \<Rightarrow> bool" where
  "exists_token (ExistsCall _) = True"
| "exists_token _ = False"

fun operand_token :: "token \<Rightarrow> bool" where
  "operand_token (Word _) = True"
| "operand_token (GetCall _ _) = True"
| "operand_token _ = False"

lemma peek_simps [simp]: "peek [] = None" "peek (t # ts) = Some t"
  by (simp_all add: peek_def)

lemma peek_Some_iff: "peek ts = Some t \<longleftrightarrow> (\<exists>rest. ts = t # rest)"
  by (cases ts) auto

lemma tok_simps [simp]: "tok t t = Some ()" "tok t t' = Some u \<longleftrightarrow> t = t'"
  by (auto simp: tok_def)

lemma expect_simps [simp]:
  "expect f e [] = Inl e"
  "expect f e (t # ts) = (case f t of None \<Rightarrow> Inl e | Some x \<Rightarrow> Inr (x, ts))"
  by (simp_all add: expect_def)

lemma expect_Inr_iff: "expect f e ts = Inr (x, rest) \<longleftrightarrow> (\<exists>t. ts = t # rest \<and> f t = Some x)"
  by (cases ts) (auto split: option.splits)

section \<open>Operands\<close>

fun base_operand :: "token \<Rightarrow> (condition_parse_error, operand) result" where
  "base_operand (Word w) = word_to_operand w"
| "base_operand (TString s) = Inr (StringLiteral s)"
| "base_operand (TInt v) = Inr (IntLiteral v)"
| "base_operand (TDouble v) = Inr (DoubleLiteral v)"
| "base_operand (ExistsCall raw) = rbind (parse_path_template raw) (\<lambda>t. Inr (CrossDocumentExists t))"
| "base_operand (GetCall raw field) =
     rbind (parse_path_template raw) (\<lambda>t. Inr (CrossDocumentGet t field))"
| "base_operand _ = Inl (syntax_error ''expected an operand'')"

definition parse_base_operand :: "token list \<Rightarrow> operand parse" where
  "parse_base_operand ts =
     (case ts of
        [] \<Rightarrow> Inl (syntax_error ''expected an operand'')
      | t # rest \<Rightarrow> rbind (base_operand t) (\<lambda>x. Inr (x, rest)))"

definition duration_unit_of :: "string \<Rightarrow> (condition_parse_error, duration_unit) result" where
  "duration_unit_of u =
     (if u = ''s'' then Inr Seconds
      else if u = ''m'' then Inr Minutes
      else if u = ''h'' then Inr Hours
      else if u = ''d'' then Inr Days
      else Inl (unsupported_grammar (''unrecognized duration unit '' @ quoted u @ '' -- only '' @
        quoted ''s'' @ ''/'' @ quoted ''m'' @ ''/'' @ quoted ''h'' @ ''/'' @ quoted ''d'' @
        '' are supported in v1'')))"

text \<open>From the token after the word \<open>duration.value\<close> on.\<close>

definition parse_duration_value :: "token list \<Rightarrow> operand parse" where
  "parse_duration_value ts =
     rbind (expect (tok LParen)
       (syntax_error (''expected '' @ quoted ''('' @ '' after '' @ quoted ''duration.value'')) ts) (\<lambda>(_, ts1).
     rbind (expect int_token
       (syntax_error (''expected an integer literal amount in '' @ quoted ''duration.value(...)'')) ts1) (\<lambda>(amount, ts2).
     rbind (expect (tok Comma)
       (syntax_error (''expected '' @ quoted '','' @ '' in '' @ quoted ''duration.value(...)'')) ts2) (\<lambda>(_, ts3).
     rbind (expect unit_token
       (unsupported_grammar (quoted ''duration.value(...)'' @ '' requires a single-quoted unit string ('' @
          quoted ''s'' @ ''/'' @ quoted ''m'' @ ''/'' @ quoted ''h'' @ ''/'' @ quoted ''d'' @ '')'')) ts3) (\<lambda>(u, ts4).
     rbind (duration_unit_of u) (\<lambda>unit.
     rbind (expect (tok RParen)
       (syntax_error (''expected '' @ quoted '')'' @ '' to close '' @ quoted ''duration.value(...)'')) ts4) (\<lambda>(_, ts5).
     Inr (DurationLiteral amount unit, ts5)))))))"

definition parse_arithmetic_rhs :: "token list \<Rightarrow> operand parse" where
  "parse_arithmetic_rhs ts =
     (if peek ts = Some (Word ''duration.value'') then parse_duration_value (tl ts)
      else parse_base_operand ts)"

definition peek_arith :: "token list \<Rightarrow> arithmetic_op option" where
  "peek_arith ts = Option.bind (peek ts) arith_token"

definition nested_arithmetic :: condition_parse_error where
  "nested_arithmetic = unsupported_grammar (''nested arithmetic (more than one '' @ quoted ''+'' @
     ''/'' @ quoted ''-'' @ '' per comparison operand) is not supported in v1'')"

definition parse_operand :: "token list \<Rightarrow> operand parse" where
  "parse_operand ts =
     rbind (parse_base_operand ts) (\<lambda>(base, rest).
       case peek_arith rest of
         None \<Rightarrow> Inr (base, rest)
       | Some op \<Rightarrow> rbind (parse_arithmetic_rhs (tl rest)) (\<lambda>(right, rest').
           if peek_arith rest' \<noteq> None then Inl nested_arithmetic
           else Inr (Arithmetic base op right, rest')))"

lemma parse_base_operand_Inr_iff:
  "parse_base_operand ts = Inr (x, rest) \<longleftrightarrow> (\<exists>t. ts = t # rest \<and> base_operand t = Inr x)"
  by (cases ts) (auto simp: parse_base_operand_def rbind_Inr_iff)

lemma parse_duration_value_Inr_iff:
  "parse_duration_value ts = Inr (x, rest) \<longleftrightarrow>
     (\<exists>n u unit. ts = LParen # TInt n # Comma # SingleQuotedUnit u # RParen # rest \<and>
        duration_unit_of u = Inr unit \<and> x = DurationLiteral n unit)"
proof -
  have "int_token t = Some n \<longleftrightarrow> t = TInt n" "unit_token t = Some u \<longleftrightarrow> t = SingleQuotedUnit u" for t n u
    by (cases t; auto)+
  then show ?thesis
    by (auto simp: parse_duration_value_def rbind_Inr_iff expect_Inr_iff)
qed

lemma parse_arithmetic_rhs_less [shrinks]:
  "parse_arithmetic_rhs ts = Inr (x, rest) \<Longrightarrow> length rest < length ts"
  by (cases ts)
    (auto simp: parse_arithmetic_rhs_def parse_base_operand_Inr_iff parse_duration_value_Inr_iff
      split: if_splits)

lemma parse_operand_less [shrinks]:
  assumes "parse_operand ts = Inr (x, rest)"
  shows "length rest < length ts"
proof -
  obtain b r where b: "parse_base_operand ts = Inr (b, r)"
    using assms by (auto simp: parse_operand_def rbind_Inr_iff)
  then have "length r < length ts" by (auto simp: parse_base_operand_Inr_iff)
  with assms b show ?thesis
    by (cases r) (auto simp: parse_operand_def rbind_Inr_iff split: option.splits if_splits
      dest!: parse_arithmetic_rhs_less)
qed

section \<open>Lists and comparisons\<close>

definition list_separator_expected :: condition_parse_error where
  "list_separator_expected =
     syntax_error (''expected '' @ quoted '','' @ '' or '' @ quoted '']'' @ '' in list literal'')"

function parse_list_items :: "token list \<Rightarrow> operand list parse" where
  "parse_list_items ts =
     rbind (parse_operand ts) (\<lambda>(x, rest).
       rbind (expect more_token list_separator_expected rest) (\<lambda>(more, rest').
         if more then rbind (parse_list_items rest') (\<lambda>(xs, r). Inr (x # xs, r))
         else Inr ([x], rest')))"
  by pat_completeness auto
termination parse_list_items
  by (relation "measure length") (auto simp: expect_Inr_iff dest!: parse_operand_less)

declare parse_list_items.simps [simp del]

definition parse_list_literal :: "token list \<Rightarrow> operand parse" where
  "parse_list_literal ts =
     rbind (expect (tok LBracket) (syntax_error (''expected '' @ quoted ''['' @ '' to start a list literal'')) ts)
       (\<lambda>(_, ts1).
         if peek ts1 = Some RBracket then Inr (ListLiteral [], tl ts1)
         else rbind (parse_list_items ts1) (\<lambda>(items, rest). Inr (ListLiteral items, rest)))"

definition parse_comparison :: "token list \<Rightarrow> condition parse" where
  "parse_comparison ts =
     rbind (parse_operand ts) (\<lambda>(left, rest).
       if peek rest = Some (Word ''in'') then
         (if peek (tl rest) \<noteq> Some LBracket then
            Inl (unsupported_grammar (quoted ''in'' @
              '' is only supported against a bracketed list literal in v1''))
          else rbind (parse_list_literal (tl rest)) (\<lambda>(lst, r). Inr (In left lst, r)))
       else rbind (expect compare_token (syntax_error ''expected a comparison operator'') rest) (\<lambda>(op, rest').
         rbind (parse_operand rest') (\<lambda>(right, r). Inr (Compare left op right, r))))"

lemma parse_list_items_less [shrinks]:
  "parse_list_items ts = Inr (xs, rest) \<Longrightarrow> length rest < length ts"
proof (induction ts arbitrary: xs rest rule: parse_list_items.induct)
  case (1 ts)
  obtain x r t r' more where x: "parse_operand ts = Inr (x, r)" "r = t # r'" "more_token t = Some more"
    "expect more_token list_separator_expected r = Inr (more, r')"
    using "1.prems" by (subst (asm) parse_list_items.simps) (auto simp: rbind_Inr_iff expect_Inr_iff)
  note less = parse_operand_less [OF x(1)]
  show ?case
  proof (cases more)
    case True
    then obtain ys where "parse_list_items r' = Inr (ys, rest)"
      using "1.prems" x by (subst (asm) parse_list_items.simps) (auto simp: rbind_Inr_iff)
    with "1.IH" [OF x(1) refl x(4) refl True] less x(2) show ?thesis by fastforce
  next
    case False
    then have "rest = r'"
      using "1.prems" x by (subst (asm) parse_list_items.simps) (auto simp: rbind_Inr_iff)
    with less x(2) show ?thesis by simp
  qed
qed

lemma parse_list_literal_less [shrinks]:
  "parse_list_literal ts = Inr (x, rest) \<Longrightarrow> length rest < length ts"
  by (auto simp: parse_list_literal_def rbind_Inr_iff expect_Inr_iff peek_Some_iff
      dest!: parse_list_items_less split: if_splits)

lemma parse_comparison_less [shrinks]:
  assumes "parse_comparison ts = Inr (c, rest)"
  shows "length rest < length ts"
proof -
  obtain l r where l: "parse_operand ts = Inr (l, r)"
    using assms by (auto simp: parse_comparison_def rbind_Inr_iff)
  show ?thesis
    using assms l parse_operand_less [OF l]
    by (cases r) (auto simp: parse_comparison_def rbind_Inr_iff split: if_splits option.splits
        dest!: parse_list_literal_less parse_operand_less)
qed

section \<open>Conditions\<close>

definition expected_condition :: condition_parse_error where
  "expected_condition = syntax_error (''expected a condition (operand, '' @ quoted ''true'' @ ''/'' @
     quoted ''false'' @ '', or '' @ quoted ''('' @ '')'')"

definition expected_close :: condition_parse_error where
  "expected_close = syntax_error (''expected closing '' @ quoted '')'')"

function parse_or :: "token list \<Rightarrow> condition parse"
  and or_tail :: "condition \<Rightarrow> token list \<Rightarrow> condition parse"
  and parse_and :: "token list \<Rightarrow> condition parse"
  and and_tail :: "condition \<Rightarrow> token list \<Rightarrow> condition parse"
  and parse_unary :: "token list \<Rightarrow> condition parse"
  and parse_primary :: "token list \<Rightarrow> condition parse" where
  "parse_or ts = rbind (parse_and ts) (\<lambda>(left, rest). or_tail left rest)"
| "or_tail left ts =
     (if peek ts = Some TOr then
        rbind (parse_and (tl ts)) (\<lambda>(right, rest). or_tail (Or left right) rest)
      else Inr (left, ts))"
| "parse_and ts = rbind (parse_unary ts) (\<lambda>(left, rest). and_tail left rest)"
| "and_tail left ts =
     (if peek ts = Some TAnd then
        rbind (parse_unary (tl ts)) (\<lambda>(right, rest). and_tail (And left right) rest)
      else Inr (left, ts))"
| "parse_unary ts =
     (if peek ts = Some TNot then
        rbind (parse_unary (tl ts)) (\<lambda>(inner, rest). Inr (Not inner, rest))
      else parse_primary ts)"
| "parse_primary ts =
     (case peek ts of
        None \<Rightarrow> Inl expected_condition
      | Some t \<Rightarrow>
          if t = LParen then
            rbind (parse_or (tl ts)) (\<lambda>(inner, rest).
              rbind (expect (tok RParen) expected_close rest) (\<lambda>(_, rest'). Inr (inner, rest')))
          else if t = Word ''true'' then Inr (CLiteral True, tl ts)
          else if t = Word ''false'' then Inr (CLiteral False, tl ts)
          else if exists_token t then
            rbind (parse_base_operand ts) (\<lambda>(x, rest). Inr (Compare x Eq (BoolLiteral True), rest))
          else if operand_token t then parse_comparison ts
          else Inl expected_condition)"
  by pat_completeness auto

text \<open>Each level consumes at least one token, so the loops of \<open>parse_or\<close> and \<open>parse_and\<close> end.\<close>

lemma parse_levels_less_dom:
  "parse_or_or_tail_parse_and_and_tail_parse_unary_parse_primary_dom (Inl (Inl ts1)) \<Longrightarrow>
     parse_or ts1 = Inr (c1, r1) \<Longrightarrow> length r1 < length ts1"
  "parse_or_or_tail_parse_and_and_tail_parse_unary_parse_primary_dom (Inl (Inr (Inl (l2, ts2)))) \<Longrightarrow>
     or_tail l2 ts2 = Inr (c2, r2) \<Longrightarrow> length r2 \<le> length ts2"
  "parse_or_or_tail_parse_and_and_tail_parse_unary_parse_primary_dom (Inl (Inr (Inr ts3))) \<Longrightarrow>
     parse_and ts3 = Inr (c3, r3) \<Longrightarrow> length r3 < length ts3"
  "parse_or_or_tail_parse_and_and_tail_parse_unary_parse_primary_dom (Inr (Inl (l4, ts4))) \<Longrightarrow>
     and_tail l4 ts4 = Inr (c4, r4) \<Longrightarrow> length r4 \<le> length ts4"
  "parse_or_or_tail_parse_and_and_tail_parse_unary_parse_primary_dom (Inr (Inr (Inl ts5))) \<Longrightarrow>
     parse_unary ts5 = Inr (c5, r5) \<Longrightarrow> length r5 < length ts5"
  "parse_or_or_tail_parse_and_and_tail_parse_unary_parse_primary_dom (Inr (Inr (Inr ts6))) \<Longrightarrow>
     parse_primary ts6 = Inr (c6, r6) \<Longrightarrow> length r6 < length ts6"
proof (induction ts1 and l2 ts2 and ts3 and l4 ts4 and ts5 and ts6
    arbitrary: c1 r1 and c2 r2 and c3 r3 and c4 r4 and c5 r5 and c6 r6
    rule: parse_or_or_tail_parse_and_and_tail_parse_unary_parse_primary.pinduct)
  case (1 ts)
  obtain l rest where "parse_and ts = Inr (l, rest)" "or_tail l rest = Inr (c1, r1)"
    using "1.prems" by (auto simp: parse_or.psimps [OF "1.hyps"] rbind_Inr_iff)
  then show ?case using "1.IH" by fastforce
next
  case (2 left ts)
  show ?case
  proof (cases "peek ts = Some TOr")
    case True
    then obtain right rest where *: "parse_and (tl ts) = Inr (right, rest)" "or_tail (Or left right) rest = Inr (c2, r2)"
      using "2.prems" by (auto simp: or_tail.psimps [OF "2.hyps"] rbind_Inr_iff)
    then have "length rest < length (tl ts)" "length r2 \<le> length rest"
      using "2.IH"(1) [OF True *(1)] "2.IH"(2) [OF True *(1) refl *(2)] by auto
    then show ?thesis by simp
  next
    case False
    then show ?thesis using "2.prems" by (auto simp: or_tail.psimps [OF "2.hyps"])
  qed
next
  case (3 ts)
  obtain l rest where "parse_unary ts = Inr (l, rest)" "and_tail l rest = Inr (c3, r3)"
    using "3.prems" by (auto simp: parse_and.psimps [OF "3.hyps"] rbind_Inr_iff)
  then show ?case using "3.IH" by fastforce
next
  case (4 left ts)
  show ?case
  proof (cases "peek ts = Some TAnd")
    case True
    then obtain right rest where *: "parse_unary (tl ts) = Inr (right, rest)" "and_tail (And left right) rest = Inr (c4, r4)"
      using "4.prems" by (auto simp: and_tail.psimps [OF "4.hyps"] rbind_Inr_iff)
    then have "length rest < length (tl ts)" "length r4 \<le> length rest"
      using "4.IH"(1) [OF True *(1)] "4.IH"(2) [OF True *(1) refl *(2)] by auto
    then show ?thesis by simp
  next
    case False
    then show ?thesis using "4.prems" by (auto simp: and_tail.psimps [OF "4.hyps"])
  qed
next
  case (5 ts)
  show ?case
  proof (cases "peek ts = Some TNot")
    case True
    then obtain inner where "parse_unary (tl ts) = Inr (inner, r5)"
      using "5.prems" by (auto simp: parse_unary.psimps [OF "5.hyps"] rbind_Inr_iff)
    then have "length r5 < length (tl ts)" by (rule "5.IH"(1) [OF True])
    then show ?thesis by simp
  next
    case False
    then show ?thesis
      using "5.prems" "5.IH"(2) [OF False] by (auto simp: parse_unary.psimps [OF "5.hyps"])
  qed
next
  case (6 ts)
  then obtain t rest where ts: "ts = t # rest"
    by (cases ts) (auto simp: parse_primary.psimps)
  note eq = parse_primary.psimps [OF "6.hyps", unfolded ts]
  show ?case
  proof (cases "t = LParen")
    case True
    with ts obtain r where "parse_or rest = Inr (c6, r)" "length r6 < length r"
      using "6.prems" by (auto simp: eq [unfolded True] rbind_Inr_iff expect_Inr_iff)
    with "6.IH" [of t] ts True show ?thesis by fastforce
  next
    case False
    with ts show ?thesis
      using "6.prems"
      by (auto simp: eq rbind_Inr_iff parse_base_operand_Inr_iff
          dest: parse_comparison_less split: if_splits)
  qed
qed

termination parse_or
proof (relation "measures [\<lambda>x. case x of
      Inl (Inl ts) \<Rightarrow> length ts | Inl (Inr (Inl (l, ts))) \<Rightarrow> length ts | Inl (Inr (Inr ts)) \<Rightarrow> length ts
    | Inr (Inl (l, ts)) \<Rightarrow> length ts | Inr (Inr (Inl ts)) \<Rightarrow> length ts | Inr (Inr (Inr ts)) \<Rightarrow> length ts,
    \<lambda>x. case x of
      Inl (Inl ts) \<Rightarrow> 4 | Inl (Inr (Inl (l, ts))) \<Rightarrow> 0 | Inl (Inr (Inr ts)) \<Rightarrow> 3
    | Inr (Inl (l, ts)) \<Rightarrow> 0 | Inr (Inr (Inl ts)) \<Rightarrow> 2 | Inr (Inr (Inr ts)) \<Rightarrow> (1::nat)]", goal_cases)
qed (auto simp: peek_Some_iff dest!: parse_levels_less_dom)

declare parse_or.simps [simp del] or_tail.simps [simp del] parse_and.simps [simp del]
  and_tail.simps [simp del] parse_unary.simps [simp del] parse_primary.simps [simp del]

definition parse_tokens :: "token list \<Rightarrow> (condition_parse_error, condition) result" where
  "parse_tokens tokens =
     rbind (parse_or tokens) (\<lambda>(c, rest).
       if rest \<noteq> [] then Inl (syntax_error ''unexpected trailing input after condition'') else Inr c)"

definition parse_condition :: "string \<Rightarrow> (condition_parse_error, condition) result" where
  "parse_condition source =
     (case detect_unsupported_construct source of
        Some err \<Rightarrow> Inl err
      | None \<Rightarrow> rbind (tokenize source) parse_tokens)"

end
