(* ===== verification/Condition_Grammar.thy ===== *)
theory Condition_Grammar
  imports Condition_Parser
begin

text \<open>
  The grammar of rule conditions as an inductive relation between syntax trees and token lists,
  and its equivalence with the recursive descent parser of \<open>access_control/mod.rs\<close>:
  \<open>||\<close> binds weaker than \<open>&&\<close>, both associate to the left, \<open>!\<close> binds strongest, an operand
  holds at most one \<open>+\<close> or \<open>-\<close>.
\<close>

section \<open>The grammar\<close>

inductive arith_rhs :: "operand \<Rightarrow> token list \<Rightarrow> bool" where
  rhs_base: "base_operand t = Inr x \<Longrightarrow> arith_rhs x [t]"
| rhs_duration: "duration_unit_of u = Inr unit \<Longrightarrow>
    arith_rhs (DurationLiteral n unit)
      [Word ''duration.value'', LParen, TInt n, Comma, SingleQuotedUnit u, RParen]"

inductive operand_gram :: "operand \<Rightarrow> token list \<Rightarrow> bool" where
  operand_base: "base_operand t = Inr x \<Longrightarrow> operand_gram x [t]"
| operand_arith: "base_operand t = Inr l \<Longrightarrow> arith_token p = Some op \<Longrightarrow> arith_rhs r ts \<Longrightarrow>
    operand_gram (Arithmetic l op r) (t # p # ts)"

inductive items_gram :: "operand list \<Rightarrow> token list \<Rightarrow> bool" where
  items_last: "operand_gram x ts \<Longrightarrow> items_gram [x] (ts @ [RBracket])"
| items_more: "operand_gram x ts \<Longrightarrow> items_gram xs us \<Longrightarrow> items_gram (x # xs) (ts @ Comma # us)"

inductive comparison_gram :: "condition \<Rightarrow> token list \<Rightarrow> bool" where
  comparison_op: "operand_gram l ts \<Longrightarrow> compare_token p = Some op \<Longrightarrow> operand_gram r us \<Longrightarrow>
    comparison_gram (Compare l op r) (ts @ p # us)"
| comparison_in_empty: "operand_gram l ts \<Longrightarrow>
    comparison_gram (In l (ListLiteral [])) (ts @ [Word ''in'', LBracket, RBracket])"
| comparison_in: "operand_gram l ts \<Longrightarrow> items_gram items us \<Longrightarrow>
    comparison_gram (In l (ListLiteral items)) (ts @ Word ''in'' # LBracket # us)"

datatype level = LOr | LAnd | LUnary | LPrimary

text \<open>A comparison starts with a word other than a boolean literal, or with a \<open>get\<close> call.\<close>

definition starts_comparison :: "token list \<Rightarrow> bool" where
  "starts_comparison ts \<longleftrightarrow>
     (case ts of [] \<Rightarrow> False | t # _ \<Rightarrow> operand_token t \<and> t \<noteq> Word ''true'' \<and> t \<noteq> Word ''false'')"

inductive cond_gram :: "level \<Rightarrow> condition \<Rightarrow> token list \<Rightarrow> bool" where
  gram_true: "cond_gram LPrimary (CLiteral True) [Word ''true'']"
| gram_false: "cond_gram LPrimary (CLiteral False) [Word ''false'']"
| gram_exists: "base_operand (ExistsCall raw) = Inr x \<Longrightarrow>
    cond_gram LPrimary (Compare x Eq (BoolLiteral True)) [ExistsCall raw]"
| gram_comparison: "comparison_gram c ts \<Longrightarrow> starts_comparison ts \<Longrightarrow> cond_gram LPrimary c ts"
| gram_paren: "cond_gram LOr c ts \<Longrightarrow> cond_gram LPrimary c (LParen # ts @ [RParen])"
| gram_primary: "cond_gram LPrimary c ts \<Longrightarrow> cond_gram LUnary c ts"
| gram_not: "cond_gram LUnary c ts \<Longrightarrow> cond_gram LUnary (Not c) (TNot # ts)"
| gram_unary: "cond_gram LUnary c ts \<Longrightarrow> cond_gram LAnd c ts"
| gram_and: "cond_gram LAnd l ts \<Longrightarrow> cond_gram LUnary r us \<Longrightarrow> cond_gram LAnd (And l r) (ts @ TAnd # us)"
| gram_conj: "cond_gram LAnd c ts \<Longrightarrow> cond_gram LOr c ts"
| gram_or: "cond_gram LOr l ts \<Longrightarrow> cond_gram LAnd r us \<Longrightarrow> cond_gram LOr (Or l r) (ts @ TOr # us)"

inductive_cases arith_rhsE: "arith_rhs x ts"
inductive_cases operand_gramE: "operand_gram x ts"

section \<open>The parser accepts the grammar\<close>

lemma duration_word_no_operand: "base_operand (Word ''duration.value'') = Inr x \<Longrightarrow> False"
  by (simp add: word_to_operand_def)

lemma parse_arithmetic_rhs_complete:
  "arith_rhs x ts \<Longrightarrow> parse_arithmetic_rhs (ts @ rest) = Inr (x, rest)"
  by (erule arith_rhs.cases)
    (auto simp: parse_arithmetic_rhs_def parse_base_operand_Inr_iff parse_duration_value_Inr_iff
      dest: duration_word_no_operand)

lemma parse_operand_complete:
  assumes "operand_gram x ts" and "peek_arith rest = None"
  shows "parse_operand (ts @ rest) = Inr (x, rest)"
  using assms(1)
proof cases
  case (operand_base t)
  then have "parse_base_operand (ts @ rest) = Inr (x, rest)" by (simp add: parse_base_operand_Inr_iff)
  then show ?thesis using assms(2) by (simp add: parse_operand_def)
next
  case (operand_arith t l p op r us)
  then have "parse_base_operand (ts @ rest) = Inr (l, p # us @ rest)" by (simp add: parse_base_operand_Inr_iff)
  then show ?thesis
    using operand_arith assms(2) parse_arithmetic_rhs_complete [of r us rest]
    by (simp add: parse_operand_def peek_arith_def)
qed

lemma peek_arith_simps [simp]:
  "peek_arith [] = None" "peek_arith (t # ts) = arith_token t"
  by (simp_all add: peek_arith_def)

lemma parse_list_items_complete:
  "items_gram xs ts \<Longrightarrow> parse_list_items (ts @ rest) = Inr (xs, rest)"
proof (induction xs ts rule: items_gram.induct)
  case (items_last x ts)
  then show ?case
    by (subst parse_list_items.simps) (simp add: parse_operand_complete)
next
  case (items_more x ts xs us)
  then show ?case
    by (subst parse_list_items.simps) (simp add: parse_operand_complete)
qed

lemma items_gram_hd: "items_gram xs ts \<Longrightarrow> \<exists>t us. ts = t # us \<and> t \<noteq> RBracket"
  by (erule items_gram.cases; auto elim!: operand_gramE)

lemma compare_token_no_arith: "compare_token p = Some op \<Longrightarrow> arith_token p = None \<and> p \<noteq> Word w"
  by (cases p) auto

lemma parse_comparison_complete:
  assumes "comparison_gram c ts" and "peek_arith rest = None"
  shows "parse_comparison (ts @ rest) = Inr (c, rest)"
  using assms(1)
proof cases
  case (comparison_op l us p op r vs)
  then show ?thesis
    using assms(2) compare_token_no_arith
    by (auto simp: parse_comparison_def parse_operand_complete)
next
  case (comparison_in_empty l us)
  then show ?thesis
    by (simp add: parse_comparison_def parse_operand_complete parse_list_literal_def)
next
  case (comparison_in l us items vs)
  obtain t ws where "vs = t # ws" "t \<noteq> RBracket" using items_gram_hd [OF comparison_in(4)] by blast
  then show ?thesis
    using comparison_in parse_list_items_complete [OF comparison_in(4), of rest]
    by (simp add: parse_comparison_def parse_operand_complete parse_list_literal_def)
qed

text \<open>What the parser at each level does in front of a rest that cannot continue an operand.\<close>

fun level_parses :: "level \<Rightarrow> condition \<Rightarrow> token list \<Rightarrow> bool" where
  "level_parses LPrimary c ts \<longleftrightarrow>
     (\<forall>rest. peek_arith rest = None \<longrightarrow> parse_primary (ts @ rest) = Inr (c, rest)) \<and> hd ts \<noteq> TNot \<and> ts \<noteq> []"
| "level_parses LUnary c ts \<longleftrightarrow>
     (\<forall>rest. peek_arith rest = None \<longrightarrow> parse_unary (ts @ rest) = Inr (c, rest))"
| "level_parses LAnd c ts \<longleftrightarrow>
     (\<forall>rest. peek_arith rest = None \<longrightarrow> parse_and (ts @ rest) = and_tail c rest)"
| "level_parses LOr c ts \<longleftrightarrow>
     (\<forall>rest. peek_arith rest = None \<longrightarrow> peek rest \<noteq> Some TAnd \<longrightarrow> parse_or (ts @ rest) = or_tail c rest)"

lemma cond_gram_parses: "cond_gram lev c ts \<Longrightarrow> level_parses lev c ts"
proof (induction lev c ts rule: cond_gram.induct)
  case (gram_exists raw x)
  then have "parse_base_operand (ExistsCall raw # rest) = Inr (x, rest)" for rest
    by (simp add: parse_base_operand_Inr_iff)
  then show ?case by (simp add: parse_primary.simps)
next
  case (gram_comparison c ts)
  then obtain t us where ts: "ts = t # us" "operand_token t" "t \<noteq> Word ''true''" "t \<noteq> Word ''false''"
    by (auto simp: starts_comparison_def split: list.splits)
  then have "\<not> exists_token t" "t \<noteq> LParen" "t \<noteq> TNot" by (cases t; simp)+
  then show ?case
    using ts parse_comparison_complete [OF gram_comparison(1)] by (auto simp: parse_primary.simps)
next
  case (gram_paren c ts)
  have "parse_or (ts @ RParen # rest) = Inr (c, RParen # rest)" for rest
    using gram_paren.IH by (simp add: or_tail.simps)
  then show ?case by (simp add: parse_primary.simps)
next
  case (gram_primary c ts)
  then obtain t us where "ts = t # us" "t \<noteq> TNot" by (cases ts) auto
  then show ?case using gram_primary.IH by (auto simp: parse_unary.simps)
next
  case (gram_not c ts)
  then show ?case by (simp add: parse_unary.simps [of "TNot # _"])
next
  case (gram_unary c ts)
  then show ?case by (simp add: parse_and.simps)
next
  case (gram_and l ts r us)
  then show ?case by (simp add: and_tail.simps [of l])
next
  case (gram_conj c ts)
  then show ?case by (simp add: parse_or.simps and_tail.simps)
next
  case (gram_or l ts r us)
  then show ?case by (simp add: or_tail.simps [of l "TOr # _"] and_tail.simps [of r])
qed (simp_all add: parse_primary.simps)

section \<open>The parser accepts only the grammar\<close>

lemma parse_arithmetic_rhs_sound:
  assumes "parse_arithmetic_rhs ts = Inr (x, rest)"
  shows "\<exists>us. ts = us @ rest \<and> arith_rhs x us"
proof (cases "peek ts = Some (Word ''duration.value'')")
  case True
  then show ?thesis
    using assms by (auto simp: parse_arithmetic_rhs_def parse_duration_value_Inr_iff peek_Some_iff
        intro: exI [of _ "[_, _, _, _, _, _]"] arith_rhs.intros)
next
  case False
  then obtain t where "ts = t # rest" "base_operand t = Inr x"
    using assms by (auto simp: parse_arithmetic_rhs_def parse_base_operand_Inr_iff)
  then show ?thesis by (intro exI [of _ "[t]"]) (auto intro: arith_rhs.intros)
qed

lemma parse_operand_sound:
  assumes "parse_operand ts = Inr (x, rest)"
  shows "\<exists>us. ts = us @ rest \<and> operand_gram x us"
proof -
  obtain b t r where b: "ts = t # r" "base_operand t = Inr b" "parse_base_operand ts = Inr (b, r)"
    using assms by (auto simp: parse_operand_def rbind_Inr_iff parse_base_operand_Inr_iff)
  show ?thesis
  proof (cases "peek_arith r")
    case None
    then have "x = b" "rest = r" using assms b(3) by (auto simp: parse_operand_def)
    then show ?thesis using b by (auto intro!: exI [of _ "[t]"] operand_gram.intros)
  next
    case (Some op)
    then obtain p r1 where p: "r = p # r1" "arith_token p = Some op" by (cases r) auto
    obtain right where right: "parse_arithmetic_rhs r1 = Inr (right, rest)" "x = Arithmetic b op right"
      using assms b(3) Some p by (auto simp: parse_operand_def rbind_Inr_iff split: if_splits)
    obtain us where "r1 = us @ rest" "arith_rhs right us" using parse_arithmetic_rhs_sound [OF right(1)] by blast
    then show ?thesis
      using b p right(2) by (intro exI [of _ "t # p # us"]) (auto intro: operand_gram.intros)
  qed
qed

lemma parse_list_items_sound:
  "parse_list_items ts = Inr (xs, rest) \<Longrightarrow> \<exists>us. ts = us @ rest \<and> items_gram xs us"
proof (induction ts arbitrary: xs rule: parse_list_items.induct)
  case (1 ts)
  obtain x r t r' more where x: "parse_operand ts = Inr (x, r)" "r = t # r'" "more_token t = Some more"
    "expect more_token list_separator_expected r = Inr (more, r')"
    using "1.prems" by (subst (asm) parse_list_items.simps) (auto simp: rbind_Inr_iff expect_Inr_iff)
  obtain us where us: "ts = us @ r" "operand_gram x us" using parse_operand_sound [OF x(1)] by blast
  show ?case
  proof (cases more)
    case True
    then have t: "t = Comma" using x(3) by (cases t) auto
    obtain ys where ys: "parse_list_items r' = Inr (ys, rest)" "xs = x # ys"
      using "1.prems" x True by (subst (asm) parse_list_items.simps) (auto simp: rbind_Inr_iff)
    obtain vs where "r' = vs @ rest" "items_gram ys vs" using "1.IH" [OF x(1) refl x(4) refl True ys(1)] by blast
    then show ?thesis
      using us x(2) t ys(2) by (intro exI [of _ "us @ Comma # vs"]) (auto intro: items_gram.intros)
  next
    case False
    then have t: "t = RBracket" using x(3) by (cases t) auto
    have "xs = [x]" "rest = r'"
      using "1.prems" x False by (subst (asm) parse_list_items.simps; auto simp: rbind_Inr_iff)+
    then show ?thesis
      using us x(2) t by (intro exI [of _ "us @ [RBracket]"]) (auto intro: items_gram.intros)
  qed
qed

lemma parse_comparison_sound:
  assumes "parse_comparison ts = Inr (c, rest)"
  shows "\<exists>us. ts = us @ rest \<and> comparison_gram c us"
proof -
  obtain l r where l: "parse_operand ts = Inr (l, r)"
    using assms by (auto simp: parse_comparison_def rbind_Inr_iff)
  obtain us where us: "ts = us @ r" "operand_gram l us" using parse_operand_sound [OF l] by blast
  show ?thesis
  proof (cases "peek r = Some (Word ''in'')")
    case True
    then obtain r1 lst where r1: "r = Word ''in'' # LBracket # r1" "c = In l lst"
        "parse_list_literal (LBracket # r1) = Inr (lst, rest)"
      using assms l by (auto simp: parse_comparison_def rbind_Inr_iff peek_Some_iff split: if_splits)
    show ?thesis
    proof (cases "peek r1 = Some RBracket")
      case True
      then have "r1 = RBracket # rest" "lst = ListLiteral []"
        using r1(3) by (auto simp: parse_list_literal_def peek_Some_iff)
      then show ?thesis using us r1
        by (intro exI [of _ "us @ [Word ''in'', LBracket, RBracket]"]) (auto intro: comparison_gram.intros)
    next
      case False
      then obtain items where items: "parse_list_items r1 = Inr (items, rest)" "lst = ListLiteral items"
        using r1(3) by (auto simp: parse_list_literal_def rbind_Inr_iff)
      obtain vs where "r1 = vs @ rest" "items_gram items vs" using parse_list_items_sound [OF items(1)] by blast
      then show ?thesis using us r1 items(2)
        by (intro exI [of _ "us @ Word ''in'' # LBracket # vs"]) (auto intro: comparison_gram.intros)
    qed
  next
    case False
    then obtain p r1 op right where r1: "r = p # r1" "compare_token p = Some op"
        "parse_operand r1 = Inr (right, rest)" "c = Compare l op right"
      using assms l by (auto simp: parse_comparison_def rbind_Inr_iff expect_Inr_iff split: if_splits)
    obtain vs where "r1 = vs @ rest" "operand_gram right vs" using parse_operand_sound [OF r1(3)] by blast
    then show ?thesis using us r1 by (intro exI [of _ "us @ p # vs"]) (auto intro: comparison_gram.intros)
  qed
qed

lemma parse_levels_sound:
  "parse_or ts = Inr (c, rest) \<Longrightarrow> \<exists>us. ts = us @ rest \<and> cond_gram LOr c us"
  "or_tail l ts2 = Inr (c2, rest2) \<Longrightarrow>
     \<exists>us. ts2 = us @ rest2 \<and> (\<forall>vs. cond_gram LOr l vs \<longrightarrow> cond_gram LOr c2 (vs @ us))"
  "parse_and ts3 = Inr (c3, rest3) \<Longrightarrow> \<exists>us. ts3 = us @ rest3 \<and> cond_gram LAnd c3 us"
  "and_tail l4 ts4 = Inr (c4, rest4) \<Longrightarrow>
     \<exists>us. ts4 = us @ rest4 \<and> (\<forall>vs. cond_gram LAnd l4 vs \<longrightarrow> cond_gram LAnd c4 (vs @ us))"
  "parse_unary ts5 = Inr (c5, rest5) \<Longrightarrow> \<exists>us. ts5 = us @ rest5 \<and> cond_gram LUnary c5 us"
  "parse_primary ts6 = Inr (c6, rest6) \<Longrightarrow> \<exists>us. ts6 = us @ rest6 \<and> cond_gram LPrimary c6 us"
proof (induction ts and l ts2 and ts3 and l4 ts4 and ts5 and ts6
    arbitrary: c rest and c2 rest2 and c3 rest3 and c4 rest4 and c5 rest5 and c6 rest6
    rule: parse_or_or_tail_parse_and_and_tail_parse_unary_parse_primary.induct)
  case (1 ts)
  then obtain l r where "parse_and ts = Inr (l, r)" "or_tail l r = Inr (c, rest)"
    by (auto simp: parse_or.simps [of ts] rbind_Inr_iff)
  then show ?case using 1 gram_conj by fastforce
next
  case (2 l ts)
  show ?case
  proof (cases "peek ts = Some TOr")
    case True
    then obtain us0 right r where *: "ts = TOr # us0" "parse_and us0 = Inr (right, r)" "or_tail (Or l right) r = Inr (c2, rest2)"
      using "2.prems" by (auto simp: or_tail.simps [of l ts] rbind_Inr_iff peek_Some_iff)
    obtain us where us: "us0 = us @ r" "cond_gram LAnd right us" using "2.IH"(1) [OF True] * by auto
    obtain vs where vs: "r = vs @ rest2" "\<And>ws. cond_gram LOr (Or l right) ws \<Longrightarrow> cond_gram LOr c2 (ws @ vs)"
      using "2.IH"(2) [OF True _ refl *(3)] * by auto
    have "cond_gram LOr c2 (ws @ TOr # us @ vs)" if "cond_gram LOr l ws" for ws
      using vs(2) [OF gram_or [OF that us(2)]] by simp
    then show ?thesis using * us vs by (intro exI [of _ "TOr # us @ vs"]) simp
  next
    case False
    then show ?thesis using "2.prems" by (simp add: or_tail.simps [of l ts])
  qed
next
  case (3 ts)
  then obtain l r where "parse_unary ts = Inr (l, r)" "and_tail l r = Inr (c3, rest3)"
    by (auto simp: parse_and.simps [of ts] rbind_Inr_iff)
  then show ?case using 3 gram_unary by fastforce
next
  case (4 l ts)
  show ?case
  proof (cases "peek ts = Some TAnd")
    case True
    then obtain us0 right r where *: "ts = TAnd # us0" "parse_unary us0 = Inr (right, r)" "and_tail (And l right) r = Inr (c4, rest4)"
      using "4.prems" by (auto simp: and_tail.simps [of l ts] rbind_Inr_iff peek_Some_iff)
    obtain us where us: "us0 = us @ r" "cond_gram LUnary right us" using "4.IH"(1) [OF True] * by auto
    obtain vs where vs: "r = vs @ rest4" "\<And>ws. cond_gram LAnd (And l right) ws \<Longrightarrow> cond_gram LAnd c4 (ws @ vs)"
      using "4.IH"(2) [OF True _ refl *(3)] * by auto
    have "cond_gram LAnd c4 (ws @ TAnd # us @ vs)" if "cond_gram LAnd l ws" for ws
      using vs(2) [OF gram_and [OF that us(2)]] by simp
    then show ?thesis using * us vs by (intro exI [of _ "TAnd # us @ vs"]) simp
  next
    case False
    then show ?thesis using "4.prems" by (simp add: and_tail.simps [of l ts])
  qed
next
  case (5 ts)
  show ?case
  proof (cases "peek ts = Some TNot")
    case True
    then obtain us0 inner where *: "ts = TNot # us0" "parse_unary us0 = Inr (inner, rest5)" "c5 = Not inner"
      using "5.prems" by (auto simp: parse_unary.simps [of ts] rbind_Inr_iff peek_Some_iff)
    then obtain us where "us0 = us @ rest5" "cond_gram LUnary inner us" using "5.IH"(1) [OF True] by auto
    then show ?thesis using * by (intro exI [of _ "TNot # us"]) (auto intro: gram_not)
  next
    case False
    then show ?thesis
      using "5.prems" "5.IH"(2) [OF False] gram_primary by (auto simp: parse_unary.simps [of ts])
  qed
next
  case (6 ts)
  then obtain t r where ts: "ts = t # r" by (cases ts) (auto simp: parse_primary.simps)
  note prem = "6.prems" [unfolded ts, unfolded parse_primary.simps [of "t # r"] peek_simps option.case list.sel]
  consider "t = LParen" | "t = Word ''true''" | "t = Word ''false''" | raw where "t = ExistsCall raw"
    | "operand_token t" "t \<noteq> LParen" "t \<noteq> Word ''true''" "t \<noteq> Word ''false''" "\<not> exists_token t"
    using prem by (cases t) (auto split: if_splits)
  then show ?case
  proof cases
    case 1
    then have "parse_or r = Inr (c6, RParen # rest6)"
      using prem by (auto simp: rbind_Inr_iff expect_Inr_iff)
    then obtain us where "r = us @ RParen # rest6" "cond_gram LOr c6 us" using "6.IH" [of t] 1 ts by auto
    then show ?thesis using 1 ts by (intro exI [of _ "LParen # us @ [RParen]"]) (auto intro: gram_paren)
  next
    case 2
    then show ?thesis using prem ts by (intro exI [of _ "[t]"]) (auto intro: gram_true)
  next
    case 3
    then show ?thesis using prem ts by (intro exI [of _ "[t]"]) (auto intro: gram_false)
  next
    case 4
    then obtain x where "base_operand t = Inr x" "c6 = Compare x Eq (BoolLiteral True)" "rest6 = r"
      using prem by (auto simp: rbind_Inr_iff parse_base_operand_Inr_iff)
    then show ?thesis using 4 ts gram_exists [of raw x] by (intro exI [of _ "[t]"]) auto
  next
    case 5
    then have "parse_comparison ts = Inr (c6, rest6)" using prem ts by auto
    then obtain us where us: "ts = us @ rest6" "comparison_gram c6 us" using parse_comparison_sound by blast
    then have "us \<noteq> []" by (auto elim: comparison_gram.cases)
    then have "starts_comparison us" using us(1) ts 5 by (auto simp: starts_comparison_def split: list.splits)
    then show ?thesis using us gram_comparison by blast
  qed
qed

section \<open>Properties\<close>

text \<open>
  \<open>C33\<close>. The parser decides the grammar: it returns a tree for a token list exactly when the grammar
  derives the tree from the whole list. In particular the grammar is unambiguous, and the precedence
  and associativity of the operators are those of the derivation rules.
\<close>

theorem parser_decides_grammar: "parse_tokens ts = Inr c \<longleftrightarrow> cond_gram LOr c ts"
proof
  assume "parse_tokens ts = Inr c"
  then have "parse_or ts = Inr (c, [])" by (auto simp: parse_tokens_def rbind_Inr_iff split: if_splits)
  then show "cond_gram LOr c ts" using parse_levels_sound(1) by fastforce
next
  assume "cond_gram LOr c ts"
  then have "parse_or (ts @ []) = or_tail c []" using cond_gram_parses [of LOr c ts] by (simp del: append_Nil2)
  then show "parse_tokens ts = Inr c" by (simp add: parse_tokens_def or_tail.simps)
qed

text \<open>The shape of parsed conditions that the evaluator relies on: the right side of \<open>in\<close> is a list
  literal, list literals occur nowhere else, arithmetic is not nested, and a duration occurs only on
  the right of an arithmetic operator.\<close>

fun simple_operand :: "operand \<Rightarrow> bool" where
  "simple_operand (ListLiteral xs) = False"
| "simple_operand (Arithmetic l op r) = False"
| "simple_operand (DurationLiteral n u) = False"
| "simple_operand _ = True"

fun parsed_operand :: "operand \<Rightarrow> bool" where
  "parsed_operand (Arithmetic l op r) \<longleftrightarrow>
     simple_operand l \<and> (simple_operand r \<or> (\<exists>n u. r = DurationLiteral n u))"
| "parsed_operand x = simple_operand x"

fun parsed_condition :: "condition \<Rightarrow> bool" where
  "parsed_condition (CLiteral b) = True"
| "parsed_condition (Compare l op r) \<longleftrightarrow> parsed_operand l \<and> parsed_operand r"
| "parsed_condition (In l lst) \<longleftrightarrow>
     parsed_operand l \<and> (\<exists>items. lst = ListLiteral items \<and> list_all parsed_operand items)"
| "parsed_condition (And c d) \<longleftrightarrow> parsed_condition c \<and> parsed_condition d"
| "parsed_condition (Or c d) \<longleftrightarrow> parsed_condition c \<and> parsed_condition d"
| "parsed_condition (Not c) = parsed_condition c"

lemma base_operand_simple: "base_operand t = Inr x \<Longrightarrow> simple_operand x"
  by (cases t) (auto simp: rbind_Inr_iff word_to_operand_def named_operand_def split: if_splits option.splits)

lemma simple_parsed: "simple_operand x \<Longrightarrow> parsed_operand x"
  by (cases x) auto

lemma operand_gram_parsed: "operand_gram x ts \<Longrightarrow> parsed_operand x"
  by (auto elim!: operand_gramE arith_rhsE dest: base_operand_simple intro: simple_parsed)

lemma items_gram_parsed: "items_gram xs ts \<Longrightarrow> list_all parsed_operand xs"
  by (induction xs ts rule: items_gram.induct) (auto dest: operand_gram_parsed)

lemma cond_gram_parsed: "cond_gram lev c ts \<Longrightarrow> parsed_condition c"
proof (induction lev c ts rule: cond_gram.induct)
  case (gram_exists raw x)
  then show ?case using simple_parsed [OF base_operand_simple [OF gram_exists]] by simp
next
  case (gram_comparison c ts)
  then show ?case
    by (auto elim!: comparison_gram.cases dest: operand_gram_parsed items_gram_parsed)
qed simp_all

text \<open>
  \<open>C39\<close>. The parser invariant that the evaluator documents as unreachable branches: no parsed condition
  has anything but a list literal on the right of \<open>in\<close>, a list literal elsewhere, nested arithmetic, or
  a duration outside the right side of an addition or subtraction.
\<close>

theorem parse_condition_shape:
  assumes "parse_condition source = Inr c"
  shows "parsed_condition c"
proof -
  obtain ts where "parse_tokens ts = Inr c"
    using assms by (auto simp: parse_condition_def rbind_Inr_iff split: option.splits)
  then have "parse_or ts = Inr (c, [])" by (auto simp: parse_tokens_def rbind_Inr_iff split: if_splits)
  then show ?thesis using parse_levels_sound(1) cond_gram_parsed by blast
qed

theorem parse_condition_shape_witness:
  "parsed_condition (In AuthUid (ListLiteral [StringLiteral ''a'', ResourceField ''o'']))"
proof -
  have "parse_condition (''request.auth.uid in ['' @ [dquote] @ ''a'' @ [dquote] @ '', resource.data.o]'') =
      Inr (In AuthUid (ListLiteral [StringLiteral ''a'', ResourceField ''o'']))" by code_simp
  then show ?thesis by (rule parse_condition_shape)
qed

end
