(* ===== verification/Field_Transform.thy ===== *)
theory Field_Transform
  imports Field_Value
begin

text \<open>
  Server-side field transforms: \<open>embyr-core/src/domain/field_transform.rs\<close> with the transform type
  of \<open>storage/backend_adapter.rs\<close> and the errors of \<open>error.rs\<close>. \<open>apply_field_transform\<close> mutates the
  field map in place, so its model returns the new map with the result; reaching the
  \<open>unreachable!\<close> of \<open>as_f64\<close> is \<^const>\<open>None\<close>.
\<close>

section \<open>Types\<close>

datatype core_error =
    ProjectNotFound string
  | DocumentNotFound string
  | AlreadyExists string
  | OccConflict
  | TransactionNotFound
  | TransactionAborted
  | InvalidArgument string
  | BackendUnavailable string
  | FailedPrecondition string
  | PermissionDenied string
  | Unauthenticated
  | ResourceExhausted string

fun core_error_message :: "core_error \<Rightarrow> string" where
  "core_error_message (ProjectNotFound s) = ''project not found: '' @ s"
| "core_error_message (DocumentNotFound s) = ''document not found: '' @ s"
| "core_error_message (AlreadyExists s) = ''already exists: '' @ s"
| "core_error_message OccConflict = ''optimistic concurrency conflict''"
| "core_error_message TransactionNotFound = ''transaction not found or expired''"
| "core_error_message TransactionAborted = ''transaction aborted''"
| "core_error_message (InvalidArgument s) = ''invalid argument: '' @ s"
| "core_error_message (BackendUnavailable s) = ''backend unavailable: '' @ s"
| "core_error_message (FailedPrecondition s) = ''failed precondition: '' @ s"
| "core_error_message (PermissionDenied s) = ''permission denied: '' @ s"
| "core_error_message Unauthenticated = ''unauthenticated''"
| "core_error_message (ResourceExhausted s) = ''resource exhausted: '' @ s"

datatype field_transform =
    ServerTimestamp string
  | Increment string field_value
  | Maximum string field_value
  | Minimum string field_value
  | AppendMissingElements string "field_value list"
  | RemoveAllFromArray string "field_value list"

fun transform_field_path :: "field_transform \<Rightarrow> string" where
  "transform_field_path (ServerTimestamp p) = p"
| "transform_field_path (Increment p v) = p"
| "transform_field_path (Maximum p v) = p"
| "transform_field_path (Minimum p v) = p"
| "transform_field_path (AppendMissingElements p vs) = p"
| "transform_field_path (RemoveAllFromArray p vs) = p"

fun transform_kind_name :: "field_transform \<Rightarrow> string" where
  "transform_kind_name (ServerTimestamp p) = ''serverTimestamp''"
| "transform_kind_name (Increment p v) = ''increment''"
| "transform_kind_name (Maximum p v) = ''maximum''"
| "transform_kind_name (Minimum p v) = ''minimum''"
| "transform_kind_name (AppendMissingElements p vs) = ''appendMissingElements''"
| "transform_kind_name (RemoveAllFromArray p vs) = ''removeAllFromArray''"

section \<open>Numbers\<close>

fun is_numeric :: "field_value \<Rightarrow> bool" where
  "is_numeric (FInteger i) = True"
| "is_numeric (FDouble d) = True"
| "is_numeric _ = False"

fun numeric_as_f64 :: "field_value \<Rightarrow> f64 option" where
  "numeric_as_f64 (FInteger i) = Some (f64_of_i64 i)"
| "numeric_as_f64 (FDouble d) = Some d"
| "numeric_as_f64 _ = None"

definition f64_zero :: f64 where
  "f64_zero = F64 0"

fun zero_like :: "field_value \<Rightarrow> field_value" where
  "zero_like (FDouble d) = FDouble f64_zero"
| "zero_like _ = FInteger 0"

definition add_numeric :: "field_value \<Rightarrow> field_value \<Rightarrow> (core_error, field_value) result option" where
  "add_numeric current delta =
     (case (current, delta) of
        (FInteger c, FInteger d) \<Rightarrow>
          Some (ok_or (InvalidArgument ''increment overflow: result exceeds i64 range'')
            (map_option FInteger (checked_add c d)))
      | _ \<Rightarrow> (case (numeric_as_f64 current, numeric_as_f64 delta) of
          (Some c, Some d) \<Rightarrow> Some (Inr (FDouble (f64_add c d)))
        | _ \<Rightarrow> None))"

definition compute_increment ::
  "field_value option \<Rightarrow> field_value \<Rightarrow> (core_error, field_value) result option" where
  "compute_increment current delta =
     (if \<not> is_numeric delta then Some (Inl (InvalidArgument ''increment delta must be numeric''))
      else case current of
        None \<Rightarrow> add_numeric (zero_like delta) delta
      | Some v \<Rightarrow>
          if is_numeric v then add_numeric v delta
          else Some (Inl (InvalidArgument ''increment target is not numeric'')))"

datatype extremum = EMaximum | EMinimum

fun extremum_kind_name :: "extremum \<Rightarrow> string" where
  "extremum_kind_name EMaximum = ''maximum''"
| "extremum_kind_name EMinimum = ''minimum''"

definition pick_extremum :: "field_value \<Rightarrow> field_value \<Rightarrow> extremum \<Rightarrow> field_value option" where
  "pick_extremum current given which =
     (case (numeric_as_f64 current, numeric_as_f64 given) of
        (Some c, Some g) \<Rightarrow>
          Some (if (case which of EMaximum \<Rightarrow> f64_le g c | EMinimum \<Rightarrow> f64_le c g) then current else given)
      | _ \<Rightarrow> None)"

definition compute_extremum ::
  "field_value option \<Rightarrow> field_value \<Rightarrow> extremum \<Rightarrow> (core_error, field_value) result option" where
  "compute_extremum current given which =
     (if \<not> is_numeric given then
        Some (Inl (InvalidArgument (extremum_kind_name which @ '' comparand must be numeric'')))
      else case current of
        None \<Rightarrow> Some (Inr given)
      | Some v \<Rightarrow>
          if is_numeric v then map_option Inr (pick_extremum v given which)
          else Some (Inl (InvalidArgument (extremum_kind_name which @ '' target is not numeric''))))"

section \<open>Arrays\<close>

definition push_missing :: "field_value list \<Rightarrow> field_value list \<Rightarrow> field_value list" where
  "push_missing merged values =
     foldl (\<lambda>acc v. if fv_contains acc v then acc else acc @ [v]) merged values"

definition append_missing_elements ::
  "fields \<Rightarrow> string \<Rightarrow> field_value list \<Rightarrow> fields \<times> (core_error, unit) result" where
  "append_missing_elements fs p values =
     (case bt_get fs p of
        None \<Rightarrow> (bt_insert p (FArray (push_missing [] values)) fs, Inr ())
      | Some (FArray existing) \<Rightarrow> (bt_insert p (FArray (push_missing existing values)) fs, Inr ())
      | Some _ \<Rightarrow> (fs, Inl (InvalidArgument ''appendMissingElements target is not an array'')))"

definition remove_all_from_array ::
  "fields \<Rightarrow> string \<Rightarrow> field_value list \<Rightarrow> fields \<times> (core_error, unit) result" where
  "remove_all_from_array fs p values =
     (case bt_get fs p of
        None \<Rightarrow> (fs, Inr ())
      | Some (FArray existing) \<Rightarrow>
          (bt_insert p (FArray (filter (\<lambda>item. \<not> fv_contains values item) existing)) fs, Inr ())
      | Some _ \<Rightarrow> (fs, Inl (InvalidArgument ''removeAllFromArray target is not an array'')))"

section \<open>Applying a transform\<close>

definition store_value ::
  "fields \<Rightarrow> string \<Rightarrow> (core_error, field_value) result \<Rightarrow> fields \<times> (core_error, field_value option) result" where
  "store_value fs p r =
     (case r of Inl e \<Rightarrow> (fs, Inl e) | Inr v \<Rightarrow> (bt_insert p v fs, Inr (Some v)))"

fun apply_field_transform ::
  "fields \<Rightarrow> field_transform \<Rightarrow> i64 \<times> i32 \<Rightarrow> (fields \<times> (core_error, field_value option) result) option" where
  "apply_field_transform fs (ServerTimestamp p) now =
     Some (store_value fs p (Inr (FTimestamp (fst now) (snd now))))"
| "apply_field_transform fs (Increment p delta) now =
     map_option (store_value fs p) (compute_increment (bt_get fs p) delta)"
| "apply_field_transform fs (Maximum p given) now =
     map_option (store_value fs p) (compute_extremum (bt_get fs p) given EMaximum)"
| "apply_field_transform fs (Minimum p given) now =
     map_option (store_value fs p) (compute_extremum (bt_get fs p) given EMinimum)"
| "apply_field_transform fs (AppendMissingElements p values) now =
     Some (map_prod id (map_sum id (\<lambda>_. None)) (append_missing_elements fs p values))"
| "apply_field_transform fs (RemoveAllFromArray p values) now =
     Some (map_prod id (map_sum id (\<lambda>_. None)) (remove_all_from_array fs p values))"

text \<open>The loop of the commit: transforms in order, the produced values collected, the first error
  ends it.\<close>

fun apply_transforms ::
  "fields \<Rightarrow> field_transform list \<Rightarrow> i64 \<times> i32 \<Rightarrow> (core_error, fields \<times> field_value list) result option" where
  "apply_transforms fs [] now = Some (Inr (fs, []))"
| "apply_transforms fs (t # ts) now =
     (case apply_field_transform fs t now of
        None \<Rightarrow> None
      | Some (fs', Inl e) \<Rightarrow> Some (Inl e)
      | Some (fs', Inr v) \<Rightarrow>
          pbind (apply_transforms fs' ts now) (\<lambda>(fs'', vs).
            Some (Inr (fs'', (case v of Some x \<Rightarrow> x # vs | None \<Rightarrow> vs)))))"

section \<open>Lemmas\<close>

lemma numeric_f64: "is_numeric v \<Longrightarrow> \<exists>d. numeric_as_f64 v = Some d"
  by (cases v) auto

lemma add_numeric_total: "is_numeric c \<Longrightarrow> is_numeric d \<Longrightarrow> add_numeric c d \<noteq> None"
  by (cases c; cases d; simp add: add_numeric_def)

lemma zero_like_numeric [simp]: "is_numeric (zero_like v)"
  by (cases v) auto

lemma compute_increment_total: "compute_increment c d \<noteq> None"
  using add_numeric_total [of _ d] by (auto simp: compute_increment_def split: option.splits)

lemma pick_extremum_total: "is_numeric c \<Longrightarrow> is_numeric g \<Longrightarrow> pick_extremum c g w \<noteq> None"
  using numeric_f64 [of c] numeric_f64 [of g] by (auto simp: pick_extremum_def)

lemma compute_extremum_total: "compute_extremum c g w \<noteq> None"
  using pick_extremum_total by (auto simp: compute_extremum_def split: option.splits)

lemma apply_field_transform_total: "apply_field_transform fs t now \<noteq> None"
  using compute_increment_total compute_extremum_total by (cases t) (simp_all del: not_None_eq)

definition transformed :: "i64 \<times> i32 \<Rightarrow> fields \<Rightarrow> field_transform \<Rightarrow> fields" where
  "transformed now fs t = (case apply_field_transform fs t now of Some (fs', r) \<Rightarrow> fs' | None \<Rightarrow> fs)"

text \<open>Every transform stores at most one value under its own path, and that value depends only on what
  was there before.\<close>

definition transform_value :: "i64 \<times> i32 \<Rightarrow> field_value option \<Rightarrow> field_transform \<Rightarrow> field_value option" where
  "transform_value now v t =
     (let stored = (\<lambda>r. case r of Some (Inr x) \<Rightarrow> Some x | _ \<Rightarrow> None) in
      case t of
        ServerTimestamp p \<Rightarrow> Some (FTimestamp (fst now) (snd now))
      | Increment p d \<Rightarrow> stored (compute_increment v d)
      | Maximum p g \<Rightarrow> stored (compute_extremum v g EMaximum)
      | Minimum p g \<Rightarrow> stored (compute_extremum v g EMinimum)
      | AppendMissingElements p vs \<Rightarrow>
          (case v of None \<Rightarrow> Some (FArray (push_missing [] vs))
           | Some (FArray xs) \<Rightarrow> Some (FArray (push_missing xs vs)) | _ \<Rightarrow> None)
      | RemoveAllFromArray p vs \<Rightarrow>
          (case v of Some (FArray xs) \<Rightarrow> Some (FArray (filter (\<lambda>x. \<not> fv_contains vs x) xs)) | _ \<Rightarrow> None))"

lemma transformed_eq:
  "transformed now fs t =
     (case transform_value now (bt_get fs (transform_field_path t)) t of
        Some x \<Rightarrow> bt_insert (transform_field_path t) x fs | None \<Rightarrow> fs)"
proof (cases t)
  case (AppendMissingElements p vs)
  then show ?thesis
    by (auto simp: transformed_def transform_value_def append_missing_elements_def
        split: option.splits field_value.splits)
next
  case (RemoveAllFromArray p vs)
  then show ?thesis
    by (auto simp: transformed_def transform_value_def remove_all_from_array_def
        split: option.splits field_value.splits)
qed (auto simp: transformed_def transform_value_def store_value_def split: option.splits sum.splits)

section \<open>Updates by key\<close>

locale keyed_updates =
  fixes step :: "'s \<Rightarrow> 't \<Rightarrow> 's"
    and look :: "'s \<Rightarrow> 'k \<Rightarrow> 'v option"
    and target :: "'t \<Rightarrow> 'k"
    and valid :: "'s \<Rightarrow> bool"
  assumes frame: "k \<noteq> target t \<Longrightarrow> look (step s t) k = look s k"
    and only_own: "look s (target t) = look s' (target t) \<Longrightarrow>
      look (step s t) (target t) = look (step s' t) (target t)"
    and valid_step: "valid s \<Longrightarrow> valid (step s t)"
    and extensional: "valid s \<Longrightarrow> valid s' \<Longrightarrow> look s = look s' \<Longrightarrow> s = s'"
begin

lemma step_commute:
  assumes "valid s" and "target t \<noteq> target u"
  shows "step (step s t) u = step (step s u) t"
proof (rule extensional)
  show "look (step (step s t) u) = look (step (step s u) t)"
  proof
    fix k
    consider "k = target t" | "k = target u" | "k \<noteq> target t" "k \<noteq> target u" by blast
    then show "look (step (step s t) u) k = look (step (step s u) t) k"
    proof cases
      case 1
      have "look (step s t) (target t) = look (step (step s u) t) (target t)"
        using assms(2) by (intro only_own) (simp add: frame)
      then show ?thesis using 1 assms(2) by (simp add: frame)
    next
      case 2
      have "look (step (step s t) u) (target u) = look (step s u) (target u)"
        using assms(2) by (intro only_own) (simp add: frame)
      then show ?thesis using 2 assms(2) by (simp add: frame)
    qed (simp add: frame)
  qed
qed (simp_all add: assms valid_step)

lemma look_foldl_untouched: "k \<notin> target ` set ts \<Longrightarrow> look (foldl step s ts) k = look s k"
  by (induction ts arbitrary: s) (auto simp: frame)

lemma valid_foldl: "valid s \<Longrightarrow> valid (foldl step s ts)"
  by (induction ts arbitrary: s) (auto simp: valid_step)

lemma look_foldl_own:
  "look s k = look s' k \<Longrightarrow>
     look (foldl step s ts) k = look (foldl step s' (filter (\<lambda>t. target t = k) ts)) k"
proof (induction ts arbitrary: s s')
  case (Cons t ts)
  show ?case
  proof (cases "target t = k")
    case True
    then have "look (step s t) k = look (step s' t) k" using only_own Cons.prems by blast
    then show ?thesis using Cons.IH True by simp
  next
    case False
    then have "look (step s t) k = look s' k" using frame Cons.prems by metis
    then show ?thesis using Cons.IH False by simp
  qed
qed simp

end

interpretation ft: keyed_updates "transformed now" bt_get transform_field_path bt_wf for now
proof unfold_locales
  fix k t and s s' :: fields
  show "k \<noteq> transform_field_path t \<Longrightarrow> bt_get (transformed now s t) k = bt_get s k"
    by (auto simp: transformed_eq bt_get_insert split: option.splits)
  show "bt_get s (transform_field_path t) = bt_get s' (transform_field_path t) \<Longrightarrow>
      bt_get (transformed now s t) (transform_field_path t) = bt_get (transformed now s' t) (transform_field_path t)"
    by (auto simp: transformed_eq bt_get_insert split: option.splits)
  show "bt_wf s \<Longrightarrow> bt_wf (transformed now s t)"
    by (auto simp: transformed_eq bt_wf_insert split: option.splits)
  show "bt_wf s \<Longrightarrow> bt_wf s' \<Longrightarrow> bt_get s = bt_get s' \<Longrightarrow> s = s'" by (rule bt_wf_extensional)
qed

lemma apply_transformed:
  "apply_field_transform fs t now = Some (fs', r) \<Longrightarrow> fs' = transformed now fs t"
  by (simp add: transformed_def)

lemma store_value_error: "store_value fs p r = (fs', Inl e) \<Longrightarrow> fs' = fs"
  by (cases r) (auto simp: store_value_def)

lemma apply_error_unchanged: "apply_field_transform fs t now = Some (fs', Inl e) \<Longrightarrow> fs' = fs"
  by (cases t) (auto simp: append_missing_elements_def remove_all_from_array_def
      dest: store_value_error split: option.splits field_value.splits)

lemma apply_transforms_foldl:
  "apply_transforms fs ts now = Some (Inr (fs', vs)) \<Longrightarrow> fs' = foldl (transformed now) fs ts"
proof (induction fs ts now arbitrary: vs rule: apply_transforms.induct)
  case (2 fs t ts now)
  obtain f r where f: "apply_field_transform fs t now = Some (f, r)"
    using "2.prems" by (auto split: option.splits prod.splits)
  then obtain v where r: "r = Inr v" using "2.prems" by (cases r) auto
  then obtain vs' where "apply_transforms f ts now = Some (Inr (fs', vs'))"
    using "2.prems" f by (auto simp: pbind_Inr_iff)
  then show ?case using "2.IH" [OF f refl r] apply_transformed [OF f] by simp
qed simp

section \<open>Properties\<close>

text \<open>
  A transform always returns (the conversion that panics on non-numbers is never reached with one),
  it changes no field but its own, keeps the map ordered, and on an error it leaves the document as it was.
\<close>

theorem transform_frame:
  assumes "bt_wf fs"
  shows "\<exists>fs' r. apply_field_transform fs t now = Some (fs', r) \<and>
     (\<forall>k. k = transform_field_path t \<or> bt_get fs' k = bt_get fs k) \<and>
     bt_wf fs' \<and> (is_ok r \<or> fs' = fs)"
proof -
  obtain fs' r where a: "apply_field_transform fs t now = Some (fs', r)"
    using apply_field_transform_total [of fs t now] by auto
  have "k = transform_field_path t \<or> bt_get fs' k = bt_get fs k" for k
    using ft.frame [of k t now fs] apply_transformed [OF a] by auto
  moreover have "bt_wf fs'" using ft.valid_step [OF assms, of now t] apply_transformed [OF a] by simp
  moreover have "is_ok r \<or> fs' = fs" using apply_error_unchanged a by (cases r) auto
  ultimately show ?thesis using a by blast
qed

theorem transform_frame_witness:
  "\<exists>fs' r. apply_field_transform [(''a'', FNull)] (Increment ''a'' (FInteger 1)) (0, 0) = Some (fs', r) \<and>
     (\<forall>k. k = transform_field_path (Increment ''a'' (FInteger 1)) \<or> bt_get fs' k = bt_get [(''a'', FNull)] k) \<and>
     bt_wf fs' \<and> (is_ok r \<or> fs' = [(''a'', FNull)])"
  by (rule transform_frame) (simp add: bt_wf_def)

text \<open>
  Within one commit the order of transforms matters only per field: the value a field has after
  a list of transforms is the value after the ones that name this field, in their order, and adjacent
  transforms of different fields can be exchanged.
\<close>

theorem transforms_per_field:
  assumes "apply_transforms fs ts now = Some (Inr (fs', vs))" and "bt_wf fs"
    and "transform_field_path t \<noteq> transform_field_path u"
  shows "bt_get fs' k =
      bt_get (foldl (transformed now) fs (filter (\<lambda>x. transform_field_path x = k) ts)) k \<and>
    transformed now (transformed now fs' t) u = transformed now (transformed now fs' u) t"
proof -
  have fs': "fs' = foldl (transformed now) fs ts" by (rule apply_transforms_foldl [OF assms(1)])
  have "bt_wf fs'" unfolding fs' by (rule ft.valid_foldl [OF assms(2)])
  then show ?thesis using ft.step_commute [OF _ assms(3)] ft.look_foldl_own [OF refl] fs' by blast
qed

theorem transforms_per_field_witness:
  "\<exists>fs' vs. apply_transforms [] [Increment ''a'' (FInteger 1), ServerTimestamp ''b'', Increment ''a'' (FInteger 2)] (5, 0) =
       Some (Inr (fs', vs)) \<and>
     bt_get fs' ''a'' = bt_get (foldl (transformed (5, 0)) []
       [Increment ''a'' (FInteger 1), Increment ''a'' (FInteger 2)]) ''a''"
proof -
  have *: "apply_transforms [] [Increment ''a'' (FInteger 1), ServerTimestamp ''b'', Increment ''a'' (FInteger 2)] (5, 0) =
       Some (Inr ([(''a'', FInteger 3), (''b'', FTimestamp 5 0)], [FInteger 1, FTimestamp 5 0, FInteger 3]))"
    by code_simp
  show ?thesis
    using * transforms_per_field [OF *, of "ServerTimestamp ''x''" "ServerTimestamp ''y''" "''a''"]
    by (simp add: bt_wf_def)
qed

text \<open>
  Incrementing an integer field (a missing one counts as zero) by an integer is exact: it stores the
  sum when it fits in 64 bits, and otherwise reports an error and stores nothing; it never wraps around.
\<close>

theorem increment_exact:
  assumes "bt_get fs p = Some (FInteger c) \<or> (bt_get fs p = None \<and> c = 0)"
  shows "apply_field_transform fs (Increment p (FInteger d)) now =
    Some (if fits_i64 (sint c + sint d)
          then (bt_insert p (FInteger (word_of_int (sint c + sint d))) fs,
                Inr (Some (FInteger (word_of_int (sint c + sint d)))))
          else (fs, Inl (InvalidArgument ''increment overflow: result exceeds i64 range'')))"
  using assms
  by (auto simp: compute_increment_def add_numeric_def checked_add_def store_value_def)

theorem increment_exact_witness:
  "apply_field_transform [(''n'', FInteger (word_of_int (2 ^ 63 - 1)))] (Increment ''n'' (FInteger 1)) (0, 0) =
     Some ([(''n'', FInteger (word_of_int (2 ^ 63 - 1)))],
       Inl (InvalidArgument ''increment overflow: result exceeds i64 range''))"
  using increment_exact [of "[(''n'', FInteger (word_of_int (2 ^ 63 - 1)))]" "''n''" "word_of_int (2 ^ 63 - 1)" 1 "(0, 0)"]
  by (simp add: bt_get_def fits_i64_def)

subsection \<open>Arrays\<close>

lemma fv_contains_iff: "fv_contains xs v \<longleftrightarrow> (\<exists>x \<in> set xs. fv_eq x v)"
  by (simp add: fv_contains_def list_ex_iff)

lemma push_missing_prefix: "\<exists>added. push_missing xs vs = xs @ added \<and> set added \<subseteq> set vs"
proof (induction vs arbitrary: xs)
  case (Cons v vs)
  then show ?case
  proof (cases "fv_contains xs v")
    case True
    then show ?thesis using Cons.IH [of xs] by (auto simp: push_missing_def)
  next
    case False
    then show ?thesis using Cons.IH [of "xs @ [v]"] by (auto simp: push_missing_def)
  qed
qed (simp add: push_missing_def)

lemma fv_contains_mono: "fv_contains xs v \<Longrightarrow> fv_contains (push_missing xs vs) v"
  using push_missing_prefix [of xs vs] by (auto simp: fv_contains_iff)

lemma push_missing_contains: "v \<in> set vs \<Longrightarrow> nan_free v \<Longrightarrow> fv_contains (push_missing xs vs) v"
proof (induction vs arbitrary: xs)
  case (Cons w vs)
  show ?case
  proof (cases "v = w")
    case True
    have "fv_contains (if fv_contains xs w then xs else xs @ [w]) v"
      using True Cons.prems(2) by (auto simp: fv_contains_iff fv_eq_refl)
    then show ?thesis using fv_contains_mono [of _ v vs] by (simp add: push_missing_def)
  next
    case False
    then show ?thesis using Cons by (simp add: push_missing_def)
  qed
qed simp

lemma push_missing_id: "\<forall>v \<in> set vs. fv_contains xs v \<Longrightarrow> push_missing xs vs = xs"
  by (induction vs) (simp_all add: push_missing_def)

text \<open>
  Appending missing elements keeps the existing array as a prefix, adds only given values, and
  afterwards every given value (without a NaN inside) is in the array; doing it again changes nothing.
\<close>

theorem append_missing_correct:
  assumes "bt_get fs p = Some (FArray xs) \<or> (bt_get fs p = None \<and> xs = [])" and "\<forall>v \<in> set vs. nan_free v"
    and "bt_wf fs"
  shows "\<exists>added. apply_field_transform fs (AppendMissingElements p vs) now =
      Some (bt_insert p (FArray (xs @ added)) fs, Inr None) \<and>
    set added \<subseteq> set vs \<and> (\<forall>v \<in> set vs. fv_contains (xs @ added) v) \<and>
    apply_field_transform (bt_insert p (FArray (xs @ added)) fs) (AppendMissingElements p vs) now =
      Some (bt_insert p (FArray (xs @ added)) fs, Inr None)"
proof -
  obtain added where added: "push_missing xs vs = xs @ added" "set added \<subseteq> set vs"
    using push_missing_prefix by blast
  then have contains: "\<forall>v \<in> set vs. fv_contains (xs @ added) v"
    using push_missing_contains assms(2) by metis
  have "apply_field_transform fs (AppendMissingElements p vs) now =
      Some (bt_insert p (FArray (xs @ added)) fs, Inr None)"
    using assms(1) added(1) by (auto simp: append_missing_elements_def)
  moreover have "apply_field_transform (bt_insert p (FArray (xs @ added)) fs) (AppendMissingElements p vs) now =
      Some (bt_insert p (FArray (xs @ added)) fs, Inr None)"
    using push_missing_id [OF contains] bt.insert_same [OF assms(3)]
    by (simp add: append_missing_elements_def bt_get_insert)
  ultimately show ?thesis using added(2) contains by blast
qed

theorem append_missing_correct_witness:
  "\<exists>added. apply_field_transform [(''t'', FArray [FString ''a''])] (AppendMissingElements ''t'' [FString ''b'', FString ''a'']) (0, 0) =
      Some (bt_insert ''t'' (FArray ([FString ''a''] @ added)) [(''t'', FArray [FString ''a''])], Inr None) \<and>
      set added \<subseteq> {FString ''b'', FString ''a''}"
  using append_missing_correct [of "[(''t'', FArray [FString ''a''])]" "''t''" "[FString ''a'']"
      "[FString ''b'', FString ''a'']" "(0, 0)"]
  by (auto simp: bt_get_def bt_wf_def)

text \<open>
  Removing from an array: the remaining elements keep their order, none of them equals a given value,
  and every element that was removed does. A missing field is not created.
\<close>

theorem remove_all_correct:
  assumes "bt_get fs p = Some (FArray xs)"
  shows "\<exists>ys. apply_field_transform fs (RemoveAllFromArray p vs) now = Some (bt_insert p (FArray ys) fs, Inr None) \<and>
    ys = filter (\<lambda>x. \<not> (\<exists>v \<in> set vs. fv_eq x v)) xs \<and>
    (\<forall>y \<in> set ys. \<forall>v \<in> set vs. \<not> fv_eq y v)"
  using assms by (auto simp: remove_all_from_array_def fv_contains_iff fv_eq_sym)

theorem remove_all_correct_witness:
  "\<exists>ys. apply_field_transform [(''t'', FArray [FString ''a'', FInteger 1, FString ''a''])] (RemoveAllFromArray ''t'' [FString ''a'']) (0, 0) =
     Some (bt_insert ''t'' (FArray ys) [(''t'', FArray [FString ''a'', FInteger 1, FString ''a''])], Inr None) \<and> ys = [FInteger 1]"
  using remove_all_correct [of "[(''t'', FArray [FString ''a'', FInteger 1, FString ''a''])]" "''t''"
      "[FString ''a'', FInteger 1, FString ''a'']" "[FString ''a'']" "(0, 0)"]
  by (auto simp: bt_get_def)

text \<open>
  Maximum and minimum of integers of magnitude at most \<open>2^53\<close> are those of the integers. The
  comparison goes through \<open>f64\<close>, so beyond that bound the maximum of \<open>2^53\<close> and \<open>2^53 + 1\<close> is \<open>2^53\<close>.
\<close>

theorem extremum_integers:
  assumes "bt_get fs p = Some (FInteger c)" and "\<bar>sint c\<bar> \<le> 2 ^ 53" and "\<bar>sint g\<bar> \<le> 2 ^ 53"
  shows "apply_field_transform fs (Maximum p (FInteger g)) now =
      Some (let m = FInteger (if sint g \<le> sint c then c else g) in (bt_insert p m fs, Inr (Some m))) \<and>
    apply_field_transform fs (Minimum p (FInteger g)) now =
      Some (let m = FInteger (if sint c \<le> sint g then c else g) in (bt_insert p m fs, Inr (Some m))) \<and>
    apply_field_transform [(p, FInteger 9007199254740992)] (Maximum p (FInteger 9007199254740993)) now =
      Some ([(p, FInteger 9007199254740992)], Inr (Some (FInteger 9007199254740992)))"
proof -
  have "f64_le (f64_of_int 9007199254740993) (f64_of_int 9007199254740992)"
    unfolding f64_of_int_tie by (simp add: f64_le_def)
  then show ?thesis
    using assms(1) f64_lt_of_int_iff(2) [OF assms(2,3)] f64_lt_of_int_iff(2) [OF assms(3,2)]
    by (simp add: compute_extremum_def pick_extremum_def store_value_def Let_def f64_of_i64_def bt_get_def)
qed

theorem extremum_integers_witness:
  "apply_field_transform [(''n'', FInteger 3)] (Maximum ''n'' (FInteger (-5))) (0, 0) =
     Some ([(''n'', FInteger 3)], Inr (Some (FInteger 3)))"
  using extremum_integers [of "[(''n'', FInteger 3)]" "''n''" 3 "-5" "(0, 0)"]
  by (simp add: bt_get_def Let_def)

end
