(* ===== verification/Field_Encoding.thy ===== *)
theory Field_Encoding
  imports Field_Value
begin

text \<open>
  \<open>embyr-pg-storage/src/encoding/field_value.rs\<close>: field values as discriminated JSON, the format of
  the \<open>fields\<close> column. Base64 comes from a library, so its two functions are parameters; what the
  round trip needs of them is that decoding undoes encoding.
\<close>

section \<open>JSON access\<close>

definition number_of_int :: "i64 \<Rightarrow> json_number" where
  "number_of_int i = (if sint i < 0 then NegInt i else PosInt i)"

fun json_get :: "json \<Rightarrow> string \<Rightarrow> json option" where
  "json_get (JObject m) k = bt_get m k"
| "json_get _ k = None"

fun json_as_str :: "json \<Rightarrow> string option" where
  "json_as_str (JString s) = Some s"
| "json_as_str _ = None"

fun json_as_bool :: "json \<Rightarrow> bool option" where
  "json_as_bool (JBool b) = Some b"
| "json_as_bool _ = None"

fun json_as_i64 :: "json \<Rightarrow> i64 option" where
  "json_as_i64 (JNumber n) = as_i64 n"
| "json_as_i64 _ = None"

fun json_as_f64 :: "json \<Rightarrow> f64 option" where
  "json_as_f64 (JNumber n) = Some (as_f64 n)"
| "json_as_f64 _ = None"

fun json_as_array :: "json \<Rightarrow> json list option" where
  "json_as_array (JArray xs) = Some xs"
| "json_as_array _ = None"

fun json_as_object :: "json \<Rightarrow> json btree_map option" where
  "json_as_object (JObject m) = Some m"
| "json_as_object _ = None"

section \<open>Encoding\<close>

text \<open>\<open>{"t": tag}\<close> and \<open>{"t": tag, "v": value}\<close>.\<close>

definition tagged :: "string \<Rightarrow> json \<Rightarrow> json" where
  "tagged tag v = JObject [(''t'', JString tag), (''v'', v)]"

definition f64_inf :: f64 where
  "f64_inf = f64_make False inf_mag"

definition f64_neg_inf :: f64 where
  "f64_neg_inf = f64_make True inf_mag"

definition double_to_json :: "f64 \<Rightarrow> json" where
  "double_to_json d =
     (if is_nan d then JString ''NaN''
      else if is_infinite d then JString (if f64_lt (F64 0) d then ''Inf'' else ''-Inf'')
      else JNumber (FloatNum d))"

fun field_value_to_json :: "(u8 list \<Rightarrow> string) \<Rightarrow> field_value \<Rightarrow> json"
  and field_values_to_json :: "(u8 list \<Rightarrow> string) \<Rightarrow> field_value list \<Rightarrow> json list"
  and field_entries_to_json :: "(u8 list \<Rightarrow> string) \<Rightarrow> fields \<Rightarrow> json btree_map" where
  "field_value_to_json enc FNull = JObject [(''t'', JString ''N'')]"
| "field_value_to_json enc (FBoolean b) = tagged ''B'' (JBool b)"
| "field_value_to_json enc (FInteger i) = tagged ''I'' (JNumber (number_of_int i))"
| "field_value_to_json enc (FDouble d) = tagged ''D'' (double_to_json d)"
| "field_value_to_json enc (FString s) = tagged ''S'' (JString s)"
| "field_value_to_json enc (FBytes b) = tagged ''BY'' (JString (enc b))"
| "field_value_to_json enc (FReference r) = tagged ''R'' (JString r)"
| "field_value_to_json enc (FTimestamp s n) =
     JObject [(''n'', JNumber (number_of_int (word_of_int (sint n)))), (''s'', JNumber (number_of_int s)),
              (''t'', JString ''TS'')]"
| "field_value_to_json enc (FArray xs) = tagged ''A'' (JArray (field_values_to_json enc xs))"
| "field_value_to_json enc (FMap m) = tagged ''M'' (JObject (field_entries_to_json enc m))"
| "field_values_to_json enc [] = []"
| "field_values_to_json enc (x # xs) = field_value_to_json enc x # field_values_to_json enc xs"
| "field_entries_to_json enc [] = []"
| "field_entries_to_json enc ((k, x) # m) = (k, field_value_to_json enc x) # field_entries_to_json enc m"

definition fields_to_json :: "(u8 list \<Rightarrow> string) \<Rightarrow> fields \<Rightarrow> json" where
  "fields_to_json enc m = JObject (field_entries_to_json enc m)"

section \<open>Decoding\<close>

definition json_to_double :: "json \<Rightarrow> field_value option" where
  "json_to_double v =
     (case json_as_str v of
        Some s \<Rightarrow>
          if s = ''NaN'' then Some (FDouble f64_nan)
          else if s = ''Inf'' then Some (FDouble f64_inf)
          else if s = ''-Inf'' then Some (FDouble f64_neg_inf)
          else None
      | None \<Rightarrow> map_option FDouble (json_as_f64 v))"

text \<open>The scalar tags; \<open>as i32\<close> keeps the low 32 bits.\<close>

definition scalar_of_json ::
  "(string \<Rightarrow> u8 list option) \<Rightarrow> string \<Rightarrow> json \<Rightarrow> field_value option" where
  "scalar_of_json dec t v =
     (if t = ''N'' then Some FNull
      else if t = ''B'' then map_option FBoolean (Option.bind (json_get v ''v'') json_as_bool)
      else if t = ''I'' then map_option FInteger (Option.bind (json_get v ''v'') json_as_i64)
      else if t = ''D'' then Option.bind (json_get v ''v'') json_to_double
      else if t = ''S'' then map_option FString (Option.bind (json_get v ''v'') json_as_str)
      else if t = ''R'' then map_option FReference (Option.bind (json_get v ''v'') json_as_str)
      else if t = ''BY'' then
        map_option FBytes (Option.bind (Option.bind (json_get v ''v'') json_as_str) dec)
      else if t = ''TS'' then
        Option.bind (Option.bind (json_get v ''s'') json_as_i64) (\<lambda>s.
        Option.bind (Option.bind (json_get v ''n'') json_as_i64) (\<lambda>n.
          Some (FTimestamp s (ucast n))))
      else None)"

lemma size_json_items: "x \<in> set xs \<Longrightarrow> size x < size (JArray xs)"
  using size_list_estimation' [of x xs "size x" size] by simp

lemma size_json_entries: "(k, x) \<in> set m \<Longrightarrow> size x < size (JObject m)"
  using size_list_estimation' [of "(k, x)" m "size x" "size_prod (\<lambda>_. 0) size"] by simp

lemma size_json_get: "json_get v k = Some w \<Longrightarrow> size w < size v"
  by (cases v) (auto simp: bt_get_def simp del: json.size dest!: map_of_SomeD size_json_entries)

definition map_of_entries :: "(string \<times> field_value) list \<Rightarrow> fields" where
  "map_of_entries es = foldl (\<lambda>m (k, v). bt_insert k v m) [] es"

function json_to_field_value :: "(string \<Rightarrow> u8 list option) \<Rightarrow> json \<Rightarrow> field_value option" where
  "json_to_field_value dec v =
     (case Option.bind (json_get v ''t'') json_as_str of
        None \<Rightarrow> None
      | Some t \<Rightarrow>
          if t = ''A'' then
            (case json_get v ''v'' of
               Some (JArray items) \<Rightarrow>
                 map_option FArray (those (map (\<lambda>x. json_to_field_value dec x) items))
             | _ \<Rightarrow> None)
          else if t = ''M'' then
            (case json_get v ''v'' of
               Some (JObject entries) \<Rightarrow>
                 map_option (\<lambda>es. FMap (map_of_entries es))
                   (those (map (\<lambda>e. map_option (Pair (fst e)) (json_to_field_value dec (snd e))) entries))
             | _ \<Rightarrow> None)
          else scalar_of_json dec t v)"
  by pat_completeness auto
termination json_to_field_value
proof (relation "measure (\<lambda>(_, v). size v)", goal_cases)
  case (2 dec v t w items x)
  then have "size x < size w" using size_json_items by blast
  moreover have "size w < size v" using 2 size_json_get by blast
  ultimately show ?case by simp
next
  case (3 dec v t w entries e)
  then have "size (snd e) < size w" using size_json_entries [of "fst e" "snd e" entries] by simp
  moreover have "size w < size v" using 3 size_json_get by blast
  ultimately show ?case by simp
qed simp

declare json_to_field_value.simps [simp del]

definition json_to_fields :: "(string \<Rightarrow> u8 list option) \<Rightarrow> json \<Rightarrow> fields option" where
  "json_to_fields dec v =
     (case json_as_object v of
        None \<Rightarrow> None
      | Some m \<Rightarrow> map_option map_of_entries
          (those (map (\<lambda>e. map_option (Pair (fst e)) (json_to_field_value dec (snd e))) m)))"

section \<open>Round trip\<close>

text \<open>Decoding yields the value with every NaN replaced by the canonical one.\<close>

fun canon :: "field_value \<Rightarrow> field_value"
  and canon_list :: "field_value list \<Rightarrow> field_value list"
  and canon_map :: "fields \<Rightarrow> fields" where
  "canon (FDouble d) = FDouble (if is_nan d then f64_nan else d)"
| "canon (FArray xs) = FArray (canon_list xs)"
| "canon (FMap m) = FMap (canon_map m)"
| "canon v = v"
| "canon_list [] = []"
| "canon_list (x # xs) = canon x # canon_list xs"
| "canon_map [] = []"
| "canon_map ((k, x) # m) = (k, canon x) # canon_map m"

text \<open>Every map inside a value is ordered, as a \<open>BTreeMap\<close> is.\<close>

fun fv_wf :: "field_value \<Rightarrow> bool"
  and fv_wf_list :: "field_value list \<Rightarrow> bool"
  and fv_wf_map :: "fields \<Rightarrow> bool" where
  "fv_wf (FArray xs) = fv_wf_list xs"
| "fv_wf (FMap m) \<longleftrightarrow> bt_wf m \<and> fv_wf_map m"
| "fv_wf v = True"
| "fv_wf_list [] = True"
| "fv_wf_list (x # xs) \<longleftrightarrow> fv_wf x \<and> fv_wf_list xs"
| "fv_wf_map [] = True"
| "fv_wf_map ((k, x) # m) \<longleftrightarrow> fv_wf x \<and> fv_wf_map m"

lemma canon_nan_free_all:
  "nan_free v \<Longrightarrow> canon v = v" "nan_free_list xs \<Longrightarrow> canon_list xs = xs" "nan_free_map m \<Longrightarrow> canon_map m = m"
  by (induction v and xs and m rule: nan_free_nan_free_list_nan_free_map.induct) auto

lemma fst_canon_map: "map fst (canon_map m) = map fst m"
  by (induction m) auto

lemma bt_wf_canon_map: "bt_wf (canon_map m) = bt_wf m"
  by (simp add: bt_wf_def fst_canon_map)

lemma as_i64_number [simp]: "as_i64 (number_of_int i) = Some i"
proof (cases "sint i < 0")
  case False
  then have "uint i = sint i"
    using sint_less [of i] by (simp add: uint_sint take_bit_int_eq_self)
  then have "uint i < 2 ^ 63" using sint_less [of i] by simp
  then have "unat i < 2 ^ 63" unfolding unat_eq_nat_uint by (subst nat_less_iff) simp_all
  then show ?thesis using False by (simp add: number_of_int_def)
qed (simp add: number_of_int_def)

lemma f64_decompose: "f64_make (f64_neg d) (f64_mag d) = d"
proof (cases d)
  case (F64 w)
  have "unat w < 2 ^ 64" by (rule order_less_le_trans [OF unsigned_less]) simp
  then have "unat w mod 2 ^ 63 + (if 2 ^ 63 \<le> unat w then 2 ^ 63 else 0) = unat w"
    by (cases "unat w < 2 ^ 63") (simp_all add: le_mod_geq)
  then show ?thesis by (simp add: F64 f64_make_def f64_neg_def f64_mag_def)
qed

lemma infinite_cases:
  assumes "is_infinite d"
  shows "if f64_lt (F64 0) d then d = f64_inf else d = f64_neg_inf"
proof -
  have d: "f64_make (f64_neg d) inf_mag = d" using f64_decompose [of d] assms by (simp add: is_infinite_def)
  have "f64_lt (F64 0) d \<longleftrightarrow> \<not> f64_neg d"
    using assms by (simp add: f64_lt_def is_nan_def is_infinite_def f64_key_def f64_mag_def f64_neg_def inf_mag_def)
  then show ?thesis using d by (auto simp: f64_inf_def f64_neg_inf_def)
qed

lemma json_to_double_roundtrip [simp]:
  "json_to_double (double_to_json d) = Some (canon (FDouble d))"
  using infinite_cases [of d]
  by (auto simp: json_to_double_def double_to_json_def split: if_splits)

lemma json_get_tagged [simp]:
  "json_get (tagged t v) ''t'' = Some (JString t)" "json_get (tagged t v) ''v'' = Some v"
  by (simp_all add: tagged_def bt_get_def)

lemma bt_insert_last: "\<forall>e \<in> set m. fst e < k \<Longrightarrow> bt_insert k v m = m @ [(k, v)]"
  by (induction m) auto

lemma map_of_entries_sorted: "bt_wf es \<Longrightarrow> map_of_entries es = es"
proof -
  have "bt_wf (m @ es) \<Longrightarrow> foldl (\<lambda>m (k, v). bt_insert k v m) m es = m @ es" for m :: fields
  proof (induction es arbitrary: m)
    case (Cons e es)
    obtain k v where e: "e = (k, v)" by force
    then have "bt_insert k v m = m @ [e]"
      using Cons.prems by (intro bt_insert_last [of m k v, folded e]) (auto simp: bt_wf_def sorted_wrt_append)
    then show ?case using Cons.IH [of "m @ [e]"] Cons.prems e by simp
  qed simp
  from this [of "[]"] show "bt_wf es \<Longrightarrow> map_of_entries es = es" by (simp add: map_of_entries_def)
qed

lemma those_Cons: "those (x # xs) = Option.bind x (\<lambda>a. map_option (Cons a) (those xs))"
  by (simp add: map_option_case split: option.splits)

lemma ucast_nanos [simp]: "ucast (scast n :: i64) = (n :: i32)"
  by (rule bit_word_eqI) (auto simp: bit_simps)

lemma decode_encode_all:
  assumes "\<And>b. dec (enc b) = Some b"
  shows "fv_wf v \<Longrightarrow> json_to_field_value dec (field_value_to_json enc v) = Some (canon v)"
    and "fv_wf_list xs \<Longrightarrow>
      those (map (json_to_field_value dec) (field_values_to_json enc xs)) = Some (canon_list xs)"
    and "fv_wf_map m \<Longrightarrow>
      those (map (\<lambda>e. map_option (Pair (fst e)) (json_to_field_value dec (snd e))) (field_entries_to_json enc m)) =
        Some (canon_map m)"
proof (induction v and xs and m rule: fv_wf_fv_wf_list_fv_wf_map.induct)
  case (1 xs)
  then show ?case by (simp add: json_to_field_value.simps [of _ "tagged _ _"])
next
  case (2 m)
  then show ?case
    using map_of_entries_sorted [of "canon_map m"]
    by (simp add: json_to_field_value.simps [of _ "tagged _ _"] bt_wf_canon_map)
qed (simp_all add: json_to_field_value.simps [of _ "tagged _ _"] json_to_field_value.simps [of _ "JObject _"]
      scalar_of_json_def bt_get_def assms those_Cons)

lemma stored_fields:
  assumes "\<And>b. dec (enc b) = Some b" and "bt_wf m" and "fv_wf_map m"
  shows "json_to_fields dec (fields_to_json enc m) = Some (canon_map m)"
  using decode_encode_all(3) [OF assms(1) assms(3)] map_of_entries_sorted [of "canon_map m"] assms(2)
  by (simp add: json_to_fields_def fields_to_json_def bt_wf_canon_map)

text \<open>
  \<open>C38\<close>. Documents survive storage: decoding the JSON of a field map gives the map back, with every NaN
  replaced by the canonical NaN; a map without NaN comes back exactly. The hypothesis on the Base64
  library is that decoding undoes encoding.
\<close>

theorem fields_roundtrip:
  assumes "\<And>b. dec (enc b) = Some b" and "bt_wf m" and "fv_wf_map m"
  shows "json_to_fields dec (fields_to_json enc m) = Some (canon_map m) \<and>
    (nan_free_map m \<longrightarrow> json_to_fields dec (fields_to_json enc m) = Some m)"
  using stored_fields [OF assms] canon_nan_free_all(3) [of m] by simp

text \<open>A stand-in for Base64 with the required property: one character per byte.\<close>

definition toy_encode :: "u8 list \<Rightarrow> string" where
  "toy_encode bs = map (\<lambda>b. char_of (unat b)) bs"

definition toy_decode :: "string \<Rightarrow> u8 list option" where
  "toy_decode s = Some (map (\<lambda>c. word_of_nat (of_char c)) s)"

lemma toy_codec: "toy_decode (toy_encode b) = Some b"
proof -
  have "unat w < 2 ^ 8" for w :: u8 by (rule order_less_le_trans [OF unsigned_less]) simp
  then have "word_of_nat (of_char (char_of (unat w) :: char)) = w" for w :: u8
    by (simp add: of_char_of)
  then show ?thesis by (simp add: toy_encode_def toy_decode_def comp_def)
qed

theorem fields_roundtrip_witness:
  "json_to_fields toy_decode (fields_to_json toy_encode
     [(''a'', FBytes [1, 255]), (''b'', FMap [(''x'', FTimestamp (-3) 5), (''y'', FArray [FNull, FInteger (-1)])])]) =
   Some [(''a'', FBytes [1, 255]), (''b'', FMap [(''x'', FTimestamp (-3) 5), (''y'', FArray [FNull, FInteger (-1)])])]"
  using fields_roundtrip [of toy_decode toy_encode
      "[(''a'', FBytes [1, 255]), (''b'', FMap [(''x'', FTimestamp (-3) 5), (''y'', FArray [FNull, FInteger (-1)])])]"]
  by (simp add: toy_codec bt_wf_def)

end
