(* ===== verification/Document_Store.thy ===== *)
theory Document_Store
  imports Field_Transform Field_Encoding
begin

text \<open>
  The single-document operations of \<open>embyr-pg-storage/src/backend_adapter.rs\<close>: \<open>get_document\<close> (its
  unregistered part), \<open>create_document\<close>, \<open>update_document\<close> and \<open>delete_document\<close>, over the tables of
  \<open>migrations/customer\<close>. A table is a partial map from its primary key to rows; every SQL statement is
  one atomic change of it. Failing connections and the column widths are not modelled; a \<open>BIGINT\<close>
  that would overflow is an error of the statement, as in Postgres.

  What comes from outside is a field of \<open>store_env\<close>: Base64, the first bytes of BLAKE3, what a
  \<open>JSONB\<close> and a \<open>TIMESTAMPTZ(6)\<close> column give back for a bound value, and which seconds \<open>chrono\<close> can
  represent. The current time is an argument.
\<close>

section \<open>State\<close>

type_synonym date_time = "i64 \<times> i32"

record store_env =
  b64_encode :: "u8 list \<Rightarrow> string"
  b64_decode :: "string \<Rightarrow> u8 list option"
  blake3 :: "string \<Rightarrow> u8 list"
  jsonb :: "json \<Rightarrow> json"
  column_time :: "date_time \<Rightarrow> date_time"
  chrono_seconds :: "i64 \<Rightarrow> bool"

record doc_row =
  row_fields :: json
  row_version :: i64
  row_create_time :: date_time
  row_update_time :: date_time
  row_deleted :: bool

record txn_row =
  txn_project :: string
  txn_status :: string
  txn_started_at :: date_time
  txn_reads :: "json btree_map"

record database =
  documents :: "document_path \<Rightarrow> doc_row option"
  transactions :: "u8 list \<Rightarrow> txn_row option"
  notifications :: "(string \<times> string) list"

record write_result =
  wr_update_time :: date_time
  wr_create_time :: "date_time option"
  transform_results :: "field_value list"

datatype write_precondition = MustExist | MustNotExist | UpdateTime i64 i32

section \<open>Time\<close>

definition show_int :: "int \<Rightarrow> string" where
  "show_int i = (if i < 0 then ''-'' @ show_nat (nat (- i)) else show_nat (nat i))"

definition to_datetime :: "store_env \<Rightarrow> i64 \<Rightarrow> i32 \<Rightarrow> (core_error, date_time) result" where
  "to_datetime env s n =
     (if \<not> (0 \<le> sint n \<and> sint n \<le> 999999999) then
        Inl (InvalidArgument (''Precondition.update_time.nanos must be within [0, 999999999], got: '' @
          show_int (sint n)))
      else if \<not> chrono_seconds env s then
        Inl (InvalidArgument (''Precondition.update_time.seconds is out of range for a valid timestamp, got: '' @
          show_int (sint s)))
      else Inr (s, n))"

definition from_datetime :: "date_time \<Rightarrow> i64 \<times> i32" where
  "from_datetime dt = (fst dt, snd dt)"

section \<open>Rows\<close>

definition live_row :: "database \<Rightarrow> document_path \<Rightarrow> doc_row option" where
  "live_row db p =
     (case documents db p of Some r \<Rightarrow> if row_deleted r then None else Some r | None \<Rightarrow> None)"

definition put_row :: "document_path \<Rightarrow> doc_row \<Rightarrow> database \<Rightarrow> database" where
  "put_row p r db = db\<lparr>documents := (documents db)(p \<mapsto> r)\<rparr>"

text \<open>\<open>INSERT ... VALUES (..., 1, now, now)\<close>.\<close>

definition new_row :: "store_env \<Rightarrow> json \<Rightarrow> date_time \<Rightarrow> doc_row" where
  "new_row env js now =
     \<lparr>row_fields = jsonb env js, row_version = 1, row_create_time = now, row_update_time = now,
      row_deleted = False\<rparr>"

text \<open>\<open>SET fields = ..., version = version + 1, update_time = now, deleted = false\<close>.\<close>

definition overwrite_row :: "store_env \<Rightarrow> json \<Rightarrow> date_time \<Rightarrow> doc_row \<Rightarrow> doc_row option" where
  "overwrite_row env js now r =
     map_option (\<lambda>v. r\<lparr>row_fields := jsonb env js, row_version := v, row_update_time := now,
                       row_deleted := False\<rparr>)
       (checked_add (row_version r) 1)"

text \<open>\<open>INSERT ... ON CONFLICT DO UPDATE\<close>.\<close>

definition upsert_row :: "store_env \<Rightarrow> json \<Rightarrow> date_time \<Rightarrow> doc_row option \<Rightarrow> doc_row option" where
  "upsert_row env js now old =
     (case old of None \<Rightarrow> Some (new_row env js now) | Some r \<Rightarrow> overwrite_row env js now r)"

text \<open>\<open>SET deleted = true, version = version + 1, update_time = now\<close>.\<close>

definition delete_row :: "date_time \<Rightarrow> doc_row \<Rightarrow> doc_row option" where
  "delete_row now r =
     map_option (\<lambda>v. r\<lparr>row_deleted := True, row_version := v, row_update_time := now\<rparr>)
       (checked_add (row_version r) 1)"

definition bigint_error :: core_error where
  "bigint_error = BackendUnavailable ''error returned from database: bigint out of range''"

section \<open>Notifications\<close>

definition hex_digit :: "nat \<Rightarrow> char" where
  "hex_digit n = (if n < 10 then char_of (48 + n) else char_of (87 + n))"

definition hex_byte :: "u8 \<Rightarrow> string" where
  "hex_byte b = [hex_digit (unat b div 16), hex_digit (unat b mod 16)]"

definition notify_channel :: "store_env \<Rightarrow> string \<Rightarrow> string" where
  "notify_channel env pid = ''dc_'' @ concat (map hex_byte (take 8 (blake3 env pid)))"

definition send_notify :: "store_env \<Rightarrow> document_path \<Rightarrow> database \<Rightarrow> database" where
  "send_notify env p db =
     db\<lparr>notifications := notifications db @
       [(notify_channel env (project_id p), collection_path p @ ''/'' @ document_id p)]\<rparr>"

section \<open>Operations\<close>

definition decode_fields :: "store_env \<Rightarrow> json \<Rightarrow> (core_error, fields) result" where
  "decode_fields env js =
     ok_or (BackendUnavailable ''failed to decode fields JSON'') (json_to_fields (b64_decode env) js)"

definition read_document ::
  "store_env \<Rightarrow> document_path \<Rightarrow> database \<Rightarrow> (core_error, firestore_document option) result" where
  "read_document env p db =
     (case live_row db p of
        None \<Rightarrow> Inr None
      | Some r \<Rightarrow>
          rbind (decode_fields env (row_fields r)) (\<lambda>fs.
            Inr (Some \<lparr>path = p, doc_fields = fs, create_time = from_datetime (row_create_time r),
                       update_time = from_datetime (row_update_time r), version = row_version r\<rparr>)))"

definition create_document ::
  "store_env \<Rightarrow> date_time \<Rightarrow> document_path \<Rightarrow> fields \<Rightarrow> database \<Rightarrow> (core_error, write_result) result \<times> database" where
  "create_document env now p fs db =
     (let js = fields_to_json (b64_encode env) fs in
      case documents db p of
        Some _ \<Rightarrow> (Inl (AlreadyExists (document_id p)), db)
      | None \<Rightarrow>
          (let r = new_row env js now in
           (Inr \<lparr>wr_update_time = from_datetime (row_update_time r),
                 wr_create_time = Some (from_datetime (row_create_time r)), transform_results = []\<rparr>,
            send_notify env p (put_row p r db))))"

text \<open>What all branches of \<open>update_document\<close> do with the row their statement returned.\<close>

definition finish_update ::
  "store_env \<Rightarrow> document_path \<Rightarrow> doc_row option \<Rightarrow> database \<Rightarrow> (core_error, write_result) result \<times> database" where
  "finish_update env p new db =
     (case new of
        None \<Rightarrow> (Inl bigint_error, db)
      | Some r \<Rightarrow>
          (Inr \<lparr>wr_update_time = from_datetime (row_update_time r), wr_create_time = None,
                transform_results = []\<rparr>,
           send_notify env p (put_row p r db)))"

definition update_document ::
  "store_env \<Rightarrow> date_time \<Rightarrow> document_path \<Rightarrow> fields \<Rightarrow> write_precondition option \<Rightarrow> database \<Rightarrow>
     (core_error, write_result) result \<times> database" where
  "update_document env now p fs precondition db =
     (let js = fields_to_json (b64_encode env) fs in
      case precondition of
        None \<Rightarrow> finish_update env p (upsert_row env js now (documents db p)) db
      | Some (UpdateTime s n) \<Rightarrow>
          (case to_datetime env s n of
             Inl e \<Rightarrow> (Inl e, db)
           | Inr dt \<Rightarrow>
               (case live_row db p of
                  None \<Rightarrow> (Inl (DocumentNotFound (document_id p)), db)
                | Some r \<Rightarrow>
                    if row_update_time r = column_time env dt
                    then finish_update env p (overwrite_row env js now r) db
                    else (Inl OccConflict, db)))
      | Some MustExist \<Rightarrow>
          (case live_row db p of
             None \<Rightarrow> (Inl (DocumentNotFound (document_id p)), db)
           | Some r \<Rightarrow> finish_update env p (overwrite_row env js now r) db)
      | Some MustNotExist \<Rightarrow>
          (case documents db p of
             Some _ \<Rightarrow> (Inl (AlreadyExists (document_id p)), db)
           | None \<Rightarrow> finish_update env p (Some (new_row env js now)) db))"

definition delete_document ::
  "store_env \<Rightarrow> date_time \<Rightarrow> document_path \<Rightarrow> write_precondition option \<Rightarrow> database \<Rightarrow>
     (core_error, unit) result \<times> database" where
  "delete_document env now p precondition db =
     (case live_row db p of
        None \<Rightarrow> (Inl (DocumentNotFound (document_id p)), db)
      | Some r \<Rightarrow>
          (case delete_row now r of
             None \<Rightarrow> (Inl bigint_error, db)
           | Some r' \<Rightarrow> (Inr (), send_notify env p (put_row p r' db))))"

section \<open>Lemmas\<close>

named_theorems store_defs

lemmas [store_defs] = create_document_def update_document_def delete_document_def finish_update_def
  put_row_def send_notify_def Let_def

lemma live_row_Some_iff: "live_row db p = Some r \<longleftrightarrow> documents db p = Some r \<and> \<not> row_deleted r"
  by (auto simp: live_row_def split: option.splits)

lemma documents_put_row [simp]: "documents (put_row p r db) = (documents db)(p \<mapsto> r)"
  by (simp add: put_row_def)

lemma transactions_put_row [simp]: "transactions (put_row p r db) = transactions db"
  by (simp add: put_row_def)

lemma send_notify_tables [simp]:
  "documents (send_notify env p db) = documents db" "transactions (send_notify env p db) = transactions db"
  by (simp_all add: send_notify_def)

lemma live_row_put_row:
  "live_row (put_row p r db) q = (if q = p then if row_deleted r then None else Some r else live_row db q)"
  by (simp add: live_row_def)

lemma live_row_send_notify [simp]: "live_row (send_notify env p db) = live_row db"
  by (simp add: live_row_def fun_eq_iff)

text \<open>A row is replaced only by one with a larger version.\<close>

definition supersedes :: "doc_row \<Rightarrow> doc_row \<Rightarrow> bool" where
  "supersedes r' r \<longleftrightarrow> r' = r \<or> sint (row_version r) < sint (row_version r')"

lemma supersedes_refl [simp]: "supersedes r r"
  by (simp add: supersedes_def)

lemma supersedes_trans: "supersedes r'' r' \<Longrightarrow> supersedes r' r \<Longrightarrow> supersedes r'' r"
  by (auto simp: supersedes_def)

lemma sint_bump: "checked_add v 1 = Some w \<Longrightarrow> sint v < sint w"
  using checked_add_Some [of v 1 w] by simp

lemma overwrite_row_supersedes: "overwrite_row env js now r = Some r' \<Longrightarrow> supersedes r' r"
  by (auto simp: overwrite_row_def supersedes_def dest: sint_bump)

lemma upsert_row_supersedes: "upsert_row env js now (Some r) = Some r' \<Longrightarrow> supersedes r' r"
  by (auto simp: upsert_row_def overwrite_row_supersedes)

lemma delete_row_supersedes: "delete_row now r = Some r' \<Longrightarrow> supersedes r' r"
  by (auto simp: delete_row_def supersedes_def dest: sint_bump)

lemma overwrite_row_fields:
  "overwrite_row env js now r = Some r' \<Longrightarrow>
     row_fields r' = jsonb env js \<and> \<not> row_deleted r' \<and> row_update_time r' = now \<and>
     row_create_time r' = row_create_time r \<and> sint (row_version r') = sint (row_version r) + 1"
  by (auto simp: overwrite_row_def dest: checked_add_Some)

lemma upsert_row_fields:
  "upsert_row env js now old = Some r \<Longrightarrow>
     row_fields r = jsonb env js \<and> \<not> row_deleted r \<and> row_update_time r = now"
  by (cases old) (auto simp: upsert_row_def new_row_def dest: overwrite_row_fields)

lemma finish_update_Inr:
  "finish_update env p new db = (Inr w, db') \<longleftrightarrow>
     (\<exists>r. new = Some r \<and> db' = send_notify env p (put_row p r db) \<and>
       w = \<lparr>wr_update_time = row_update_time r, wr_create_time = None, transform_results = []\<rparr>)"
  by (auto simp: finish_update_def from_datetime_def split: option.splits)

lemma finish_update_ok: "is_ok (fst (finish_update env p new db)) \<longleftrightarrow> new \<noteq> None"
  by (simp add: finish_update_def split: option.splits)

lemma update_document_Inr:
  assumes "update_document env now p fs pc db = (Inr w, db')"
  obtains r where "db' = send_notify env p (put_row p r db)" and "row_fields r = jsonb env (fields_to_json (b64_encode env) fs)"
    and "\<not> row_deleted r" and "row_update_time r = now" and "wr_update_time w = now"
    and "\<And>old. documents db p = Some old \<Longrightarrow> supersedes r old"
proof -
  obtain r where r: "upsert_row env (fields_to_json (b64_encode env) fs) now (documents db p) = Some r"
    and db': "db' = send_notify env p (put_row p r db)" and w: "wr_update_time w = row_update_time r"
    using assms
    by (auto simp: update_document_def Let_def finish_update_Inr live_row_Some_iff upsert_row_def
        split: option.splits write_precondition.splits sum.splits if_splits)
  have "supersedes r old" if "documents db p = Some old" for old
    using upsert_row_supersedes r that by simp
  then show ?thesis using that [OF db'] upsert_row_fields [OF r] w by simp
qed

lemma update_document_Inl: "update_document env now p fs pc db = (Inl e, db') \<Longrightarrow> db' = db"
  by (auto simp: update_document_def Let_def finish_update_def split: option.splits
      write_precondition.splits sum.splits if_splits)

lemma create_document_Inr:
  "create_document env now p fs db = (Inr w, db') \<Longrightarrow>
     documents db p = None \<and>
     db' = send_notify env p (put_row p (new_row env (fields_to_json (b64_encode env) fs) now) db)"
  by (auto simp: create_document_def Let_def split: option.splits)

lemma create_document_Inl: "create_document env now p fs db = (Inl e, db') \<Longrightarrow> db' = db"
  by (auto simp: create_document_def Let_def split: option.splits)

lemma delete_document_Inr:
  "delete_document env now p pc db = (Inr w, db') \<Longrightarrow>
     \<exists>r r'. live_row db p = Some r \<and> delete_row now r = Some r' \<and> db' = send_notify env p (put_row p r' db)"
  by (auto simp: delete_document_def split: option.splits)

lemma delete_document_Inl: "delete_document env now p pc db = (Inl e, db') \<Longrightarrow> db' = db"
  by (auto simp: delete_document_def split: option.splits)

lemma decode_stored:
  assumes "\<And>b. b64_decode env (b64_encode env b) = Some b"
    and "jsonb env (fields_to_json (b64_encode env) fs) = fields_to_json (b64_encode env) fs"
    and "bt_wf fs" and "fv_wf_map fs"
  shows "decode_fields env (jsonb env (fields_to_json (b64_encode env) fs)) = Inr (canon_map fs)"
  using stored_fields [OF assms(1, 3, 4)] assms(2) by (simp add: decode_fields_def)

lemma read_document_other: "q \<noteq> p \<Longrightarrow> read_document env q (send_notify env p (put_row p r db)) = read_document env q db"
  by (simp add: read_document_def live_row_put_row)

section \<open>Properties\<close>

text \<open>A concrete environment: the Base64 stand-in, columns that keep what they are given, except for
  times, which lose their nanoseconds.\<close>

definition example_env :: store_env where
  "example_env =
     \<lparr>b64_encode = toy_encode, b64_decode = toy_decode, blake3 = (\<lambda>s. map (\<lambda>c. word_of_nat (of_char c)) s),
      jsonb = id, column_time = (\<lambda>(s, n). (s, n - n mod 1000)), chrono_seconds = (\<lambda>_. True)\<rparr>"

definition empty_db :: database where
  "empty_db = \<lparr>documents = Map.empty, transactions = Map.empty, notifications = []\<rparr>"

definition example_path :: document_path where
  "example_path = \<lparr>project_id = ''p'', collection_path = ''users'', document_id = ''ann''\<rparr>"

text \<open>
  Written documents are read back: after a successful \<open>update_document\<close>, whatever its precondition,
  reading the document gives the fields that were written (every NaN as the canonical NaN) and the write's
  time as update time, and every other document reads as before. The hypotheses say that Base64 decoding
  undoes encoding and that the \<open>JSONB\<close> column gives back the JSON of these fields.
\<close>

theorem put_get:
  assumes "\<And>b. b64_decode env (b64_encode env b) = Some b"
    and "jsonb env (fields_to_json (b64_encode env) fs) = fields_to_json (b64_encode env) fs"
    and "bt_wf fs" and "fv_wf_map fs"
    and "update_document env now p fs pc db = (Inr w, db')"
  shows "(\<exists>d. read_document env p db' = Inr (Some d) \<and> doc_fields d = canon_map fs \<and>
      update_time d = now \<and> wr_update_time w = now) \<and>
    (\<forall>q. q \<noteq> p \<longrightarrow> read_document env q db' = read_document env q db)"
proof -
  obtain r where r: "db' = send_notify env p (put_row p r db)"
    "row_fields r = jsonb env (fields_to_json (b64_encode env) fs)" "\<not> row_deleted r"
    "row_update_time r = now" "wr_update_time w = now"
    using update_document_Inr [OF assms(5)] by blast
  then have "live_row db' p = Some r" by (simp add: live_row_put_row)
  then show ?thesis
    using r decode_stored [OF assms(1-4)] read_document_other [of _ p env r db]
    by (auto simp: read_document_def from_datetime_def)
qed

theorem put_get_witness:
  "\<exists>w db'. update_document example_env (7, 5) example_path [(''n'', FInteger 1)] None empty_db = (Inr w, db') \<and>
     (\<exists>d. read_document example_env example_path db' = Inr (Some d) \<and> doc_fields d = [(''n'', FInteger 1)])"
proof -
  obtain w db' where u:
    "update_document example_env (7, 5) example_path [(''n'', FInteger 1)] None empty_db = (Inr w, db')"
    by (simp add: store_defs upsert_row_def new_row_def empty_db_def)
  show ?thesis
    using put_get [OF _ _ _ _ u] u by (auto simp: example_env_def toy_codec bt_wf_def)
qed

text \<open>When an update may go ahead.\<close>

definition precondition_holds ::
  "store_env \<Rightarrow> database \<Rightarrow> document_path \<Rightarrow> write_precondition option \<Rightarrow> bool" where
  "precondition_holds env db p pc =
     (case pc of
        None \<Rightarrow> True
      | Some MustExist \<Rightarrow> live_row db p \<noteq> None
      | Some MustNotExist \<Rightarrow> documents db p = None
      | Some (UpdateTime s n) \<Rightarrow>
          0 \<le> sint n \<and> sint n < 10 ^ 9 \<and> chrono_seconds env s \<and>
          map_option row_update_time (live_row db p) = Some (column_time env (s, n)))"

lemma overwrite_row_below: "sint (row_version r) < 2 ^ 63 - 1 \<Longrightarrow> \<exists>r'. overwrite_row env js now r = Some r'"
  using sint_greater_eq [of "row_version r"] by (simp add: overwrite_row_def checked_add_def fits_i64_def)

text \<open>
  Preconditions of \<open>update_document\<close>. Below the largest version, an update succeeds exactly when its
  precondition holds: always without one, on an existing document for \<open>MustExist\<close>, on an existing document
  with that update time (a representable one, cut to the precision of the column) for \<open>UpdateTime\<close>, and when no row, deleted or not, has
  the path for \<open>MustNotExist\<close>. A refused update changes nothing.
\<close>

theorem update_precondition:
  assumes "\<And>r. documents db p = Some r \<Longrightarrow> sint (row_version r) < 2 ^ 63 - 1"
  shows "is_ok (fst (update_document env now p fs pc db)) = precondition_holds env db p pc \<and>
    (is_ok (fst (update_document env now p fs pc db)) \<or> snd (update_document env now p fs pc db) = db)"
proof (rule conjI)
  have row: "documents db p = Some r \<Longrightarrow> overwrite_row env js now r \<noteq> None" for r js
    using assms overwrite_row_below by blast
  then have live: "live_row db p = Some r \<Longrightarrow> overwrite_row env js now r \<noteq> None" for r js
    by (simp add: live_row_Some_iff)
  note defs = update_document_def Let_def precondition_holds_def finish_update_ok
  show "is_ok (fst (update_document env now p fs pc db)) = precondition_holds env db p pc"
  proof (cases pc)
    case None
    then show ?thesis using row by (auto simp: defs upsert_row_def split: option.split)
  next
    case (Some c)
    show ?thesis
    proof (cases c)
      case MustExist
      then show ?thesis using Some live by (auto simp: defs split: option.split)
    next
      case MustNotExist
      then show ?thesis using Some by (auto simp: defs split: option.split)
    next
      case (UpdateTime s n)
      then show ?thesis using Some live by (auto simp: defs to_datetime_def split: option.split)
    qed
  qed
  show "is_ok (fst (update_document env now p fs pc db)) \<or> snd (update_document env now p fs pc db) = db"
  proof (cases "update_document env now p fs pc db")
    case (Pair r db')
    then show ?thesis using update_document_Inl by (cases r) auto
  qed
qed

theorem update_precondition_witness:
  "is_ok (fst (update_document example_env (7, 5) example_path [] (Some MustExist) empty_db)) =
     precondition_holds example_env empty_db example_path (Some MustExist)"
  using update_precondition [of empty_db example_path example_env "(7, 5)" "[]" "Some MustExist"]
  by (simp add: empty_db_def)

text \<open>
  A deleted document cannot be created again: deletion keeps the row, so \<open>create_document\<close> and an
  update with \<open>MustNotExist\<close> report that the document exists although reading it finds nothing, and only an
  update without precondition revives it.
\<close>

theorem create_after_delete:
  assumes "delete_document env now p pc db = (Inr (), db')"
  shows "read_document env p db' = Inr None \<and>
    create_document env now' p fs db' = (Inl (AlreadyExists (document_id p)), db') \<and>
    update_document env now' p fs (Some MustNotExist) db' = (Inl (AlreadyExists (document_id p)), db') \<and>
    update_document env now' p fs (Some MustExist) db' = (Inl (DocumentNotFound (document_id p)), db')"
proof -
  obtain r r' where "live_row db p = Some r" "delete_row now r = Some r'"
    "db' = send_notify env p (put_row p r' db)"
    using delete_document_Inr [OF assms] by blast
  then have "documents db' p = Some r'" "live_row db' p = None"
    by (auto simp: live_row_put_row delete_row_def)
  then show ?thesis by (simp add: read_document_def create_document_def update_document_def Let_def)
qed

theorem create_after_delete_witness:
  "\<exists>db'. delete_document example_env (9, 0) example_path None
       (snd (create_document example_env (8, 0) example_path [] empty_db)) = (Inr (), db') \<and>
     create_document example_env (10, 0) example_path [] db' = (Inl (AlreadyExists ''ann''), db')"
proof -
  obtain db' where d: "delete_document example_env (9, 0) example_path None
       (snd (create_document example_env (8, 0) example_path [] empty_db)) = (Inr (), db')"
    by (simp add: store_defs new_row_def empty_db_def live_row_def delete_row_def checked_add_def fits_i64_def)
  show ?thesis using create_after_delete [OF d, of "(10, 0)" "[]"] d by (simp add: example_path_def)
qed

end
