(* ===== verification/Transactions.thy ===== *)
theory Transactions
  imports Document_Store
begin

text \<open>
  Transactions over the document store: \<open>embyr-pg-storage/src/transactions/occ.rs\<close>, the transactional
  part of \<open>get_document\<close> and \<open>begin_transaction\<close>, \<open>commit_transaction\<close> and \<open>rollback_transaction\<close> of
  \<open>backend_adapter.rs\<close>, and the sweepers of the server and the agent that expire and remove transaction
  rows. \<open>commit_transaction\<close> reads the transaction row before it opens its Postgres transaction, so it
  is modelled in the same two parts: \<open>commit_prepare\<close>, then \<open>commit_apply\<close>, which is atomic and leaves
  the database as it was when it fails. The current times are arguments, as is the fresh transaction id.
\<close>

section \<open>Writes and transaction ids\<close>

datatype db_write =
    WUpdate document_path fields "i64 option" "write_precondition option" "field_transform list"
  | WDelete document_path "i64 option" "write_precondition option"
  | WTransform document_path "field_transform list"

fun write_path :: "db_write \<Rightarrow> document_path" where
  "write_path (WUpdate p fs v pc ts) = p"
| "write_path (WDelete p v pc) = p"
| "write_path (WTransform p ts) = p"

definition uuid_from_bytes :: "u8 list \<Rightarrow> (core_error, u8 list) result" where
  "uuid_from_bytes bs =
     (if length bs \<noteq> 16 then Inl (InvalidArgument ''invalid transaction ID length'') else Inr bs)"

definition time_ns :: "date_time \<Rightarrow> int" where
  "time_ns t = sint (fst t) * 10 ^ 9 + sint (snd t)"

definition txn_window :: int where
  "txn_window = 60 * 10 ^ 9"

definition set_status :: "u8 list \<Rightarrow> string \<Rightarrow> database \<Rightarrow> database" where
  "set_status u st db =
     db\<lparr>transactions := (transactions db)(u := map_option (\<lambda>r. r\<lparr>txn_status := st\<rparr>) (transactions db u))\<rparr>"

section \<open>Recorded reads\<close>

definition read_key :: "document_path \<Rightarrow> string" where
  "read_key p = collection_path p @ ''/'' @ document_id p"

text \<open>\<open>str::rsplit_once\<close>: at the last occurrence.\<close>

fun rsplit_once :: "char \<Rightarrow> string \<Rightarrow> (string \<times> string) option" where
  "rsplit_once d [] = None"
| "rsplit_once d (c # s) =
     (case rsplit_once d s of
        Some (a, b) \<Rightarrow> Some (c # a, b)
      | None \<Rightarrow> if c = d then Some ([], s) else None)"

definition version_json :: "i64 option \<Rightarrow> json" where
  "version_json v = (case v of Some i \<Rightarrow> JNumber (number_of_int i) | None \<Rightarrow> JNull)"

definition record_read ::
  "date_time \<Rightarrow> string \<Rightarrow> u8 list \<Rightarrow> document_path \<Rightarrow> i64 option \<Rightarrow> database \<Rightarrow>
     (core_error, unit) result \<times> database" where
  "record_read now pid tid p v db =
     (case uuid_from_bytes tid of
        Inl e \<Rightarrow> (Inl e, db)
      | Inr u \<Rightarrow>
          (case transactions db u of
             Some r \<Rightarrow>
               if txn_project r = pid \<and> txn_status r = ''active'' \<and>
                  time_ns (txn_started_at r) > time_ns now - txn_window
               then (Inr (), db\<lparr>transactions := (transactions db)
                       (u \<mapsto> r\<lparr>txn_reads := bt_insert (read_key p) (version_json v) (txn_reads r)\<rparr>)\<rparr>)
               else (Inl TransactionNotFound, db)
           | None \<Rightarrow> (Inl TransactionNotFound, db)))"

definition get_document ::
  "store_env \<Rightarrow> date_time \<Rightarrow> document_path \<Rightarrow> u8 list option \<Rightarrow> database \<Rightarrow>
     (core_error, firestore_document option) result \<times> database" where
  "get_document env now p txn db =
     (case txn of
        None \<Rightarrow> (read_document env p db, db)
      | Some tid \<Rightarrow>
          (case read_document env p db of
             Inl e \<Rightarrow> (Inl e, db)
           | Inr d \<Rightarrow>
               (case record_read now (project_id p) tid p (map_option version d) db of
                  (Inl e, db') \<Rightarrow> (Inl e, db')
                | (Inr u, db') \<Rightarrow> (Inr d, db'))))"

section \<open>Checks of a commit\<close>

text \<open>A loop that stops at the first error.\<close>

fun check_each :: "('a \<Rightarrow> (core_error, unit) result) \<Rightarrow> 'a list \<Rightarrow> (core_error, unit) result" where
  "check_each f [] = Inr ()"
| "check_each f (x # xs) = rbind (f x) (\<lambda>_. check_each f xs)"

fun write_precondition_of :: "db_write \<Rightarrow> write_precondition option" where
  "write_precondition_of (WUpdate p fs v pc ts) = pc"
| "write_precondition_of (WDelete p v pc) = pc"
| "write_precondition_of (WTransform p ts) = None"

fun write_version_of :: "db_write \<Rightarrow> i64 option" where
  "write_version_of (WUpdate p fs v pc ts) = v"
| "write_version_of (WDelete p v pc) = v"
| "write_version_of (WTransform p ts) = None"

definition check_update_time :: "store_env \<Rightarrow> database \<Rightarrow> db_write \<Rightarrow> (core_error, unit) result" where
  "check_update_time env db w =
     (case write_precondition_of w of
        Some (UpdateTime s n) \<Rightarrow>
          rbind (to_datetime env s n) (\<lambda>expected.
            if map_option row_update_time (live_row db (write_path w)) = Some expected
            then Inr () else Inl TransactionAborted)
      | _ \<Rightarrow> Inr ())"

definition check_existence :: "database \<Rightarrow> db_write \<Rightarrow> (core_error, unit) result" where
  "check_existence db w =
     (let exists = live_row db (write_path w) \<noteq> None in
      case write_precondition_of w of
        Some MustExist \<Rightarrow> if exists then Inr () else Inl TransactionAborted
      | Some MustNotExist \<Rightarrow> if \<not> exists then Inr () else Inl TransactionAborted
      | _ \<Rightarrow> Inr ())"

definition verify_version :: "database \<Rightarrow> string \<Rightarrow> db_write \<Rightarrow> (core_error, unit) result" where
  "verify_version db pid w =
     (case write_version_of w of
        None \<Rightarrow> Inr ()
      | Some expected \<Rightarrow>
          if map_option row_version (live_row db ((write_path w)\<lparr>project_id := pid\<rparr>)) = Some expected
          then Inr () else Inl TransactionAborted)"

definition verify_versions :: "database \<Rightarrow> string \<Rightarrow> db_write list \<Rightarrow> (core_error, unit) result" where
  "verify_versions db pid ws = check_each (verify_version db pid) ws"

definition verify_read :: "database \<Rightarrow> string \<Rightarrow> string \<times> json \<Rightarrow> (core_error, unit) result" where
  "verify_read db pid entry =
     (case rsplit_once (CHR ''/'') (fst entry) of
        None \<Rightarrow> Inr ()
      | Some (cp, did) \<Rightarrow>
          (let row = live_row db \<lparr>project_id = pid, collection_path = cp, document_id = did\<rparr> in
           if (case (row, json_as_i64 (snd entry)) of
                 (Some r, Some expected) \<Rightarrow> row_version r = expected
               | (None, None) \<Rightarrow> snd entry = JNull
               | _ \<Rightarrow> False)
           then Inr () else Inl TransactionAborted))"

definition verify_reads :: "database \<Rightarrow> string \<Rightarrow> json \<Rightarrow> (core_error, unit) result" where
  "verify_reads db pid reads =
     (case json_as_object reads of None \<Rightarrow> Inr () | Some entries \<Rightarrow> check_each (verify_read db pid) entries)"

definition commit_checks ::
  "store_env \<Rightarrow> string \<Rightarrow> json \<Rightarrow> db_write list \<Rightarrow> database \<Rightarrow> (core_error, unit) result" where
  "commit_checks env pid reads ws db =
     rbind (check_each (check_update_time env db) ws) (\<lambda>_.
     rbind (check_each (check_existence db) ws) (\<lambda>_.
     rbind (verify_versions db pid ws) (\<lambda>_.
       verify_reads db pid reads)))"

section \<open>Applying the writes\<close>

definition locked_fields_of :: "store_env \<Rightarrow> database \<Rightarrow> document_path \<Rightarrow> (core_error, fields option) result" where
  "locked_fields_of env db p =
     (case live_row db p of
        Some r \<Rightarrow> map_sum id Some (decode_fields env (row_fields r))
      | None \<Rightarrow> Inr (Some []))"

definition lock_fields :: "store_env \<Rightarrow> database \<Rightarrow> db_write \<Rightarrow> (core_error, fields option) result" where
  "lock_fields env db w =
     (case w of
        WTransform p ts \<Rightarrow> locked_fields_of env db p
      | WUpdate p fs v pc ts \<Rightarrow> if ts \<noteq> [] then locked_fields_of env db p else Inr None
      | WDelete p v pc \<Rightarrow> Inr None)"

text \<open>The transforms of an update start from its own fields, and take the persisted value of a field
  the update does not mention.\<close>

definition seed_field :: "fields \<Rightarrow> fields \<Rightarrow> string \<Rightarrow> fields" where
  "seed_field locked merged k =
     (case bt_get merged k of
        Some _ \<Rightarrow> merged
      | None \<Rightarrow> (case bt_get locked k of Some v \<Rightarrow> bt_insert k v merged | None \<Rightarrow> merged))"

fun merge_transforms ::
  "fields \<Rightarrow> fields \<Rightarrow> field_transform list \<Rightarrow> i64 \<times> i32 \<Rightarrow> (core_error, fields \<times> field_value list) result option" where
  "merge_transforms locked merged [] now = Some (Inr (merged, []))"
| "merge_transforms locked merged (t # ts) now =
     (case apply_field_transform (seed_field locked merged (transform_field_path t)) t now of
        None \<Rightarrow> None
      | Some (fs', Inl e) \<Rightarrow> Some (Inl e)
      | Some (fs', Inr v) \<Rightarrow>
          pbind (merge_transforms locked fs' ts now) (\<lambda>(fs'', vs).
            Some (Inr (fs'', (case v of Some x \<Rightarrow> x # vs | None \<Rightarrow> vs)))))"

text \<open>The fields a write leaves, \<^const>\<open>None\<close> for a deletion, with the transform results.\<close>

definition written_fields ::
  "date_time \<Rightarrow> db_write \<Rightarrow> fields option \<Rightarrow> (core_error, fields option \<times> field_value list) result option" where
  "written_fields now w locked =
     (let base = (case locked of Some fs \<Rightarrow> fs | None \<Rightarrow> []);
          now_tuple = from_datetime now;
          wrap = (\<lambda>(fs, vs). Some (Inr (Some fs, vs)))
      in case w of
        WUpdate p fs v pc ts \<Rightarrow>
          if ts = [] then Some (Inr (Some fs, [])) else pbind (merge_transforms base fs ts now_tuple) wrap
      | WDelete p v pc \<Rightarrow> Some (Inr (None, []))
      | WTransform p ts \<Rightarrow> pbind (apply_transforms base ts now_tuple) wrap)"

text \<open>The statement of a write; a deletion of a missing row changes nothing.\<close>

definition store_written ::
  "store_env \<Rightarrow> date_time \<Rightarrow> document_path \<Rightarrow> fields option \<Rightarrow> database \<Rightarrow> (core_error, database) result" where
  "store_written env now p content db =
     (case content of
        Some fs \<Rightarrow>
          map_sum id (\<lambda>r. put_row p r db)
            (ok_or bigint_error
              (upsert_row env (fields_to_json (b64_encode env) fs) (column_time env now) (documents db p)))
      | None \<Rightarrow>
          (case documents db p of
             None \<Rightarrow> Inr db
           | Some r \<Rightarrow>
               map_sum id (\<lambda>r'. put_row p r' db)
                 (ok_or bigint_error (delete_row (column_time env now) r))))"

definition apply_write ::
  "store_env \<Rightarrow> date_time \<Rightarrow> db_write \<Rightarrow> fields option \<Rightarrow> database \<Rightarrow>
     (core_error, write_result \<times> database) result option" where
  "apply_write env now w locked db =
     pbind (written_fields now w locked) (\<lambda>(content, vs).
       Some (map_sum id
         (\<lambda>db'. (\<lparr>wr_update_time = from_datetime now, wr_create_time = None, transform_results = vs\<rparr>, db'))
         (store_written env now (write_path w) content db)))"

fun apply_writes ::
  "store_env \<Rightarrow> date_time \<Rightarrow> (db_write \<times> fields option) list \<Rightarrow> database \<Rightarrow>
     (core_error, write_result list \<times> database) result option" where
  "apply_writes env now [] db = Some (Inr ([], db))"
| "apply_writes env now ((w, locked) # ws) db =
     pbind (apply_write env now w locked db) (\<lambda>(r, db').
     pbind (apply_writes env now ws db') (\<lambda>(rs, db'').
       Some (Inr (r # rs, db''))))"

section \<open>Begin, commit, roll back\<close>

definition begin_transaction ::
  "date_time \<Rightarrow> u8 list \<Rightarrow> string \<Rightarrow> database \<Rightarrow> (core_error, u8 list) result \<times> database" where
  "begin_transaction now u pid db =
     (case transactions db u of
        Some _ \<Rightarrow>
          (Inl (BackendUnavailable ''error returned from database: duplicate key value violates unique constraint''), db)
      | None \<Rightarrow>
          (Inr u, db\<lparr>transactions := (transactions db)
             (u \<mapsto> \<lparr>txn_project = pid, txn_status = ''active'', txn_started_at = now, txn_reads = []\<rparr>)\<rparr>))"

text \<open>Up to the opening of the Postgres transaction.\<close>

definition commit_prepare ::
  "date_time \<Rightarrow> string \<Rightarrow> u8 list \<Rightarrow> database \<Rightarrow> (core_error, u8 list \<times> json) result \<times> database" where
  "commit_prepare now pid tid db =
     (case uuid_from_bytes tid of
        Inl e \<Rightarrow> (Inl e, db)
      | Inr u \<Rightarrow>
          (case transactions db u of
             None \<Rightarrow> (Inl TransactionNotFound, db)
           | Some r \<Rightarrow>
               if txn_project r \<noteq> pid then (Inl TransactionNotFound, db)
               else if txn_status r \<noteq> ''active'' then (Inl TransactionNotFound, db)
               else if time_ns now - time_ns (txn_started_at r) > txn_window
               then (Inl TransactionNotFound, set_status u ''expired'' db)
               else (Inr (u, JObject (txn_reads r)), db)))"

definition commit_apply ::
  "store_env \<Rightarrow> date_time \<Rightarrow> string \<Rightarrow> u8 list \<Rightarrow> json \<Rightarrow> db_write list \<Rightarrow> database \<Rightarrow>
     ((core_error, write_result list) result \<times> database) option" where
  "commit_apply env now pid u reads ws db =
     (case commit_checks env pid reads ws db of
        Inl e \<Rightarrow> Some (Inl e, db)
      | Inr _ \<Rightarrow>
          (case collect_results (map (lock_fields env db) ws) of
             Inl e \<Rightarrow> Some (Inl e, db)
           | Inr locked \<Rightarrow>
               (case apply_writes env now (zip ws locked) db of
                  None \<Rightarrow> None
                | Some (Inl e) \<Rightarrow> Some (Inl e, db)
                | Some (Inr (rs, db')) \<Rightarrow> Some (Inr rs, set_status u ''committed'' db'))))"

definition commit_transaction ::
  "store_env \<Rightarrow> date_time \<Rightarrow> date_time \<Rightarrow> string \<Rightarrow> u8 list \<Rightarrow> db_write list \<Rightarrow> database \<Rightarrow>
     ((core_error, write_result list) result \<times> database) option" where
  "commit_transaction env now now' pid tid ws db =
     (case commit_prepare now pid tid db of
        (Inl e, db') \<Rightarrow> Some (Inl e, db')
      | (Inr (u, reads), db') \<Rightarrow> commit_apply env now' pid u reads ws db')"

definition rollback_transaction ::
  "string \<Rightarrow> u8 list \<Rightarrow> database \<Rightarrow> (core_error, unit) result \<times> database" where
  "rollback_transaction pid tid db =
     (case uuid_from_bytes tid of
        Inl e \<Rightarrow> (Inl e, db)
      | Inr u \<Rightarrow>
          (case transactions db u of
             Some r \<Rightarrow>
               if txn_project r = pid \<and> txn_status r = ''active''
               then (Inr (), set_status u ''rolled_back'' db) else (Inl TransactionNotFound, db)
           | None \<Rightarrow> (Inl TransactionNotFound, db)))"

section \<open>Sweepers\<close>

definition day_ns :: int where
  "day_ns = 86400 * 10 ^ 9"

text \<open>The two statements of the server's \<open>TransactionSweeper\<close>.\<close>

definition reclaim_row :: "date_time \<Rightarrow> txn_row \<Rightarrow> txn_row" where
  "reclaim_row now r =
     (if txn_status r = ''active'' \<and> time_ns (txn_started_at r) < time_ns now - txn_window
      then r\<lparr>txn_status := ''expired''\<rparr> else r)"

definition sweep_one_project :: "date_time \<Rightarrow> date_time \<Rightarrow> i64 \<Rightarrow> database \<Rightarrow> database" where
  "sweep_one_project now now' retention db =
     (let reclaimed = (\<lambda>u. map_option (reclaim_row now) (transactions db u));
          purge = (\<lambda>r. txn_status r \<in> {''committed'', ''expired''} \<and>
            time_ns (txn_started_at r) < time_ns now' - sint retention * day_ns)
      in db\<lparr>transactions := (\<lambda>u. case reclaimed u of
           Some r \<Rightarrow> if purge r then None else Some r | None \<Rightarrow> None)\<rparr>)"

text \<open>The agent's sweeper removes abandoned rows instead of marking them.\<close>

definition sweep_once :: "date_time \<Rightarrow> i64 \<Rightarrow> i64 \<Rightarrow> database \<Rightarrow> database" where
  "sweep_once now ttl retention db =
     (let abandoned = (\<lambda>r. time_ns (txn_started_at r) < time_ns now - sint ttl * 10 ^ 9 \<and>
            txn_status r = ''active'');
          purge = (\<lambda>r. txn_status r \<in> {''committed'', ''expired'', ''rolled_back''} \<and>
            time_ns (txn_started_at r) < time_ns now - sint retention * day_ns)
      in db\<lparr>transactions := (\<lambda>u. case transactions db u of
           Some r \<Rightarrow> if abandoned r \<or> purge r then None else Some r | None \<Rightarrow> None)\<rparr>)"

section \<open>Sequences of operations\<close>

datatype store_op =
    OpGet date_time document_path "u8 list option"
  | OpCreate date_time document_path fields
  | OpUpdate date_time document_path fields "write_precondition option"
  | OpDelete date_time document_path "write_precondition option"
  | OpBegin date_time "u8 list" string
  | OpCommit date_time date_time string "u8 list" "db_write list"
  | OpRollback string "u8 list"
  | OpSweep date_time date_time i64
  | OpAgentSweep date_time i64 i64

fun exec_op :: "store_env \<Rightarrow> store_op \<Rightarrow> database \<Rightarrow> database" where
  "exec_op env (OpGet now p txn) db = snd (get_document env now p txn db)"
| "exec_op env (OpCreate now p fs) db = snd (create_document env now p fs db)"
| "exec_op env (OpUpdate now p fs pc) db = snd (update_document env now p fs pc db)"
| "exec_op env (OpDelete now p pc) db = snd (delete_document env now p pc db)"
| "exec_op env (OpBegin now u pid) db = snd (begin_transaction now u pid db)"
| "exec_op env (OpCommit now now' pid tid ws) db =
     (case commit_transaction env now now' pid tid ws db of Some (r, db') \<Rightarrow> db' | None \<Rightarrow> db)"
| "exec_op env (OpRollback pid tid) db = snd (rollback_transaction pid tid db)"
| "exec_op env (OpSweep now now' retention) db = sweep_one_project now now' retention db"
| "exec_op env (OpAgentSweep now ttl retention) db = sweep_once now ttl retention db"

definition run :: "store_env \<Rightarrow> store_op list \<Rightarrow> database \<Rightarrow> database" where
  "run env ops db = fold (exec_op env) ops db"

end
