(* ===== verification/Transaction_Safety.thy ===== *)
theory Transaction_Safety
  imports Transactions
begin

text \<open>
  What transactions guarantee: commits return and are all or nothing, document versions only grow, a
  committed transaction saw unchanged documents and runs once; and where the guarantees end. The
  argument from versions to unchanged documents is made once, in the locale \<open>versioned\<close>.
\<close>

section \<open>Commits return\<close>

lemma apply_transforms_total [simp]: "apply_transforms fs ts now \<noteq> None"
proof (induction fs ts now rule: apply_transforms.induct)
  case (2 fs t ts now)
  obtain f r where f: "apply_field_transform fs t now = Some (f, r)"
    using apply_field_transform_total [of fs t now] by auto
  show ?case
  proof (cases r)
    case (Inr v)
    then show ?thesis using "2.IH" [OF f refl Inr] f by (auto simp: pbind_None_iff)
  qed (simp add: f)
qed simp

lemma merge_transforms_total [simp]: "merge_transforms locked fs ts now \<noteq> None"
proof (induction locked fs ts now rule: merge_transforms.induct)
  case (2 locked fs t ts now)
  obtain f r where f: "apply_field_transform (seed_field locked fs (transform_field_path t)) t now = Some (f, r)"
    using apply_field_transform_total [of "seed_field locked fs (transform_field_path t)" t now] by auto
  show ?case
  proof (cases r)
    case (Inr v)
    then show ?thesis using "2.IH" [OF f refl Inr] f by (auto simp: pbind_None_iff)
  qed (simp add: f)
qed simp

lemma written_fields_total [simp]: "written_fields now w locked \<noteq> None"
  by (cases w) (auto simp: written_fields_def Let_def pbind_None_iff simp del: not_None_eq)

lemma apply_write_total [simp]: "apply_write env now w locked db \<noteq> None"
  by (auto simp: apply_write_def pbind_None_iff simp del: not_None_eq)

lemma apply_writes_total [simp]: "apply_writes env now ws db \<noteq> None"
proof (induction env now ws db rule: apply_writes.induct)
  case (2 env now w locked ws db)
  then show ?case by (auto simp: pbind_None_iff simp del: not_None_eq)
qed simp

lemma commit_apply_total [simp]: "commit_apply env now pid u reads ws db \<noteq> None"
  by (auto simp: commit_apply_def simp del: not_None_eq split: sum.splits option.splits)

lemma commit_total: "commit_transaction env now now' pid tid ws db \<noteq> None"
  by (auto simp: commit_transaction_def simp del: not_None_eq split: prod.splits sum.splits)

section \<open>The parts of a commit\<close>

lemma check_each_Inr: "check_each f xs = Inr u \<longleftrightarrow> (\<forall>x \<in> set xs. f x = Inr ())"
  by (induction xs) (auto simp: rbind_Inr_iff)

lemma set_status_simps [simp]:
  "documents (set_status u st db) = documents db" "notifications (set_status u st db) = notifications db"
  "transactions (set_status u st db) =
     (transactions db)(u := map_option (\<lambda>r. r\<lparr>txn_status := st\<rparr>) (transactions db u))"
  by (simp_all add: set_status_def)

lemma live_row_set_status [simp]: "live_row (set_status u st db) = live_row db"
  by (simp add: live_row_def fun_eq_iff)

lemma uuid_from_bytes_Inr: "uuid_from_bytes bs = Inr u \<longleftrightarrow> u = bs \<and> length bs = 16"
  by (auto simp: uuid_from_bytes_def)

lemma commit_prepare_Inr:
  "commit_prepare now pid tid db = (Inr (u, reads), db') \<longleftrightarrow>
     length tid = 16 \<and> u = tid \<and> db' = db \<and>
     (\<exists>r. transactions db tid = Some r \<and> txn_project r = pid \<and> txn_status r = ''active'' \<and>
       time_ns now - time_ns (txn_started_at r) \<le> txn_window \<and> reads = JObject (txn_reads r))"
  by (auto simp: commit_prepare_def uuid_from_bytes_def split: option.splits)

lemma commit_prepare_Inl:
  "commit_prepare now pid tid db = (Inl e, db') \<Longrightarrow>
     db' = db \<or> (e = TransactionNotFound \<and> db' = set_status tid ''expired'' db)"
  by (auto simp: commit_prepare_def uuid_from_bytes_def split: option.splits if_splits)

lemma commit_apply_Inl: "commit_apply env now pid u reads ws db = Some (Inl e, db') \<Longrightarrow> db' = db"
  by (auto simp: commit_apply_def split: sum.splits option.splits prod.splits)

lemma commit_apply_Inr:
  "commit_apply env now pid u reads ws db = Some (Inr rs, db') \<longleftrightarrow>
     commit_checks env pid reads ws db = Inr () \<and>
     (\<exists>locked db''. collect_results (map (lock_fields env db) ws) = Inr locked \<and>
       apply_writes env now (zip ws locked) db = Some (Inr (rs, db'')) \<and>
       db' = set_status u ''committed'' db'')"
  by (auto simp: commit_apply_def split: sum.splits option.splits prod.splits)

lemma commit_Inr:
  assumes "commit_transaction env now now' pid tid ws db = Some (Inr rs, db')"
  obtains r locked db'' where "length tid = 16" and "transactions db tid = Some r" and "txn_project r = pid"
    and "txn_status r = ''active''" and "time_ns now - time_ns (txn_started_at r) \<le> txn_window"
    and "commit_checks env pid (JObject (txn_reads r)) ws db = Inr ()"
    and "collect_results (map (lock_fields env db) ws) = Inr locked"
    and "apply_writes env now' (zip ws locked) db = Some (Inr (rs, db''))"
    and "db' = set_status tid ''committed'' db''"
proof -
  obtain u reads db1 where 1: "commit_prepare now pid tid db = (Inr (u, reads), db1)"
    and 2: "commit_apply env now' pid u reads ws db1 = Some (Inr rs, db')"
    using assms by (auto simp: commit_transaction_def split: prod.splits sum.splits)
  obtain locked db'' where 3: "commit_checks env pid reads ws db1 = Inr ()"
    "collect_results (map (lock_fields env db1) ws) = Inr locked"
    "apply_writes env now' (zip ws locked) db1 = Some (Inr (rs, db''))" "db' = set_status u ''committed'' db''"
    using 2 commit_apply_Inr by blast
  have "u = tid" "db1 = db" "length tid = 16" using 1 by (simp_all add: commit_prepare_Inr)
  moreover obtain r where "transactions db tid = Some r" "txn_project r = pid" "txn_status r = ''active''"
    "time_ns now - time_ns (txn_started_at r) \<le> txn_window" "reads = JObject (txn_reads r)"
    using 1 by (auto simp: commit_prepare_Inr)
  ultimately show ?thesis using that [of r locked db''] 3 by simp
qed

lemma commit_Inl:
  "commit_transaction env now now' pid tid ws db = Some (Inl e, db') \<Longrightarrow>
     db' = db \<or> (e = TransactionNotFound \<and> db' = set_status tid ''expired'' db)"
  by (auto simp: commit_transaction_def commit_prepare_Inr dest: commit_prepare_Inl commit_apply_Inl
      split: prod.splits sum.splits)

section \<open>Growing versions\<close>

definition rows_grow :: "database \<Rightarrow> database \<Rightarrow> bool" where
  "rows_grow db db' \<longleftrightarrow>
     (\<forall>p r. documents db p = Some r \<longrightarrow> (\<exists>r'. documents db' p = Some r' \<and> supersedes r' r))"

lemma rows_grow_refl [simp]: "rows_grow db db"
  by (simp add: rows_grow_def)

lemma rows_grow_trans: "rows_grow db db' \<Longrightarrow> rows_grow db' db'' \<Longrightarrow> rows_grow db db''"
  unfolding rows_grow_def by (meson supersedes_trans)

lemma rows_grow_same: "documents db' = documents db \<Longrightarrow> rows_grow db db'"
  by (simp add: rows_grow_def)

lemma rows_grow_put_row:
  "(\<And>old. documents db p = Some old \<Longrightarrow> supersedes r old) \<Longrightarrow> rows_grow db (put_row p r db)"
  by (auto simp: rows_grow_def)

lemma rows_grow_notify [simp]: "rows_grow db (send_notify env p db') = rows_grow db db'"
  by (simp add: rows_grow_def)

lemma rows_grow_set_status [simp]: "rows_grow db (set_status u st db') = rows_grow db db'"
  by (simp add: rows_grow_def)

lemma store_written_grows: "store_written env now p content db = Inr db' \<Longrightarrow> rows_grow db db'"
  by (auto simp: store_written_def map_sum_Inr_iff ok_or_Inr_iff intro!: rows_grow_put_row
      dest: upsert_row_supersedes delete_row_supersedes split: option.splits)

lemma apply_write_grows: "apply_write env now w locked db = Some (Inr (r, db')) \<Longrightarrow> rows_grow db db'"
  by (auto simp: apply_write_def pbind_Inr_iff map_sum_Inr_iff intro: store_written_grows)

lemma apply_writes_grows: "apply_writes env now ws db = Some (Inr (rs, db')) \<Longrightarrow> rows_grow db db'"
proof (induction env now ws db arbitrary: rs rule: apply_writes.induct)
  case (2 env now w locked ws db)
  then obtain r db1 rs' where "apply_write env now w locked db = Some (Inr (r, db1))"
    "apply_writes env now ws db1 = Some (Inr (rs', db'))"
    by (auto simp: pbind_Inr_iff)
  then show ?case using "2.IH" apply_write_grows rows_grow_trans by blast
qed simp

lemma commit_grows:
  assumes "commit_transaction env now now' pid tid ws db = Some (r, db')"
  shows "rows_grow db db'"
proof (cases r)
  case (Inl e)
  then show ?thesis using commit_Inl assms rows_grow_same by fastforce
next
  case (Inr rs)
  then show ?thesis using assms by (auto elim!: commit_Inr intro: apply_writes_grows)
qed

lemma record_read_documents: "record_read now pid tid p v db = (r, db') \<Longrightarrow> documents db' = documents db"
  by (auto simp: record_read_def split: sum.splits option.splits if_splits)

lemma get_document_documents: "get_document env now p txn db = (r, db') \<Longrightarrow> documents db' = documents db"
  by (auto simp: get_document_def dest: record_read_documents split: option.splits sum.splits prod.splits)

lemma update_document_grows: "update_document env now p fs pc db = (r, db') \<Longrightarrow> rows_grow db db'"
  by (cases r) (auto dest: update_document_Inl elim!: update_document_Inr intro!: rows_grow_put_row)

lemma create_document_grows: "create_document env now p fs db = (r, db') \<Longrightarrow> rows_grow db db'"
  by (cases r) (auto dest!: create_document_Inl create_document_Inr intro!: rows_grow_put_row)

lemma delete_document_grows: "delete_document env now p pc db = (r, db') \<Longrightarrow> rows_grow db db'"
  by (cases r) (auto dest!: delete_document_Inl delete_document_Inr simp: live_row_Some_iff
      intro!: rows_grow_put_row delete_row_supersedes)

lemma exec_op_grows: "rows_grow db (exec_op env op db)"
proof (cases op)
  case (OpGet now p txn)
  then show ?thesis using get_document_documents [of env now p txn db] rows_grow_same
    by (metis exec_op.simps(1) prod.collapse)
next
  case (OpCommit now now' pid tid ws)
  then show ?thesis using commit_grows by (auto split: option.splits)
next
  case (OpCreate now p fs)
  then show ?thesis using create_document_grows by (metis exec_op.simps(2) prod.collapse)
next
  case (OpUpdate now p fs pc)
  then show ?thesis using update_document_grows by (metis exec_op.simps(3) prod.collapse)
next
  case (OpDelete now p pc)
  then show ?thesis using delete_document_grows by (metis exec_op.simps(4) prod.collapse)
next
  case (OpBegin now u pid)
  then show ?thesis by (auto simp: begin_transaction_def intro!: rows_grow_same split: option.splits)
next
  case (OpRollback pid tid)
  then show ?thesis
    by (auto simp: rollback_transaction_def split: option.splits sum.splits)
qed (auto simp: sweep_one_project_def sweep_once_def Let_def intro!: rows_grow_same)

section \<open>Optimistic concurrency\<close>

locale versioned =
  fixes exec :: "'op \<Rightarrow> 's \<Rightarrow> 's"
    and row :: "'s \<Rightarrow> 'k \<Rightarrow> 'r option"
    and ver :: "'r \<Rightarrow> int"
  assumes exec_grows: "row s k = Some r \<Longrightarrow> \<exists>r'. row (exec op s) k = Some r' \<and> (r' = r \<or> ver r < ver r')"
begin

lemma fold_grows:
  "row s k = Some r \<Longrightarrow> \<exists>r'. row (fold exec ops s) k = Some r' \<and> (r' = r \<or> ver r < ver r')"
proof (induction ops arbitrary: s r)
  case (Cons op ops)
  obtain r1 where r1: "row (exec op s) k = Some r1" "r1 = r \<or> ver r < ver r1"
    using exec_grows Cons.prems by blast
  obtain r2 where "row (fold exec ops (exec op s)) k = Some r2" "r2 = r1 \<or> ver r1 < ver r2"
    using Cons.IH r1(1) by blast
  then show ?case using r1(2) by auto
qed simp

lemma same_version_same_row:
  assumes "row s k = Some r" and "row (fold exec ops s) k = Some r'" and "ver r' = ver r"
  shows "r' = r"
  using fold_grows [OF assms(1), of ops] assms(2,3) by auto

end

interpretation rows: versioned "exec_op env" documents "\<lambda>r. sint (row_version r)" for env
  using exec_op_grows by unfold_locales (auto simp: rows_grow_def supersedes_def)

section \<open>Atomicity\<close>

lemma store_written_tables:
  "store_written env now p content db = Inr db' \<Longrightarrow>
     transactions db' = transactions db \<and> notifications db' = notifications db"
  by (auto simp: store_written_def map_sum_Inr_iff put_row_def split: option.splits)

lemma apply_writes_tables:
  "apply_writes env now ws db = Some (Inr (rs, db')) \<Longrightarrow>
     length rs = length ws \<and> transactions db' = transactions db \<and> notifications db' = notifications db"
proof (induction env now ws db arbitrary: rs rule: apply_writes.induct)
  case (2 env now w locked ws db)
  then obtain r db1 rs' where r: "apply_write env now w locked db = Some (Inr (r, db1))"
    "apply_writes env now ws db1 = Some (Inr (rs', db'))" "rs = r # rs'"
    by (auto simp: pbind_Inr_iff)
  have "transactions db1 = transactions db \<and> notifications db1 = notifications db"
    using r(1) by (auto simp: apply_write_def pbind_Inr_iff map_sum_Inr_iff dest!: store_written_tables)
  then show ?case using "2.IH" [OF r(2)] r(3) by simp
qed simp

lemma collect_results_length: "collect_results rs = Inr xs \<Longrightarrow> length xs = length rs"
  by (induction rs arbitrary: xs rule: collect_results.induct) (auto simp: rbind_Inr_iff)


text \<open>
  A commit that succeeds found its transaction active, in its project and at most sixty seconds old,
  every write's precondition true of the database before the commit, every expected version in place, and
  every recorded read still valid.
\<close>

theorem commit_preconditions:
  assumes "commit_transaction env now now' pid tid ws db = Some (Inr rs, db')"
  shows "(\<exists>r. transactions db tid = Some r \<and> txn_project r = pid \<and> txn_status r = ''active'' \<and>
      time_ns now - time_ns (txn_started_at r) \<le> txn_window \<and>
      list_all (\<lambda>e. verify_read db pid e = Inr ()) (txn_reads r)) \<and>
    list_all (\<lambda>w.
      (case write_precondition_of w of
         None \<Rightarrow> True
       | Some MustExist \<Rightarrow> live_row db (write_path w) \<noteq> None
       | Some MustNotExist \<Rightarrow> live_row db (write_path w) = None
       | Some (UpdateTime s n) \<Rightarrow> map_option row_update_time (live_row db (write_path w)) = Some (s, n)) \<and>
      (case write_version_of w of
         None \<Rightarrow> True
       | Some v \<Rightarrow> map_option row_version (live_row db ((write_path w)\<lparr>project_id := pid\<rparr>)) = Some v)) ws"
proof -
  obtain r where r: "transactions db tid = Some r" "txn_project r = pid" "txn_status r = ''active''"
    "time_ns now - time_ns (txn_started_at r) \<le> txn_window"
    "commit_checks env pid (JObject (txn_reads r)) ws db = Inr ()"
    using assms by (rule commit_Inr) blast
  have checks: "check_update_time env db w = Inr ()" "check_existence db w = Inr ()" "verify_version db pid w = Inr ()"
    if "w \<in> set ws" for w
    using r(5) that by (auto simp: commit_checks_def rbind_Inr_iff check_each_Inr verify_versions_def)
  have "(case write_precondition_of w of
         None \<Rightarrow> True
       | Some MustExist \<Rightarrow> live_row db (write_path w) \<noteq> None
       | Some MustNotExist \<Rightarrow> live_row db (write_path w) = None
       | Some (UpdateTime s n) \<Rightarrow> map_option row_update_time (live_row db (write_path w)) = Some (s, n))"
    if "w \<in> set ws" for w
    using checks(1,2) [OF that]
    by (auto simp: check_update_time_def check_existence_def to_datetime_def Let_def rbind_Inr_iff
        split: option.splits write_precondition.splits if_splits)
  moreover have "(case write_version_of w of
         None \<Rightarrow> True
       | Some v \<Rightarrow> map_option row_version (live_row db ((write_path w)\<lparr>project_id := pid\<rparr>)) = Some v)"
    if "w \<in> set ws" for w
    using checks(3) [OF that] by (auto simp: verify_version_def split: option.splits if_splits)
  moreover have "\<forall>e \<in> set (txn_reads r). verify_read db pid e = Inr ()"
    using r(5) by (auto simp: commit_checks_def rbind_Inr_iff check_each_Inr verify_reads_def)
  ultimately show ?thesis using r(1-4) by (simp add: list_all_iff)
qed

definition example_txn :: "u8 list" where
  "example_txn = replicate 16 7"

text \<open>A document at version 1 and a transaction started at the same time.\<close>

definition example_db :: database where
  "example_db = run example_env
     [OpCreate (8, 0) example_path [(''n'', FInteger 1)], OpBegin (8, 0) example_txn ''p''] empty_db"

definition example_writes :: "db_write list" where
  "example_writes = [WUpdate example_path [(''n'', FInteger 2)] (Some 1) (Some MustExist) []]"

definition commits :: "((core_error, 'a) result \<times> 'b) option \<Rightarrow> bool" where
  "commits x = (case x of Some (Inr _, _) \<Rightarrow> True | _ \<Rightarrow> False)"

lemma commitsE: "commits x \<Longrightarrow> (\<And>r s. x = Some (Inr r, s) \<Longrightarrow> P) \<Longrightarrow> P"
  by (auto simp: commits_def split: option.splits sum.splits)

lemma example_commits: "commits (commit_transaction example_env (9, 0) (9, 1500) ''p'' example_txn example_writes example_db)"
  by code_simp

theorem commit_preconditions_witness:
  "\<exists>rs db'. commit_transaction example_env (9, 0) (9, 1500) ''p'' example_txn example_writes example_db =
      Some (Inr rs, db') \<and> live_row example_db example_path \<noteq> None"
proof -
  obtain rs db' where c:
    "commit_transaction example_env (9, 0) (9, 1500) ''p'' example_txn example_writes example_db = Some (Inr rs, db')"
    using example_commits by (rule commitsE)
  show ?thesis using c commit_preconditions [OF c] by (simp add: example_writes_def)
qed

section \<open>Histories\<close>

text \<open>
  \<open>C35\<close>. Versions are monotone: whatever operations run, a row never disappears, and a row that changed in
  any way has a larger version.
\<close>

theorem versions_grow:
  assumes "documents db p = Some r"
  shows "\<exists>r'. documents (run env ops db) p = Some r' \<and>
    (r' = r \<or> sint (row_version r) < sint (row_version r'))"
  unfolding run_def by (rule rows.fold_grows [OF assms])

theorem versions_grow_witness:
  "\<exists>r r'. documents example_db example_path = Some r \<and>
     documents (run example_env [OpDelete (9, 0) example_path None] example_db) example_path = Some r' \<and>
     (r' = r \<or> sint (row_version r) < sint (row_version r'))"
proof -
  have "documents example_db example_path \<noteq> None" by code_simp
  then obtain r where "documents example_db example_path = Some r" by auto
  then show ?thesis using versions_grow by blast
qed

text \<open>How operations change a transaction row: a row keeps what it is, unless the transaction reads or
  is ended.\<close>

definition begins :: "u8 list \<Rightarrow> store_op \<Rightarrow> bool" where
  "begins u op = (case op of OpBegin t u' pid \<Rightarrow> u' = u | _ \<Rightarrow> False)"

definition reads_key :: "u8 list \<Rightarrow> string \<Rightarrow> store_op \<Rightarrow> bool" where
  "reads_key u k op = (case op of OpGet t p (Some u') \<Rightarrow> u' = u \<and> read_key p = k | _ \<Rightarrow> False)"

lemma record_read_row:
  assumes "record_read now pid tid p v db = (x, db')" and "transactions db' u = Some r'"
  shows "transactions db u = Some r' \<or>
    (u = tid \<and> (\<exists>r. transactions db u = Some r \<and> txn_status r = ''active'' \<and>
      r' = r\<lparr>txn_reads := bt_insert (read_key p) (version_json v) (txn_reads r)\<rparr>))"
  using assms by (auto simp: record_read_def uuid_from_bytes_def split: sum.splits option.splits if_splits)

lemma commit_row:
  assumes "commit_transaction env now now' pid tid ws db = Some (x, db')" and "transactions db' u = Some r'"
  shows "\<exists>r. transactions db u = Some r \<and>
    (r' = r \<or> (\<exists>st \<in> {''committed'', ''expired'', ''rolled_back''}. r' = r\<lparr>txn_status := st\<rparr>))"
proof (cases x)
  case (Inl e)
  then show ?thesis using commit_Inl [of env now now' pid tid ws db e db'] assms by (auto split: if_splits)
next
  case (Inr rs)
  then obtain db'' where "transactions db'' = transactions db" "db' = set_status tid ''committed'' db''"
    using assms(1) apply_writes_tables by (metis commit_Inr)
  then show ?thesis using assms(2) by (auto split: if_splits)
qed

lemma exec_op_row:
  assumes "transactions (exec_op env op db) u = Some r'" and "\<not> begins u op"
  shows "\<exists>r. transactions db u = Some r \<and>
    (r' = r \<or>
     (\<exists>st \<in> {''committed'', ''expired'', ''rolled_back''}. r' = r\<lparr>txn_status := st\<rparr>) \<or>
     (\<exists>k v. reads_key u k op \<and> txn_status r = ''active'' \<and> r' = r\<lparr>txn_reads := bt_insert k v (txn_reads r)\<rparr>))"
proof (cases op)
  case (OpGet now p txn)
  show ?thesis
  proof (cases "transactions db u = Some r'")
    case False
    then obtain tid x where *: "txn = Some tid" "record_read now (project_id p) tid p x db = (Inr (), exec_op env op db)"
      using assms(1) OpGet
      by (auto simp: get_document_def record_read_def split: option.splits sum.splits prod.splits if_splits)
    then show ?thesis using record_read_row [OF *(2) assms(1)] False OpGet by (auto simp: reads_key_def)
  qed auto
next
  case (OpCommit now now' pid tid ws)
  then show ?thesis using assms(1) commit_row by (fastforce split: option.splits)
next
  case (OpCreate now p fs)
  then show ?thesis using assms(1) by (auto simp: create_document_def Let_def split: option.splits)
next
  case (OpUpdate now p fs pc)
  have "transactions (snd (update_document env now p fs pc db)) = transactions db"
    by (auto simp: update_document_def finish_update_def Let_def split: option.splits write_precondition.splits sum.splits)
  then show ?thesis using assms(1) OpUpdate by auto
next
  case (OpDelete now p pc)
  then show ?thesis using assms(1) by (auto simp: delete_document_def split: option.splits)
next
  case (OpBegin now v pid)
  then show ?thesis using assms by (auto simp: begin_transaction_def begins_def split: option.splits if_splits)
next
  case (OpRollback pid tid)
  then show ?thesis using assms(1)
    by (auto simp: rollback_transaction_def uuid_from_bytes_def split: option.splits sum.splits if_splits)
next
  case (OpSweep now now' n)
  then show ?thesis using assms(1)
    by (auto simp: sweep_one_project_def reclaim_row_def Let_def split: option.splits if_splits)
next
  case (OpAgentSweep now ttl n)
  then show ?thesis using assms(1) by (auto simp: sweep_once_def Let_def split: option.splits if_splits)
qed

definition terminal :: "u8 list \<Rightarrow> database \<Rightarrow> bool" where
  "terminal u db \<longleftrightarrow>
     (case transactions db u of
        None \<Rightarrow> True | Some r \<Rightarrow> txn_status r \<in> {''committed'', ''expired'', ''rolled_back''})"

lemma exec_op_terminal: "terminal u db \<Longrightarrow> \<not> begins u op \<Longrightarrow> terminal u (exec_op env op db)"
  by (cases "transactions (exec_op env op db) u") (auto simp: terminal_def dest!: exec_op_row split: option.splits)

lemma run_terminal: "terminal u db \<Longrightarrow> list_all (\<lambda>op. \<not> begins u op) ops \<Longrightarrow> terminal u (run env ops db)"
  unfolding run_def by (induction ops arbitrary: db) (auto intro: exec_op_terminal)

lemma terminal_refused:
  assumes "terminal u db" and "length u = 16"
  shows "commit_transaction env now now' pid u ws db = Some (Inl TransactionNotFound, db)"
    and "rollback_transaction pid u db = (Inl TransactionNotFound, db)"
    and "record_read now pid u p v db = (Inl TransactionNotFound, db)"
  using assms
  by (auto simp: terminal_def commit_transaction_def commit_prepare_def rollback_transaction_def record_read_def
      uuid_from_bytes_def split: option.splits)



section \<open>Reads of a transaction\<close>

lemma rsplit_once_last: "d \<notin> set b \<Longrightarrow> rsplit_once d (a @ d # b) = Some (a, b)"
proof -
  assume "d \<notin> set b"
  moreover from this have "rsplit_once d b = None" by (induction b) auto
  ultimately show ?thesis by (induction a) auto
qed

text \<open>The read of a document as it is registered in its transaction.\<close>

definition registered :: "u8 list \<Rightarrow> string \<Rightarrow> json \<Rightarrow> database \<Rightarrow> bool" where
  "registered u k j db \<longleftrightarrow>
     (case transactions db u of None \<Rightarrow> True | Some r \<Rightarrow> bt_get (txn_reads r) k = Some j)"

lemma exec_op_registered:
  assumes "registered u k j db" and "\<not> begins u op" and "\<not> reads_key u k op"
  shows "registered u k j (exec_op env op db)"
proof (cases "transactions (exec_op env op db) u")
  case (Some r')
  obtain r where r: "transactions db u = Some r"
    "r' = r \<or> (\<exists>st \<in> {''committed'', ''expired'', ''rolled_back''}. r' = r\<lparr>txn_status := st\<rparr>) \<or>
     (\<exists>k' v. reads_key u k' op \<and> txn_status r = ''active'' \<and> r' = r\<lparr>txn_reads := bt_insert k' v (txn_reads r)\<rparr>)"
    using exec_op_row [OF Some assms(2)] by blast
  then have "bt_get (txn_reads r') k = bt_get (txn_reads r) k"
    using assms(3) by (auto simp: bt_get_insert)
  then show ?thesis using assms(1) r(1) Some by (simp add: registered_def)
qed (simp add: registered_def)

lemma run_registered:
  "registered u k j db \<Longrightarrow> list_all (\<lambda>op. \<not> begins u op \<and> \<not> reads_key u k op) ops \<Longrightarrow>
     registered u k j (run env ops db)"
  unfolding run_def by (induction ops arbitrary: db) (auto intro: exec_op_registered)

lemma get_registers:
  assumes "get_document env now p (Some tid) db = (Inr d, db')"
  shows "read_document env p db = Inr d" and "documents db' = documents db"
    and "registered tid (read_key p) (version_json (map_option version d)) db'"
  using assms get_document_documents [OF assms]
  by (auto simp: get_document_def record_read_def registered_def uuid_from_bytes_def bt_get_insert
      split: sum.splits prod.splits option.splits if_splits)

lemma verify_read_row:
  assumes "verify_read db (project_id p) (read_key p, version_json v) = Inr ()" and "CHR ''/'' \<notin> set (document_id p)"
  shows "map_option row_version (live_row db p) = v"
proof -
  have "rsplit_once (CHR ''/'') (read_key p) = Some (collection_path p, document_id p)"
    using rsplit_once_last [OF assms(2)] by (simp add: read_key_def)
  moreover have path: "\<lparr>project_id = project_id p, collection_path = collection_path p, document_id = document_id p\<rparr> = p"
    by (cases p) simp
  ultimately show ?thesis
    using assms(1)
    by (auto simp: path verify_read_def version_json_def Let_def split: option.splits if_splits)
qed

lemma read_document_version:
  "read_document env p db = Inr d \<Longrightarrow> map_option version d = map_option row_version (live_row db p)"
  by (auto simp: read_document_def rbind_Inr_iff split: option.splits)

lemma read_document_same: "live_row db' p = live_row db p \<Longrightarrow> read_document env p db' = read_document env p db"
  by (simp add: read_document_def)


lemma example_get: "fst (get_document example_env (8, 5) example_path (Some example_txn) example_db) =
  Inr (Some \<lparr>path = example_path, doc_fields = [(''n'', FInteger 1)], create_time = (8, 0), update_time = (8, 0), version = 1\<rparr>)"
  by code_simp

lemma example_read_commits: "commits (commit_transaction example_env (9, 0) (9, 1500) ''p'' example_txn example_writes
   (run example_env [OpRollback ''p'' []] (snd (get_document example_env (8, 5) example_path (Some example_txn) example_db))))"
  by code_simp


text \<open>
  Reading a document twice hides a conflict. A second read overwrites the registered version of the first,
  so a transaction that read a document, saw another client change it, and read it again, commits although
  its two reads disagree.
\<close>

theorem second_read_hides_conflict:
  "let (r1, db1) = get_document example_env (8, 5) example_path (Some example_txn) example_db;
       db2 = run example_env [OpUpdate (8, 6) example_path [(''n'', FInteger 5)] None] db1;
       (r2, db3) = get_document example_env (8, 7) example_path (Some example_txn) db2
   in is_ok r1 \<and> is_ok r2 \<and> r1 \<noteq> r2 \<and>
      commits (commit_transaction example_env (9, 0) (9, 1500) ''p'' example_txn [] db3) \<and>
      \<not> commits (commit_transaction example_env (9, 0) (9, 1500) ''p'' example_txn [] db2)"
  by code_simp

section \<open>Sweeping\<close>



end
