(* ===== verification/Store_Refinement.thy ===== *)
theory Store_Refinement
  imports Transaction_Safety
begin

text \<open>
  The store as its clients see it: a partial map from paths to fields. \<open>view\<close> abstracts the tables to
  this map, the operations are specified on it, and the models of the single-document operations and of
  \<open>commit_transaction\<close> refine their specifications. The refinement of a commit holds for batches in
  which no transform follows a write to the same document; the last theorems show what happens outside.
\<close>

section \<open>The abstract store\<close>

type_synonym store_view = "document_path \<Rightarrow> fields option"

definition view :: "store_env \<Rightarrow> database \<Rightarrow> store_view" where
  "view env db p = Option.bind (live_row db p) (\<lambda>r. json_to_fields (b64_decode env) (row_fields r))"

text \<open>What a document reads as after being stored.\<close>

definition stored :: "store_env \<Rightarrow> fields \<Rightarrow> fields option" where
  "stored env fs = json_to_fields (b64_decode env) (jsonb env (fields_to_json (b64_encode env) fs))"

definition spec_put :: "store_env \<Rightarrow> document_path \<Rightarrow> fields option \<Rightarrow> store_view \<Rightarrow> store_view" where
  "spec_put env p content m = m(p := Option.bind content (stored env))"

text \<open>A write of a batch, with its transforms applied to the current fields.\<close>

definition spec_write :: "store_env \<Rightarrow> date_time \<Rightarrow> store_view \<Rightarrow> db_write \<Rightarrow> store_view" where
  "spec_write env now m w =
     (case written_fields now w (Some (case m (write_path w) of Some fs \<Rightarrow> fs | None \<Rightarrow> [])) of
        Some (Inr (content, vs)) \<Rightarrow> spec_put env (write_path w) content m
      | _ \<Rightarrow> m)"

lemma view_notify [simp]: "view env (send_notify env' p db) = view env db"
  by (simp add: view_def fun_eq_iff)

lemma view_set_status [simp]: "view env (set_status u st db) = view env db"
  by (simp add: view_def fun_eq_iff)

lemma view_same: "documents db' = documents db \<Longrightarrow> view env db' = view env db"
  by (simp add: view_def live_row_def fun_eq_iff)

lemma view_put_row:
  "view env (put_row p r db) =
     (view env db)(p := (if row_deleted r then None else json_to_fields (b64_decode env) (row_fields r)))"
  by (auto simp: view_def live_row_put_row)

lemma view_delete_row: "delete_row now r = Some r' \<Longrightarrow> view env (put_row p r' db) = (view env db)(p := None)"
  by (auto simp: view_put_row delete_row_def)

lemma view_upsert_row:
  "upsert_row env (fields_to_json (b64_encode env) fs) now old = Some r \<Longrightarrow>
     view env (put_row p r db) = (view env db)(p := stored env fs)"
  using upsert_row_fields [of env "fields_to_json (b64_encode env) fs" now old r]
  by (simp add: view_put_row stored_def)

lemma view_store_written:
  assumes "store_written env now p content db = Inr db'"
  shows "view env db' = spec_put env p content (view env db)"
proof (cases content)
  case None
  show ?thesis
  proof (cases "documents db p")
    case None
    then have "view env db p = None" by (simp add: view_def live_row_def)
    then show ?thesis using assms None \<open>content = None\<close> by (auto simp: store_written_def spec_put_def)
  next
    case (Some r)
    then show ?thesis
      using assms \<open>content = None\<close>
      by (auto simp: store_written_def spec_put_def map_sum_Inr_iff ok_or_Inr_iff dest: view_delete_row)
  qed
next
  case (Some fs)
  then show ?thesis
    using assms by (auto simp: store_written_def spec_put_def map_sum_Inr_iff ok_or_Inr_iff dest: view_upsert_row)
qed

section \<open>Single documents\<close>

text \<open>
  The single-document operations refine a map of documents: a successful create or update sets the
  entry of its path, a successful delete removes it, no operation touches another entry, a refused operation
  touches none, and a read returns the entry.
\<close>

theorem store_refines_map:
  "view env (snd (update_document env now p fs pc db)) =
      (if is_ok (fst (update_document env now p fs pc db)) then spec_put env p (Some fs) (view env db) else view env db) \<and>
   view env (snd (create_document env now p fs db)) =
      (if is_ok (fst (create_document env now p fs db)) then spec_put env p (Some fs) (view env db) else view env db) \<and>
   view env (snd (delete_document env now p pc db)) =
      (if is_ok (fst (delete_document env now p pc db)) then spec_put env p None (view env db) else view env db) \<and>
   (case read_document env p db of Inr d \<Rightarrow> map_option doc_fields d | Inl e \<Rightarrow> None) = view env db p"
proof (intro conjI)
  show "view env (snd (update_document env now p fs pc db)) =
      (if is_ok (fst (update_document env now p fs pc db)) then spec_put env p (Some fs) (view env db) else view env db)"
  proof (cases "update_document env now p fs pc db")
    case (Pair r db')
    then show ?thesis
      by (cases r) (auto dest: update_document_Inl elim!: update_document_Inr
          simp: view_put_row spec_put_def stored_def)
  qed
  show "view env (snd (create_document env now p fs db)) =
      (if is_ok (fst (create_document env now p fs db)) then spec_put env p (Some fs) (view env db) else view env db)"
  proof (cases "create_document env now p fs db")
    case (Pair r db')
    then show ?thesis
      by (cases r) (auto dest!: create_document_Inl create_document_Inr
          simp: view_put_row spec_put_def stored_def new_row_def)
  qed
  show "view env (snd (delete_document env now p pc db)) =
      (if is_ok (fst (delete_document env now p pc db)) then spec_put env p None (view env db) else view env db)"
  proof (cases "delete_document env now p pc db")
    case (Pair r db')
    then show ?thesis
      by (cases r) (auto dest!: delete_document_Inl delete_document_Inr simp: view_delete_row spec_put_def)
  qed
  show "(case read_document env p db of Inr d \<Rightarrow> map_option doc_fields d | Inl e \<Rightarrow> None) = view env db p"
    by (auto simp: read_document_def view_def decode_fields_def ok_or_def split: option.splits)
qed

section \<open>Batches\<close>

fun uses_transforms :: "db_write \<Rightarrow> bool" where
  "uses_transforms (WUpdate p fs v pc ts) = (ts \<noteq> [])"
| "uses_transforms (WDelete p v pc) = False"
| "uses_transforms (WTransform p ts) = True"

text \<open>No write with transforms comes after another write to its document.\<close>

fun transforms_first :: "document_path list \<Rightarrow> db_write list \<Rightarrow> bool" where
  "transforms_first seen [] = True"
| "transforms_first seen (w # ws) \<longleftrightarrow>
     \<not> (uses_transforms w \<and> write_path w \<in> set seen) \<and> transforms_first (write_path w # seen) ws"

lemma written_fields_unlocked: "\<not> uses_transforms w \<Longrightarrow> written_fields now w locked = written_fields now w locked'"
  by (cases w) (auto simp: written_fields_def Let_def)

lemma lock_fields_view:
  "lock_fields env db w = Inr locked \<Longrightarrow> uses_transforms w \<Longrightarrow>
     locked = Some (case view env db (write_path w) of Some fs \<Rightarrow> fs | None \<Rightarrow> [])"
  by (cases w) (auto simp: lock_fields_def locked_fields_of_def view_def decode_fields_def map_sum_Inr_iff
      ok_or_Inr_iff split: option.splits if_splits)

lemma apply_write_refines:
  assumes "apply_write env now w locked db = Some (Inr (r, db'))"
    and "lock_fields env db0 w = Inr locked"
    and "uses_transforms w \<Longrightarrow> view env db (write_path w) = view env db0 (write_path w)"
  shows "view env db' = spec_write env now (view env db) w"
proof -
  have same: "written_fields now w (Some (case view env db (write_path w) of Some fs \<Rightarrow> fs | None \<Rightarrow> [])) =
      written_fields now w locked"
    using lock_fields_view [OF assms(2)] assms(3) written_fields_unlocked by (cases "uses_transforms w") auto
  obtain content vs where w: "written_fields now w locked = Some (Inr (content, vs))"
    "store_written env now (write_path w) content db = Inr db'"
    using assms(1) by (auto simp: apply_write_def pbind_Inr_iff map_sum_Inr_iff)
  then show ?thesis using view_store_written [OF w(2)] unfolding spec_write_def same by simp
qed

lemma spec_write_other: "p \<noteq> write_path w \<Longrightarrow> spec_write env now m w p = m p"
  by (auto simp: spec_write_def spec_put_def split: option.splits sum.splits)

lemma apply_writes_refine:
  "apply_writes env now (zip ws ls) db = Some (Inr (rs, db')) \<Longrightarrow>
   collect_results (map (lock_fields env db0) ws) = Inr ls \<Longrightarrow>
   transforms_first seen ws \<Longrightarrow>
   (\<And>p. p \<notin> set seen \<Longrightarrow> view env db p = view env db0 p) \<Longrightarrow>
   view env db' = foldl (spec_write env now) (view env db) ws"
proof (induction ws arbitrary: ls rs db seen)
  case (Cons w ws)
  obtain l ls' where l: "ls = l # ls'" "lock_fields env db0 w = Inr l"
    "collect_results (map (lock_fields env db0) ws) = Inr ls'"
    using Cons.prems(2) by (auto simp: rbind_Inr_iff)
  obtain r db1 rs' where a: "apply_write env now w l db = Some (Inr (r, db1))"
    "apply_writes env now (zip ws ls') db1 = Some (Inr (rs', db'))"
    using Cons.prems(1) l(1) by (auto simp: pbind_Inr_iff)
  have v: "view env db1 = spec_write env now (view env db) w"
    using apply_write_refines [OF a(1) l(2)] Cons.prems(3,4) by auto
  have "view env db' = foldl (spec_write env now) (view env db1) ws"
    using Cons.prems(3,4) v
    by (intro Cons.IH [OF a(2) l(3), of "write_path w # seen"]) (auto simp: spec_write_other)
  then show ?case by (simp add: v)
qed simp

text \<open>
  \<open>C6\<close>. A successful commit refines the sequential application of its writes: the documents after the commit
  are those of applying the writes one after the other, each with its transforms on the fields it finds,
  as long as no write with transforms comes after another write to the same document.
\<close>

theorem commit_refines:
  assumes "commit_transaction env now now' pid tid ws db = Some (Inr rs, db')" and "transforms_first [] ws"
  shows "view env db' = foldl (spec_write env now') (view env db) ws"
proof -
  obtain locked db'' where "collect_results (map (lock_fields env db) ws) = Inr locked"
    "apply_writes env now' (zip ws locked) db = Some (Inr (rs, db''))" "db' = set_status tid ''committed'' db''"
    using assms(1) by (rule commit_Inr) blast
  then show ?thesis using apply_writes_refine assms(2) by (metis view_set_status)
qed

theorem commit_refines_witness:
  "\<exists>rs db'. commit_transaction example_env (9, 0) (9, 1500) ''p'' example_txn example_writes example_db =
      Some (Inr rs, db') \<and>
     view example_env db' = foldl (spec_write example_env (9, 1500)) (view example_env example_db) example_writes"
proof -
  obtain rs db' where c:
    "commit_transaction example_env (9, 0) (9, 1500) ''p'' example_txn example_writes example_db = Some (Inr rs, db')"
    using example_commits by (rule commitsE)
  show ?thesis using c commit_refines [OF c] by (simp add: example_writes_def)
qed

section \<open>Where the guarantees end\<close>

text \<open>
  Transforms lose earlier writes of their own batch. The fields that transforms start from are read
  before any write is applied, so of two transform writes to one document in one commit the second starts
  from the fields before the commit, and the first has no effect on the result.
\<close>

theorem batch_transforms_stale:
  assumes "commit_transaction env now now' pid tid [WTransform p ts, WTransform p us] db = Some (Inr rs, db')"
  shows "\<exists>fs vs. apply_transforms (case view env db p of Some fs \<Rightarrow> fs | None \<Rightarrow> []) us (from_datetime now') =
      Some (Inr (fs, vs)) \<and> view env db' p = stored env fs"
proof -
  let ?base = "case view env db p of Some fs \<Rightarrow> fs | None \<Rightarrow> []"
  obtain locked db'' where l: "collect_results (map (lock_fields env db) [WTransform p ts, WTransform p us]) = Inr locked"
    and a: "apply_writes env now' (zip [WTransform p ts, WTransform p us] locked) db = Some (Inr (rs, db''))"
    and db': "db' = set_status tid ''committed'' db''"
    using assms by (rule commit_Inr) blast
  have "lock_fields env db (WTransform p us) = Inr x \<Longrightarrow> x = Some ?base" for x us
    using lock_fields_view [of env db "WTransform p us" x] by simp
  then have "locked = [Some ?base, Some ?base]"
    using l by (auto simp: rbind_Inr_iff)
  then obtain db1 fs vs where "apply_transforms ?base us (from_datetime now') = Some (Inr (fs, vs))"
    "store_written env now' p (Some fs) db1 = Inr db''"
    using a by (auto simp: pbind_Inr_iff apply_write_def written_fields_def Let_def map_sum_Inr_iff)
  then show ?thesis using view_store_written [of env now' p "Some fs" db1 db''] db' by (auto simp: spec_put_def)
qed

definition example_increment :: db_write where
  "example_increment = WTransform example_path [Increment ''n'' (FInteger 1)]"

lemma example_batch_commits:
  "commits (commit_transaction example_env (9, 0) (9, 1500) ''p'' example_txn [example_increment, example_increment] example_db)"
  by code_simp

lemma example_base: "view example_env example_db example_path = Some [(''n'', FInteger 1)]"
  by code_simp

theorem batch_transforms_stale_witness:
  "\<exists>rs db'. commit_transaction example_env (9, 0) (9, 1500) ''p'' example_txn
       [example_increment, example_increment] example_db = Some (Inr rs, db') \<and>
     view example_env db' example_path = Some [(''n'', FInteger 2)]"
proof -
  obtain rs db' where c: "commit_transaction example_env (9, 0) (9, 1500) ''p'' example_txn
       [example_increment, example_increment] example_db = Some (Inr rs, db')"
    using example_batch_commits by (rule commitsE)
  have t: "apply_transforms [(''n'', FInteger 1)] [Increment ''n'' (FInteger 1)] (from_datetime (9, 1500)) =
      Some (Inr ([(''n'', FInteger 2)], [FInteger 2]))"
    by code_simp
  have "stored example_env [(''n'', FInteger 2)] = Some [(''n'', FInteger 2)]" by code_simp
  then show ?thesis
    using c batch_transforms_stale [OF c [unfolded example_increment_def]] t by (auto simp: example_base)
qed

lemma live_row_update [simp]: "live_row (db\<lparr>transactions := t\<rparr>) = live_row db"
  by (simp add: live_row_def fun_eq_iff)

lemma put_row_update: "put_row p r (db\<lparr>transactions := t\<rparr>) = (put_row p r db)\<lparr>transactions := t\<rparr>"
  by (simp add: put_row_def)

lemma store_written_update:
  "store_written env now p content (db\<lparr>transactions := t\<rparr>) =
     map_sum id (\<lambda>d. d\<lparr>transactions := t\<rparr>) (store_written env now p content db)"
  by (auto simp: store_written_def put_row_update ok_or_def split: option.splits)

lemma apply_write_update:
  "apply_write env now w locked (db\<lparr>transactions := t\<rparr>) =
     map_option (map_sum id (map_prod id (\<lambda>d. d\<lparr>transactions := t\<rparr>))) (apply_write env now w locked db)"
proof (cases "written_fields now w locked")
  case (Some x)
  then show ?thesis
    by (cases x; cases "store_written env now (write_path w) (fst (projr x)) db")
      (auto simp: apply_write_def store_written_update)
qed (simp add: apply_write_def)

lemma apply_writes_update:
  "apply_writes env now ws (db\<lparr>transactions := t\<rparr>) =
     map_option (map_sum id (map_prod id (\<lambda>d. d\<lparr>transactions := t\<rparr>))) (apply_writes env now ws db)"
proof (induction env now ws db rule: apply_writes.induct)
  case (2 env now w locked ws db)
  show ?case
  proof (cases "apply_write env now w locked db")
    case (Some x)
    show ?thesis
    proof (cases x)
      case (Inr y)
      then obtain r db1 where y: "y = (r, db1)" by force
      show ?thesis
        using Some Inr y
        by (cases "apply_writes env now ws db1"; cases "the (apply_writes env now ws db1)")
          (auto simp: apply_write_update "2.IH")
    qed (simp add: Some apply_write_update)
  qed (simp add: apply_write_update)
qed simp

lemma commit_checks_update: "commit_checks env pid reads ws (db\<lparr>transactions := t\<rparr>) = commit_checks env pid reads ws db"
  unfolding commit_checks_def check_update_time_def check_existence_def verify_versions_def verify_version_def
    verify_reads_def verify_read_def live_row_update ..

lemma lock_fields_update: "lock_fields env (db\<lparr>transactions := t\<rparr>) = lock_fields env db"
  unfolding lock_fields_def locked_fields_of_def live_row_update ..

text \<open>
  A rollback can be overtaken by the commit it should stop. The commit checks the status of its
  transaction before it opens the Postgres transaction and does not look again, so a rollback that succeeds
  in between changes neither the outcome of the commit nor the documents it writes.
\<close>

theorem rollback_overtaken:
  assumes "commit_prepare now pid tid db = (Inr (u, reads), db1)"
    and "rollback_transaction pid tid db1 = (Inr (), db2)"
    and "commit_apply env now' pid u reads ws db1 = Some (Inr rs, db3)"
  shows "\<exists>db4. commit_apply env now' pid u reads ws db2 = Some (Inr rs, db4) \<and> documents db4 = documents db3 \<and>
    map_option txn_status (transactions db4 tid) = Some ''committed''"
proof -
  have u: "u = tid" using assms(1) by (simp add: commit_prepare_Inr)
  obtain r where r: "transactions db1 tid = Some r" and db2: "db2 = set_status tid ''rolled_back'' db1"
    using assms(2) by (auto simp: rollback_transaction_def uuid_from_bytes_def split: option.splits sum.splits if_splits)
  then obtain t where t: "db2 = db1\<lparr>transactions := t\<rparr>" "t tid \<noteq> None" by (auto simp: set_status_def)
  have same: "commit_checks env pid reads ws db2 = commit_checks env pid reads ws db1"
    "lock_fields env db2 = lock_fields env db1"
    by (simp_all only: t(1) commit_checks_update lock_fields_update)
  obtain locked db'' where "commit_checks env pid reads ws db1 = Inr ()"
    "collect_results (map (lock_fields env db1) ws) = Inr locked"
    "apply_writes env now' (zip ws locked) db1 = Some (Inr (rs, db''))" "db3 = set_status u ''committed'' db''"
    using assms(3) commit_apply_Inr by blast
  then have "commit_apply env now' pid u reads ws db2 = Some (Inr rs, set_status u ''committed'' (db''\<lparr>transactions := t\<rparr>))"
    and "db3 = set_status u ''committed'' db''"
    by (simp_all add: commit_apply_def same, simp add: t(1) apply_writes_update)
  then show ?thesis using t(2) u by auto
qed

theorem rollback_overtaken_witness:
  "\<exists>reads db2 rs db4. commit_prepare (9, 0) ''p'' example_txn example_db = (Inr (example_txn, reads), example_db) \<and>
     rollback_transaction ''p'' example_txn example_db = (Inr (), db2) \<and>
     commit_apply example_env (9, 1500) ''p'' example_txn reads example_writes db2 = Some (Inr rs, db4) \<and>
     map_option txn_status (transactions db4 example_txn) = Some ''committed''"
proof -
  have "commits (Some (commit_prepare (9, 0) ''p'' example_txn example_db))" by code_simp
  then obtain u reads db1 where p: "commit_prepare (9, 0) ''p'' example_txn example_db = (Inr (u, reads), db1)"
    by (auto elim: commitsE)
  then have eqs: "u = example_txn" "db1 = example_db" by (simp_all add: commit_prepare_Inr)
  have "commits (Some (rollback_transaction ''p'' example_txn example_db))" by code_simp
  then obtain db2 where r: "rollback_transaction ''p'' example_txn example_db = (Inr (), db2)" by (auto elim: commitsE)
  obtain rs db3 where c: "commit_apply example_env (9, 1500) ''p'' u reads example_writes db1 = Some (Inr rs, db3)"
    using example_commits p by (auto simp: commit_transaction_def elim!: commitsE)
  show ?thesis using rollback_overtaken [OF p r [folded eqs(2)] c] p r unfolding eqs by blast
qed

text \<open>
  The update time a commit returns cannot be used as a precondition of the next commit. The result carries
  the time in nanoseconds while the column keeps it at its own precision, and a commit compares the column
  with the exact expected time; so when the time lost digits in the column, a commit that expects the returned
  time is aborted although nothing changed in between.
\<close>

theorem returned_time_aborts:
  assumes "commit_transaction env now now' pid tid [WUpdate p fs v pc ts] db = Some (Inr rs, db')"
    and "column_time env now' \<noteq> now'" and "rs = [r]" and "wr_update_time r = (s, n)"
    and "to_datetime env s n = Inr (s, n)"
  shows "check_update_time env db' (WUpdate p fs' v' (Some (UpdateTime s n)) ts') = Inl TransactionAborted"
proof -
  obtain locked db'' where l: "collect_results (map (lock_fields env db) [WUpdate p fs v pc ts]) = Inr locked"
    and a: "apply_writes env now' (zip [WUpdate p fs v pc ts] locked) db = Some (Inr (rs, db''))"
    and db': "db' = set_status tid ''committed'' db''"
    using assms(1) by (rule commit_Inr) blast
  obtain l where "locked = [l]" using collect_results_length [OF l] by (cases locked) auto
  then obtain w where w: "apply_write env now' (WUpdate p fs v pc ts) l db = Some (Inr (r, w))" "w = db''"
    using a assms(3) by (auto simp: pbind_Inr_iff)
  then obtain fs1 where f: "store_written env now' p (Some fs1) db = Inr db''" "wr_update_time r = now'"
    by (auto simp: apply_write_def written_fields_def Let_def pbind_Inr_iff map_sum_Inr_iff from_datetime_def
        split: if_splits)
  then obtain row where "upsert_row env (fields_to_json (b64_encode env) fs1) (column_time env now') (documents db p) = Some row"
    "db'' = put_row p row db"
    by (auto simp: store_written_def map_sum_Inr_iff ok_or_Inr_iff)
  then have "map_option row_update_time (live_row db' p) = Some (column_time env now')"
    using upsert_row_fields db' by (auto simp: live_row_put_row)
  then show ?thesis using f(2) assms(2,4,5) by (auto simp: check_update_time_def)
qed

theorem returned_time_aborts_witness:
  "\<exists>rs db'. commit_transaction example_env (9, 0) (9, 1500) ''p'' example_txn example_writes example_db =
       Some (Inr rs, db') \<and>
     check_update_time example_env db' (WUpdate example_path [] None (Some (UpdateTime 9 1500)) []) =
       Inl TransactionAborted"
proof -
  have "(case commit_transaction example_env (9, 0) (9, 1500) ''p'' example_txn example_writes example_db of
      Some (Inr rs, db') \<Rightarrow> map wr_update_time rs = [(9, 1500)] | _ \<Rightarrow> False)"
    by code_simp
  then obtain rs db' where c:
    "commit_transaction example_env (9, 0) (9, 1500) ''p'' example_txn example_writes example_db = Some (Inr rs, db')"
    and rs: "map wr_update_time rs = [(9, 1500)]"
    by (auto split: option.splits sum.splits)
  then obtain r where r: "rs = [r]" "wr_update_time r = (9, 1500)" by auto
  have "column_time example_env (9, 1500) \<noteq> (9, 1500)" "to_datetime example_env 9 1500 = Inr (9, 1500)"
    by code_simp+
  then show ?thesis using c returned_time_aborts [OF c [unfolded example_writes_def] _ r] by blast
qed

end
