(* ===== verification/Query_Sql.thy ===== *)
theory Query_Sql
  imports Document_Store
begin

text \<open>
  The SQL that queries become: \<open>embyr-pg-storage/src/encoding/query.rs\<close>, \<open>run_query\<close> and
  \<open>run_aggregation_query\<close> of \<open>backend_adapter.rs\<close>, and the query types of \<open>domain/query.rs\<close>. A
  \<open>QueryBuilder\<close> is the list of what was pushed to it, texts and bound values; reaching a \<open>panic!\<close> is
  \<^const>\<open>None\<close>. The second half reads the produced texts back: the condition of a query as a list
  of tokens, evaluated with the precedence of SQL in three-valued logic.
\<close>

section \<open>Query types\<close>

datatype order_direction = Ascending | Descending

record order_by =
  ob_field_path :: string
  ob_direction :: order_direction

record cursor =
  cursor_values :: "field_value list"
  cursor_before :: bool

record structured_query =
  query_collection_id :: string
  all_descendants :: bool
  query_filter_of :: "query_filter option"
  query_order_by :: "order_by list"
  query_limit :: "i32 option"
  query_offset :: "i32 option"
  start_at :: "cursor option"
  end_at :: "cursor option"
  since_update_time :: "date_time option"

datatype aggregation_kind = Count | Sum string | Avg string

section \<open>Field paths\<close>

definition is_valid_field_path :: "string \<Rightarrow> bool" where
  "is_valid_field_path s =
     (case s of
        [] \<Rightarrow> False
      | c # cs \<Rightarrow> (is_ascii_alphabetic c \<or> c = CHR ''_'') \<and>
          list_all (\<lambda>c. is_ascii_alphanumeric c \<or> c = CHR ''_'' \<or> c = CHR ''.'') cs)"

definition validate_field_path :: "string \<Rightarrow> (core_error, unit) result" where
  "validate_field_path p =
     (if is_valid_field_path p then Inr ()
      else Inl (InvalidArgument (''field path must match ^[a-zA-Z_][a-zA-Z0-9_.]*$, got: '' @ p)))"

section \<open>The builder\<close>

datatype bind_value =
    BI64 i64 | BI32 i32 | BF64 f64 | BBool bool | BText string | BJson json | BTime date_time

datatype piece = Push string | PushBind bind_value

text \<open>\<open>fields->'path'\<close>.\<close>

definition field_expr :: "string \<Rightarrow> string" where
  "field_expr fp = ''fields->'' @ [squote] @ fp @ [squote]"

definition quoted_sql :: "string \<Rightarrow> string" where
  "quoted_sql s = [squote] @ s @ [squote]"

text \<open>\<open>fields->'path'->>'v'\<close>.\<close>

definition value_expr :: "string \<Rightarrow> string" where
  "value_expr fp = field_expr fp @ ''->>'' @ quoted_sql ''v''"

definition push_scalar_comparison ::
  "(u8 list \<Rightarrow> string) \<Rightarrow> string \<Rightarrow> string \<Rightarrow> field_value \<Rightarrow> piece list option" where
  "push_scalar_comparison enc fp op v =
     (case v of
        FInteger i \<Rightarrow> Some [Push (''('' @ value_expr fp @ '')::bigint '' @ op @ '' ''), PushBind (BI64 i)]
      | FString s \<Rightarrow> Some [Push (value_expr fp @ '' '' @ op @ '' ''), PushBind (BText s)]
      | FDouble d \<Rightarrow> Some [Push (''('' @ value_expr fp @ '')::float8 '' @ op @ '' ''), PushBind (BF64 d)]
      | FBoolean b \<Rightarrow> Some [Push (''('' @ value_expr fp @ '')::boolean '' @ op @ '' ''), PushBind (BBool b)]
      | FTimestamp s n \<Rightarrow>
          Some [Push (''ROW(('' @ field_expr fp @ ''->'' @ quoted_sql ''s'' @ '')::bigint, ('' @
                  field_expr fp @ ''->'' @ quoted_sql ''n'' @ '')::int) '' @ op @ '' ROW(''),
                PushBind (BI64 s), Push '', '', PushBind (BI32 n), Push '')'']
      | FBytes b \<Rightarrow>
          Some [Push (''decode('' @ value_expr fp @ '', '' @ quoted_sql ''base64'' @ '') '' @ op @ '' decode(''),
                PushBind (BText (enc b)), Push ('', '' @ quoted_sql ''base64'' @ '')'')]
      | FReference r \<Rightarrow> Some [Push (value_expr fp @ '' '' @ op @ '' ''), PushBind (BText r)]
      | _ \<Rightarrow> None)"

definition push_array_contains :: "(u8 list \<Rightarrow> string) \<Rightarrow> string \<Rightarrow> field_value \<Rightarrow> piece list" where
  "push_array_contains enc fp target =
     [Push (field_expr fp @ ''->'' @ quoted_sql ''v'' @ '' @> ''),
      PushBind (BJson (JArray [field_value_to_json enc target])), Push ''::jsonb'']"

definition push_value_equality :: "(u8 list \<Rightarrow> string) \<Rightarrow> string \<Rightarrow> field_value \<Rightarrow> bool \<Rightarrow> piece list" where
  "push_value_equality enc fp target negate =
     [Push (field_expr fp @ '' '' @ (if negate then ''!='' else ''='') @ '' ''),
      PushBind (BJson (field_value_to_json enc target)), Push ''::jsonb'']"

text \<open>The loops that push a separator between items.\<close>

fun separated :: "piece \<Rightarrow> piece list list \<Rightarrow> piece list" where
  "separated sep [] = []"
| "separated sep [x] = x"
| "separated sep (x # y # ys) = x @ sep # separated sep (y # ys)"

definition push_targets ::
  "string \<Rightarrow> string \<Rightarrow> (field_value \<Rightarrow> piece list) \<Rightarrow> field_value \<Rightarrow> piece list option" where
  "push_targets if_none sep f v =
     (case v of
        FArray targets \<Rightarrow>
          Some (if targets = [] then [Push if_none]
                else Push ''('' # separated (Push sep) (map f targets) @ [Push '')''])
      | _ \<Rightarrow> None)"

definition append_field_filter :: "(u8 list \<Rightarrow> string) \<Rightarrow> field_filter \<Rightarrow> piece list option" where
  "append_field_filter enc f =
     (let fp = field_path f; v = filter_value f in
      if \<not> is_ok (validate_field_path fp) then None
      else case filter_op f of
        IsNan \<Rightarrow> Some [Push (value_expr fp @ '' = '' @ quoted_sql ''NaN'')]
      | IsNotNan \<Rightarrow>
          Some [Push (''('' @ field_expr fp @ '' IS NULL OR '' @ value_expr fp @ '' != '' @ quoted_sql ''NaN'' @ '')'')]
      | IsNull \<Rightarrow> Some [Push (field_expr fp @ ''->>'' @ quoted_sql ''t'' @ '' = '' @ quoted_sql ''N'')]
      | IsNotNull \<Rightarrow>
          Some [Push (''('' @ field_expr fp @ '' IS NOT NULL AND '' @ field_expr fp @ ''->>'' @ quoted_sql ''t'' @
                 '' != '' @ quoted_sql ''N'' @ '')'')]
      | LessThan \<Rightarrow> push_scalar_comparison enc fp ''<'' v
      | LessThanOrEqual \<Rightarrow> push_scalar_comparison enc fp ''<='' v
      | GreaterThan \<Rightarrow> push_scalar_comparison enc fp ''>'' v
      | GreaterThanOrEqual \<Rightarrow> push_scalar_comparison enc fp ''>='' v
      | Equal \<Rightarrow> Some (push_value_equality enc fp v False)
      | NotEqual \<Rightarrow> Some (push_value_equality enc fp v True)
      | ArrayContains \<Rightarrow> Some (push_array_contains enc fp v)
      | ArrayContainsAny \<Rightarrow> push_targets ''FALSE'' '' OR '' (push_array_contains enc fp) v
      | OpIn \<Rightarrow> push_targets ''FALSE'' '' OR '' (\<lambda>t. push_value_equality enc fp t False) v
      | NotIn \<Rightarrow> push_targets (field_expr fp @ '' IS NOT NULL'') '' AND '' (\<lambda>t. push_value_equality enc fp t True) v)"

fun append_filter :: "(u8 list \<Rightarrow> string) \<Rightarrow> query_filter \<Rightarrow> piece list option" where
  "append_filter enc (Field f) = append_field_filter enc f"
| "append_filter enc (Composite fs) =
     map_option (separated (Push '' AND '')) (those (map (append_filter enc) fs))"
| "append_filter enc (CompositeOr fs) =
     map_option (\<lambda>ps. Push ''('' # separated (Push '' OR '') ps @ [Push '')''])
       (those (map (append_filter enc) fs))"

definition order_by_expr :: "order_by \<Rightarrow> string option" where
  "order_by_expr ob =
     (if \<not> is_ok (validate_field_path (ob_field_path ob)) then None
      else Some (value_expr (ob_field_path ob) @ '' '' @
        (case ob_direction ob of Ascending \<Rightarrow> ''ASC'' | Descending \<Rightarrow> ''DESC'')))"

definition order_by_expr_bigint :: "string \<Rightarrow> string \<Rightarrow> string option" where
  "order_by_expr_bigint fp dir =
     (if \<not> is_ok (validate_field_path fp) then None
      else Some (''('' @ value_expr fp @ '')::bigint '' @ dir))"

definition push_all_descendants_predicate :: "string \<Rightarrow> bool \<Rightarrow> piece list" where
  "push_all_descendants_predicate cid schema_available =
     (if schema_available then
        [Push ''(collection_id = '', PushBind (BText cid),
         Push '' OR (collection_id IS NULL AND (collection_path = '', PushBind (BText cid),
         Push '' OR collection_path LIKE '', PushBind (BText (''%/'' @ cid)), Push '')))'']
      else
        [Push ''(collection_path = '', PushBind (BText cid),
         Push '' OR collection_path LIKE '', PushBind (BText (''%/'' @ cid)), Push '')''])"

definition cursor_operator :: "bool \<Rightarrow> bool \<Rightarrow> order_direction \<Rightarrow> string" where
  "cursor_operator is_end before direction =
     (let asc_op = (if \<not> is_end \<and> before then ''>='' else if \<not> is_end \<and> \<not> before then ''>''
                    else if is_end \<and> \<not> before then ''<='' else ''<'') in
      case direction of
        Ascending \<Rightarrow> asc_op
      | Descending \<Rightarrow>
          if asc_op = ''>='' then ''<='' else if asc_op = ''>'' then ''<''
          else if asc_op = ''<='' then ''>='' else ''>'')"

section \<open>Queries\<close>

text \<open>The part of the condition that \<open>run_query\<close> and all aggregations share, after the bound project.\<close>

definition where_common ::
  "(u8 list \<Rightarrow> string) \<Rightarrow> bool \<Rightarrow> string \<Rightarrow> string \<Rightarrow> structured_query \<Rightarrow> piece list option" where
  "where_common enc schema_available pid cpath q =
     map_option (\<lambda>fp.
       [PushBind (BText pid)] @
       (if all_descendants q
        then Push '' AND '' # push_all_descendants_predicate cpath schema_available
        else [Push '' AND collection_path = '', PushBind (BText cpath)]) @
       [Push '' AND NOT deleted''] @ fp)
     (case query_filter_of q of
        None \<Rightarrow> Some []
      | Some f \<Rightarrow> map_option (Cons (Push '' AND '')) (append_filter enc f))"

definition cursor_bound ::
  "(u8 list \<Rightarrow> string) \<Rightarrow> bool \<Rightarrow> cursor option \<Rightarrow> order_by list \<Rightarrow> piece list option" where
  "cursor_bound enc is_end c obs =
     (case (c, obs) of
        (Some cur, ob # _) \<Rightarrow>
          (case cursor_values cur of
             [] \<Rightarrow> Some []
           | v # _ \<Rightarrow>
               if \<not> is_ok (validate_field_path (ob_field_path ob)) then None
               else map_option (Cons (Push '' AND ''))
                 (push_scalar_comparison enc (ob_field_path ob)
                    (cursor_operator is_end (cursor_before cur) (ob_direction ob)) v))
      | _ \<Rightarrow> Some [])"

definition order_clause :: "order_by list \<Rightarrow> piece list option" where
  "order_clause obs =
     (if obs = [] then Some []
      else map_option (\<lambda>es. Push '' ORDER BY '' # separated (Push '', '') (map (\<lambda>e. [Push e]) es))
        (those (map order_by_expr obs)))"

definition limit_clause :: "i32 option \<Rightarrow> i32 option \<Rightarrow> piece list" where
  "limit_clause lim off =
     (case lim of Some l \<Rightarrow> [Push '' LIMIT '', PushBind (BI64 (scast l))] | None \<Rightarrow> []) @
     (case off of
        Some n \<Rightarrow> if 0 < sint n then [Push '' OFFSET '', PushBind (BI64 (scast n))] else []
      | None \<Rightarrow> [])"

definition since_clause :: "date_time option \<Rightarrow> piece list" where
  "since_clause t = (case t of Some ts \<Rightarrow> [Push '' AND update_time > '', PushBind (BTime ts)] | None \<Rightarrow> [])"

text \<open>The statement of \<open>run_query\<close>.\<close>

definition query_statement ::
  "(u8 list \<Rightarrow> string) \<Rightarrow> bool \<Rightarrow> string \<Rightarrow> string \<Rightarrow> structured_query \<Rightarrow> piece list option" where
  "query_statement enc schema_available pid cpath q =
     Option.bind (where_common enc schema_available pid cpath q) (\<lambda>w.
     Option.bind (cursor_bound enc False (start_at q) (query_order_by q)) (\<lambda>s.
     Option.bind (cursor_bound enc True (end_at q) (query_order_by q)) (\<lambda>e.
     Option.bind (order_clause (query_order_by q)) (\<lambda>ob.
       Some (Push (''SELECT project_id, collection_path, document_id, fields, version, create_time, update_time '' @
                   ''FROM documents WHERE project_id = '') # w @ since_clause (since_update_time q) @ s @ e @ ob @
             limit_clause (query_limit q) (query_offset q))))))"

definition number_case :: "string \<Rightarrow> string" where
  "number_case fp =
     ''CASE WHEN '' @ field_expr fp @ ''->>'' @ quoted_sql ''t'' @ '' IN ('' @ quoted_sql ''I'' @ '','' @
     quoted_sql ''D'' @ '') THEN ('' @ value_expr fp @ '')::float8 ELSE NULL END''"

definition aggregation_select :: "aggregation_kind \<Rightarrow> string option" where
  "aggregation_select k =
     (case k of
        Count \<Rightarrow> Some ''SELECT COUNT(*) FROM documents WHERE project_id = ''
      | Sum fp \<Rightarrow>
          if is_ok (validate_field_path fp)
          then Some (''SELECT COALESCE(SUM('' @ number_case fp @ ''), 0) FROM documents WHERE project_id = '') else None
      | Avg fp \<Rightarrow>
          if is_ok (validate_field_path fp)
          then Some (''SELECT AVG('' @ number_case fp @ '') FROM documents WHERE project_id = '') else None)"

definition aggregation_statement ::
  "(u8 list \<Rightarrow> string) \<Rightarrow> bool \<Rightarrow> string \<Rightarrow> string \<Rightarrow> structured_query \<Rightarrow> aggregation_kind \<Rightarrow> piece list option" where
  "aggregation_statement enc schema_available pid cpath q k =
     Option.bind (aggregation_select k) (\<lambda>s.
       map_option (Cons (Push s)) (where_common enc schema_available pid cpath q))"

text \<open>The text sent to the database, with numbered placeholders, and the bound values.\<close>

fun sql_text_from :: "nat \<Rightarrow> piece list \<Rightarrow> string" where
  "sql_text_from n [] = []"
| "sql_text_from n (Push s # ps) = s @ sql_text_from n ps"
| "sql_text_from n (PushBind b # ps) = ''$'' @ show_nat n @ sql_text_from (Suc n) ps"

definition sql_text :: "piece list \<Rightarrow> string" where
  "sql_text ps = sql_text_from 1 ps"

fun sql_binds :: "piece list \<Rightarrow> bind_value list" where
  "sql_binds [] = []"
| "sql_binds (Push s # ps) = sql_binds ps"
| "sql_binds (PushBind b # ps) = b # sql_binds ps"

end
