(* ===== verification/Evaluation.thy ===== *)
theory Evaluation
  imports Condition_Parser
begin

text \<open>
  \<open>evaluate\<close> and \<open>discover_cross_document_paths\<close> of \<open>access_control/mod.rs\<close>. A missing field is
  the error value \<^const>\<open>FieldMissing\<close>; the outcome is \<^const>\<open>Deny\<close> unless the condition is
  definitely true. Integer arithmetic is the wrap-around arithmetic of a release build.
\<close>

section \<open>Resolving operands\<close>

definition lookup_path_variable :: "string \<Rightarrow> string option \<Rightarrow> string btree_map \<Rightarrow> string option" where
  "lookup_path_variable name pvv anc =
     (case bt_get anc name of Some v \<Rightarrow> Some v | None \<Rightarrow> pvv)"

definition resolve_segment ::
  "auth_context option \<Rightarrow> string option \<Rightarrow> string btree_map \<Rightarrow> path_template_segment \<Rightarrow>
     (field_missing, string) result" where
  "resolve_segment au pvv anc seg =
     (case seg of
        TLiteral s \<Rightarrow> Inr s
      | TAuthUid \<Rightarrow> ok_or FieldMissing (map_option uid au)
      | TPathVariable name \<Rightarrow> ok_or FieldMissing (lookup_path_variable name pvv anc))"

definition resolve_path_template ::
  "path_template \<Rightarrow> auth_context option \<Rightarrow> string option \<Rightarrow> string btree_map \<Rightarrow>
     (field_missing, string) result" where
  "resolve_path_template template au pvv anc =
     rbind (collect_results (map (resolve_segment au pvv anc) (template_segments template)))
       (\<lambda>parts. Inr (join ''/'' parts))"

definition arith_i64 :: "arithmetic_op \<Rightarrow> i64 \<Rightarrow> i64 \<Rightarrow> i64" where
  "arith_i64 op a b = (case op of Add \<Rightarrow> a + b | Sub \<Rightarrow> a - b)"

definition arith_values ::
  "arithmetic_op \<Rightarrow> field_value \<Rightarrow> field_value \<Rightarrow> (field_missing, field_value) result" where
  "arith_values op l r =
     (case (l, r) of
        (FInteger a, FInteger b) \<Rightarrow> Inr (FInteger (arith_i64 op a b))
      | (FDouble a, FDouble b) \<Rightarrow>
          Inr (FDouble (case op of Add \<Rightarrow> f64_add a b | Sub \<Rightarrow> f64_sub a b))
      | _ \<Rightarrow> Inl FieldMissing)"

fun resolve_field_value :: "operand \<Rightarrow> eval_context \<Rightarrow> (field_missing, field_value) result" where
  "resolve_field_value (ResourceField name) ctx = ok_or FieldMissing (bt_get (resource_fields ctx) name)"
| "resolve_field_value (RequestResourceField name) ctx =
     ok_or FieldMissing (bt_get (request_resource_fields ctx) name)"
| "resolve_field_value (BoolLiteral b) ctx = Inr (FBoolean b)"
| "resolve_field_value NullLiteral ctx = Inr FNull"
| "resolve_field_value (StringLiteral s) ctx = Inr (FString s)"
| "resolve_field_value (AuthTokenClaim key) ctx =
     rbind (ok_or FieldMissing (auth ctx)) (\<lambda>a. ok_or FieldMissing (bt_get (claims a) key))"
| "resolve_field_value AuthUid ctx =
     ok_or FieldMissing (map_option (\<lambda>a. FString (uid a)) (auth ctx))"
| "resolve_field_value AuthNullSentinel ctx =
     ok_or FieldMissing (map_option (\<lambda>a. FString (uid a)) (auth ctx))"
| "resolve_field_value (PathVariable name) ctx =
     ok_or FieldMissing (map_option FString
       (lookup_path_variable name (path_variable_value ctx) (ancestor_path_variable_values ctx)))"
| "resolve_field_value (IntLiteral v) ctx = Inr (FInteger v)"
| "resolve_field_value (DoubleLiteral v) ctx = Inr (FDouble v)"
| "resolve_field_value (ListLiteral items) ctx = Inl FieldMissing"
| "resolve_field_value RequestTime ctx = ok_or FieldMissing (request_time ctx)"
| "resolve_field_value (Arithmetic left op right) ctx =
     rbind (resolve_field_value left ctx) (\<lambda>l.
       case (l, right) of
         (FTimestamp secs nanos, DurationLiteral amount unit) \<Rightarrow>
           Inr (FTimestamp (arith_i64 op secs (as_seconds unit amount)) nanos)
       | _ \<Rightarrow> rbind (resolve_field_value right ctx) (arith_values op l))"
| "resolve_field_value (DurationLiteral amount unit) ctx = Inl FieldMissing"
| "resolve_field_value (CrossDocumentExists template) ctx =
     rbind (resolve_path_template template (auth ctx) (path_variable_value ctx)
         (ancestor_path_variable_values ctx)) (\<lambda>p.
       Inr (FBoolean (case bt_get (cross_document_reads ctx) p of Some (Some d) \<Rightarrow> True | _ \<Rightarrow> False)))"
| "resolve_field_value (CrossDocumentGet template field) ctx =
     rbind (resolve_path_template template (auth ctx) (path_variable_value ctx)
         (ancestor_path_variable_values ctx)) (\<lambda>p.
       ok_or FieldMissing
         (case bt_get (cross_document_reads ctx) p of
            Some (Some d) \<Rightarrow> bt_get (doc_fields d) field
          | _ \<Rightarrow> None))"

section \<open>Comparing\<close>

text \<open>The special pairings of \<open>compare_operands\<close>, each in both orders.\<close>

definition owner_pair :: "operand \<Rightarrow> operand \<Rightarrow> string option" where
  "owner_pair l r =
     (case l of
        AuthUid \<Rightarrow> (case r of ResourceField n \<Rightarrow> Some n | _ \<Rightarrow> None)
      | ResourceField n \<Rightarrow> (case r of AuthUid \<Rightarrow> Some n | _ \<Rightarrow> None)
      | _ \<Rightarrow> None)"

definition request_owner_pair :: "operand \<Rightarrow> operand \<Rightarrow> string option" where
  "request_owner_pair l r =
     (case l of
        AuthUid \<Rightarrow> (case r of RequestResourceField n \<Rightarrow> Some n | _ \<Rightarrow> None)
      | RequestResourceField n \<Rightarrow> (case r of AuthUid \<Rightarrow> Some n | _ \<Rightarrow> None)
      | _ \<Rightarrow> None)"

definition null_pair :: "operand \<Rightarrow> operand \<Rightarrow> bool" where
  "null_pair l r \<longleftrightarrow>
     (l = NullLiteral \<and> (r = AuthNullSentinel \<or> r = AuthUid)) \<or>
     (r = NullLiteral \<and> (l = AuthNullSentinel \<or> l = AuthUid))"

definition compare_owner ::
  "auth_context option \<Rightarrow> field_value option \<Rightarrow> (field_missing, bool) result" where
  "compare_owner au f =
     rbind (ok_or FieldMissing au) (\<lambda>a.
     rbind (ok_or FieldMissing f) (\<lambda>v.
       Inr (case v of FString s \<Rightarrow> s = uid a | _ \<Rightarrow> False)))"

definition compare_operands :: "operand \<Rightarrow> operand \<Rightarrow> eval_context \<Rightarrow> (field_missing, bool) result" where
  "compare_operands left right ctx =
     (case owner_pair left right of
        Some name \<Rightarrow> compare_owner (auth ctx) (bt_get (resource_fields ctx) name)
      | None \<Rightarrow>
     (case request_owner_pair left right of
        Some name \<Rightarrow> compare_owner (auth ctx) (bt_get (request_resource_fields ctx) name)
      | None \<Rightarrow>
          if null_pair left right then Inr (auth ctx = None)
          else rbind (resolve_field_value left ctx) (\<lambda>l.
               rbind (resolve_field_value right ctx) (\<lambda>r. Inr (fv_eq l r)))))"

fun numeric_value :: "field_value \<Rightarrow> f64 option" where
  "numeric_value (FInteger i) = Some (f64_of_i64 i)"
| "numeric_value (FDouble d) = Some d"
| "numeric_value _ = None"

definition ts_less :: "i64 \<times> i32 \<Rightarrow> i64 \<times> i32 \<Rightarrow> bool" where
  "ts_less a b \<longleftrightarrow>
     sint (fst a) < sint (fst b) \<or> sint (fst a) = sint (fst b) \<and> sint (snd a) < sint (snd b)"

text \<open>The equality operators do not reach \<open>compare_relational\<close>; the source panics there.\<close>

definition ts_relational :: "compare_op \<Rightarrow> i64 \<times> i32 \<Rightarrow> i64 \<times> i32 \<Rightarrow> bool" where
  "ts_relational op l r =
     (case op of Lt \<Rightarrow> ts_less l r | Le \<Rightarrow> \<not> ts_less r l | Gt \<Rightarrow> ts_less r l | Ge \<Rightarrow> \<not> ts_less l r
      | _ \<Rightarrow> False)"

definition f64_relational :: "compare_op \<Rightarrow> f64 \<Rightarrow> f64 \<Rightarrow> bool" where
  "f64_relational op l r =
     (case op of Lt \<Rightarrow> f64_lt l r | Le \<Rightarrow> f64_le l r | Gt \<Rightarrow> f64_lt r l | Ge \<Rightarrow> f64_le r l | _ \<Rightarrow> False)"

definition compare_relational :: "compare_op \<Rightarrow> field_value \<Rightarrow> field_value \<Rightarrow> bool" where
  "compare_relational op left right =
     (case (left, right) of
        (FTimestamp ls ln, FTimestamp rs rn) \<Rightarrow> ts_relational op (ls, ln) (rs, rn)
      | _ \<Rightarrow> (case (numeric_value left, numeric_value right) of
          (Some l, Some r) \<Rightarrow> f64_relational op l r
        | _ \<Rightarrow> False))"

section \<open>Conditions\<close>

definition or_results ::
  "(field_missing, bool) result \<Rightarrow> (field_missing, bool) result \<Rightarrow> (field_missing, bool) result" where
  "or_results l r =
     (if l = Inr True then Inr True
      else if r = Inr True then Inr True
      else if l = Inr False \<and> r = Inr False then Inr False
      else Inl FieldMissing)"

definition item_matches :: "field_value \<Rightarrow> eval_context \<Rightarrow> operand \<Rightarrow> bool" where
  "item_matches l ctx item =
     (case resolve_field_value item ctx of Inr v \<Rightarrow> fv_eq v l | Inl _ \<Rightarrow> False)"

fun eval_bool :: "condition \<Rightarrow> eval_context \<Rightarrow> (field_missing, bool) result" where
  "eval_bool (CLiteral b) ctx = Inr b"
| "eval_bool (Not inner) ctx = rbind (eval_bool inner ctx) (\<lambda>b. Inr (\<not> b))"
| "eval_bool (And left right) ctx =
     rbind (eval_bool left ctx) (\<lambda>l. if l then eval_bool right ctx else Inr False)"
| "eval_bool (Or left right) ctx = or_results (eval_bool left ctx) (eval_bool right ctx)"
| "eval_bool (Compare left op right) ctx =
     (if op = Eq \<or> op = Ne then
        rbind (compare_operands left right ctx) (\<lambda>e. Inr (if op = Eq then e else \<not> e))
      else
        rbind (resolve_field_value left ctx) (\<lambda>l.
        rbind (resolve_field_value right ctx) (\<lambda>r. Inr (compare_relational op l r))))"
| "eval_bool (In left lst) ctx =
     rbind (resolve_field_value left ctx) (\<lambda>l.
       case lst of
         ListLiteral items \<Rightarrow> Inr (list_ex (item_matches l ctx) items)
       | _ \<Rightarrow> Inr False)"

definition evaluate :: "condition \<Rightarrow> eval_context \<Rightarrow> evaluation_outcome" where
  "evaluate c ctx =
     (case eval_bool c ctx of Inr True \<Rightarrow> Allow | Inr False \<Rightarrow> Deny | Inl FieldMissing \<Rightarrow> Deny)"

section \<open>Path discovery\<close>

fun walk_operand ::
  "operand \<Rightarrow> auth_context option \<Rightarrow> string option \<Rightarrow> string btree_map \<Rightarrow> string set \<Rightarrow> string set"
  and walk_operands ::
  "operand list \<Rightarrow> auth_context option \<Rightarrow> string option \<Rightarrow> string btree_map \<Rightarrow> string set \<Rightarrow> string set" where
  "walk_operand (CrossDocumentExists template) au pvv anc paths =
     (case resolve_path_template template au pvv anc of Inr p \<Rightarrow> insert p paths | Inl _ \<Rightarrow> paths)"
| "walk_operand (CrossDocumentGet template field) au pvv anc paths =
     (case resolve_path_template template au pvv anc of Inr p \<Rightarrow> insert p paths | Inl _ \<Rightarrow> paths)"
| "walk_operand (Arithmetic left op right) au pvv anc paths =
     walk_operand right au pvv anc (walk_operand left au pvv anc paths)"
| "walk_operand (ListLiteral items) au pvv anc paths = walk_operands items au pvv anc paths"
| "walk_operand _ au pvv anc paths = paths"
| "walk_operands [] au pvv anc paths = paths"
| "walk_operands (x # xs) au pvv anc paths =
     walk_operands xs au pvv anc (walk_operand x au pvv anc paths)"

fun walk_condition ::
  "condition \<Rightarrow> auth_context option \<Rightarrow> string option \<Rightarrow> string btree_map \<Rightarrow> string set \<Rightarrow> string set" where
  "walk_condition (CLiteral b) au pvv anc paths = paths"
| "walk_condition (Not inner) au pvv anc paths = walk_condition inner au pvv anc paths"
| "walk_condition (And left right) au pvv anc paths =
     walk_condition right au pvv anc (walk_condition left au pvv anc paths)"
| "walk_condition (Or left right) au pvv anc paths =
     walk_condition right au pvv anc (walk_condition left au pvv anc paths)"
| "walk_condition (Compare left op right) au pvv anc paths =
     walk_operand right au pvv anc (walk_operand left au pvv anc paths)"
| "walk_condition (In left lst) au pvv anc paths =
     walk_operand lst au pvv anc (walk_operand left au pvv anc paths)"

definition discover_cross_document_paths ::
  "condition \<Rightarrow> auth_context option \<Rightarrow> string option \<Rightarrow> string btree_map \<Rightarrow> string set" where
  "discover_cross_document_paths c au pvv anc = walk_condition c au pvv anc {}"

section \<open>Lemmas\<close>

lemma field_missing_eq [simp]: "(e :: field_missing) = e' \<longleftrightarrow> True"
  by (cases e; cases e') simp

lemma evaluate_Allow_iff: "evaluate c ctx = Allow \<longleftrightarrow> eval_bool c ctx = Inr True"
  by (auto simp: evaluate_def split: sum.splits bool.splits field_missing.splits)

lemma evaluate_Deny_iff: "evaluate c ctx = Deny \<longleftrightarrow> eval_bool c ctx \<noteq> Inr True"
  using evaluate_Allow_iff [of c ctx] by (cases "evaluate c ctx") auto

lemma or_results_True_iff: "or_results l r = Inr True \<longleftrightarrow> l = Inr True \<or> r = Inr True"
  by (auto simp: or_results_def)

lemma or_results_commute: "or_results l r = or_results r l"
  by (auto simp: or_results_def)

subsection \<open>Equality is symmetric\<close>

lemma owner_pair_commute: "owner_pair l r = owner_pair r l"
  by (cases l; cases r; simp add: owner_pair_def)

lemma request_owner_pair_commute: "request_owner_pair l r = request_owner_pair r l"
  by (cases l; cases r; simp add: request_owner_pair_def)

lemma null_pair_commute: "null_pair l r = null_pair r l"
  by (auto simp: null_pair_def)

lemma compare_operands_commute: "compare_operands l r ctx = compare_operands r l ctx"
  unfolding compare_operands_def owner_pair_commute [of l r] request_owner_pair_commute [of l r]
    null_pair_commute [of l r]
  by (auto simp: rbind_def fv_eq_sym split: option.splits sum.splits)

subsection \<open>Discovery collects what evaluation reads\<close>

fun operand_paths ::
  "operand \<Rightarrow> auth_context option \<Rightarrow> string option \<Rightarrow> string btree_map \<Rightarrow> string set" where
  "operand_paths (CrossDocumentExists template) au pvv anc =
     {p. resolve_path_template template au pvv anc = Inr p}"
| "operand_paths (CrossDocumentGet template field) au pvv anc =
     {p. resolve_path_template template au pvv anc = Inr p}"
| "operand_paths (Arithmetic left op right) au pvv anc =
     operand_paths left au pvv anc \<union> operand_paths right au pvv anc"
| "operand_paths (ListLiteral items) au pvv anc = (\<Union>x \<in> set items. operand_paths x au pvv anc)"
| "operand_paths _ au pvv anc = {}"

fun condition_paths ::
  "condition \<Rightarrow> auth_context option \<Rightarrow> string option \<Rightarrow> string btree_map \<Rightarrow> string set" where
  "condition_paths (CLiteral b) au pvv anc = {}"
| "condition_paths (Not c) au pvv anc = condition_paths c au pvv anc"
| "condition_paths (And c d) au pvv anc = condition_paths c au pvv anc \<union> condition_paths d au pvv anc"
| "condition_paths (Or c d) au pvv anc = condition_paths c au pvv anc \<union> condition_paths d au pvv anc"
| "condition_paths (Compare l op r) au pvv anc =
     operand_paths l au pvv anc \<union> operand_paths r au pvv anc"
| "condition_paths (In l r) au pvv anc = operand_paths l au pvv anc \<union> operand_paths r au pvv anc"

lemma walk_operand_eq:
  "walk_operand x au pvv anc paths = paths \<union> operand_paths x au pvv anc"
  "walk_operands xs au pvv anc paths = paths \<union> (\<Union>x \<in> set xs. operand_paths x au pvv anc)"
  by (induction x au pvv anc paths and xs au pvv anc paths rule: walk_operand_walk_operands.induct)
    (auto split: sum.splits)

lemma walk_condition_eq: "walk_condition c au pvv anc paths = paths \<union> condition_paths c au pvv anc"
  by (induction c arbitrary: paths) (auto simp: walk_operand_eq)

lemma discover_eq: "discover_cross_document_paths c au pvv anc = condition_paths c au pvv anc"
  by (simp add: discover_cross_document_paths_def walk_condition_eq)

text \<open>Two contexts agree on a set of paths when they differ at most in the documents read from
  other paths.\<close>

definition agree_on :: "string set \<Rightarrow> eval_context \<Rightarrow> eval_context \<Rightarrow> bool" where
  "agree_on ps ctx ctx' \<longleftrightarrow>
     ctx\<lparr>cross_document_reads := []\<rparr> = ctx'\<lparr>cross_document_reads := []\<rparr> \<and>
     (\<forall>p \<in> ps. bt_get (cross_document_reads ctx) p = bt_get (cross_document_reads ctx') p)"

lemma agree_on_sel:
  assumes "agree_on ps ctx ctx'"
  shows "auth ctx = auth ctx'" "resource_fields ctx = resource_fields ctx'"
    "request_resource_fields ctx = request_resource_fields ctx'"
    "path_variable_value ctx = path_variable_value ctx'"
    "ancestor_path_variable_values ctx = ancestor_path_variable_values ctx'"
    "request_time ctx = request_time ctx'"
proof -
  have eq: "ctx\<lparr>cross_document_reads := []\<rparr> = ctx'\<lparr>cross_document_reads := []\<rparr>"
    using assms by (simp only: agree_on_def)
  show "auth ctx = auth ctx'" using arg_cong [OF eq, of auth] by simp
  show "resource_fields ctx = resource_fields ctx'"
    using arg_cong [OF eq, of resource_fields] by simp
  show "request_resource_fields ctx = request_resource_fields ctx'"
    using arg_cong [OF eq, of request_resource_fields] by simp
  show "path_variable_value ctx = path_variable_value ctx'"
    using arg_cong [OF eq, of path_variable_value] by simp
  show "ancestor_path_variable_values ctx = ancestor_path_variable_values ctx'"
    using arg_cong [OF eq, of ancestor_path_variable_values] by simp
  show "request_time ctx = request_time ctx'" using arg_cong [OF eq, of request_time] by simp
qed

lemma agree_on_read:
  "agree_on ps ctx ctx' \<Longrightarrow> p \<in> ps \<Longrightarrow>
     bt_get (cross_document_reads ctx) p = bt_get (cross_document_reads ctx') p"
  by (simp add: agree_on_def)

lemma resolve_field_value_agree:
  assumes ag: "agree_on ps ctx ctx'"
  shows "operand_paths x (auth ctx) (path_variable_value ctx) (ancestor_path_variable_values ctx) \<subseteq> ps
    \<Longrightarrow> resolve_field_value x ctx = resolve_field_value x ctx'"
proof (induction x)
  case (Arithmetic left op right)
  then have "resolve_field_value left ctx = resolve_field_value left ctx'"
    "resolve_field_value right ctx = resolve_field_value right ctx'" by simp_all
  then show ?case by (simp only: resolve_field_value.simps)
qed (auto simp: agree_on_sel [OF ag] rbind_def agree_on_read [OF ag] split: sum.splits option.splits)

lemma eval_bool_agree:
  assumes ag: "agree_on ps ctx ctx'"
  shows "condition_paths c (auth ctx) (path_variable_value ctx) (ancestor_path_variable_values ctx) \<subseteq> ps
    \<Longrightarrow> eval_bool c ctx = eval_bool c ctx'"
proof (induction c)
  case (Compare l op r)
  then have eqs: "resolve_field_value l ctx = resolve_field_value l ctx'"
    "resolve_field_value r ctx = resolve_field_value r ctx'"
    by (auto intro: resolve_field_value_agree [OF ag])
  show ?case unfolding eval_bool.simps compare_operands_def agree_on_sel [OF ag] eqs ..
next
  case (In l lst)
  have "list_ex (item_matches v ctx) items = list_ex (item_matches v ctx') items"
    if "lst = ListLiteral items" for v items
  proof (rule list_ex_cong)
    show "\<And>x. x \<in> set items \<Longrightarrow> item_matches v ctx x = item_matches v ctx' x"
      using In that by (auto simp: item_matches_def resolve_field_value_agree [OF ag] UN_subset_iff)
  qed simp
  moreover have "resolve_field_value l ctx = resolve_field_value l ctx'"
    using In by (auto intro: resolve_field_value_agree [OF ag])
  ultimately show ?case by (cases lst) simp_all
qed (simp_all cong: if_cong)

text \<open>
  \<open>C29\<close>. Path discovery is complete for evaluation: the handler reads the documents at the discovered
  paths before it evaluates the rule, and whatever the store holds elsewhere, or whatever else was
  read, the outcome is the same. Evaluation never looks at a document that discovery did not name.
\<close>

theorem discovery_complete:
  assumes "agree_on (discover_cross_document_paths c (auth ctx) (path_variable_value ctx)
      (ancestor_path_variable_values ctx)) ctx ctx'"
  shows "evaluate c ctx = evaluate c ctx'"
  using eval_bool_agree [OF assms] by (simp add: evaluate_def discover_eq)

theorem discovery_complete_witness:
  "let c = Compare (CrossDocumentExists \<lparr>template_segments = [TLiteral ''members'', TAuthUid]\<rparr>) Eq (BoolLiteral True);
       d = \<lparr>path = \<lparr>project_id = ''p'', collection_path = ''members'', document_id = ''u''\<rparr>, doc_fields = [],
            create_time = (0, 0), update_time = (0, 0), version = 1\<rparr>;
       ctx = \<lparr>auth = Some \<lparr>uid = ''u'', claims = []\<rparr>, resource_fields = [], request_resource_fields = [],
            path_variable_value = None, ancestor_path_variable_values = [], request_time = None,
            cross_document_reads = [(''members/u'', Some d)]\<rparr>
   in evaluate c ctx = Allow \<and>
      evaluate c ctx = evaluate c (ctx\<lparr>cross_document_reads := [(''a/b'', None), (''members/u'', Some d)]\<rparr>)"
  unfolding Let_def
  by (rule conjI, code_simp, rule discovery_complete)
     (simp add: agree_on_def discover_cross_document_paths_def resolve_path_template_def
       resolve_segment_def rbind_def ok_or_def bt_get_def)

text \<open>
  The connectives at the level of outcomes: a conjunction is allowed exactly when both parts
  are, a disjunction exactly when one part is (a part that refers to a missing field does not
  spoil the other), and a negation is allowed only if the negated condition is denied, while a
  condition that refers to a missing field is denied together with its negation.
\<close>

theorem outcome_algebra:
  "(evaluate (And c d) ctx = Allow \<longleftrightarrow> evaluate c ctx = Allow \<and> evaluate d ctx = Allow) \<and>
   (evaluate (Or c d) ctx = Allow \<longleftrightarrow> evaluate c ctx = Allow \<or> evaluate d ctx = Allow) \<and>
   (evaluate (Not c) ctx = Allow \<longleftrightarrow> evaluate c ctx = Deny \<and> eval_bool c ctx \<noteq> Inl FieldMissing) \<and>
   evaluate (Compare l Eq r) ctx = evaluate (Compare r Eq l) ctx \<and>
   evaluate (Compare l Ne r) ctx = evaluate (Compare r Ne l) ctx"
proof -
  have "evaluate (And c d) ctx = Allow \<longleftrightarrow> evaluate c ctx = Allow \<and> evaluate d ctx = Allow"
    by (auto simp: evaluate_Allow_iff rbind_Inr_iff split: if_splits)
  moreover have "evaluate (Or c d) ctx = Allow \<longleftrightarrow> evaluate c ctx = Allow \<or> evaluate d ctx = Allow"
    by (simp add: evaluate_Allow_iff or_results_True_iff)
  moreover have "evaluate (Not c) ctx = Allow \<longleftrightarrow>
      evaluate c ctx = Deny \<and> eval_bool c ctx \<noteq> Inl FieldMissing"
    by (cases "eval_bool c ctx") (auto simp: evaluate_Allow_iff evaluate_Deny_iff rbind_def)
  moreover have "evaluate (Compare l op r) ctx = evaluate (Compare r op l) ctx"
    if "op = Eq \<or> op = Ne" for op
    using that compare_operands_commute [of l r ctx] by (auto simp: evaluate_def)
  ultimately show ?thesis by blast
qed

subsection \<open>Decided outcomes do not depend on absent data\<close>

text \<open>A context that knows at least as much: the same caller, bindings and prefetched documents,
  and every field present in the first is present with the same value in the second.\<close>

definition fields_le :: "fields \<Rightarrow> fields \<Rightarrow> bool" where
  "fields_le f g \<longleftrightarrow> (\<forall>k v. bt_get f k = Some v \<longrightarrow> bt_get g k = Some v)"

definition ctx_le :: "eval_context \<Rightarrow> eval_context \<Rightarrow> bool" where
  "ctx_le ctx ctx' \<longleftrightarrow>
     auth ctx = auth ctx' \<and> path_variable_value ctx = path_variable_value ctx' \<and>
     ancestor_path_variable_values ctx = ancestor_path_variable_values ctx' \<and>
     cross_document_reads ctx = cross_document_reads ctx' \<and>
     fields_le (resource_fields ctx) (resource_fields ctx') \<and>
     fields_le (request_resource_fields ctx) (request_resource_fields ctx') \<and>
     (\<forall>t. request_time ctx = Some t \<longrightarrow> request_time ctx' = Some t)"

text \<open>The list of an \<open>in\<close> test holds only literals.\<close>

fun is_literal :: "operand \<Rightarrow> bool" where
  "is_literal (BoolLiteral b) = True"
| "is_literal NullLiteral = True"
| "is_literal (StringLiteral s) = True"
| "is_literal (IntLiteral i) = True"
| "is_literal (DoubleLiteral d) = True"
| "is_literal _ = False"

fun literal_lists :: "condition \<Rightarrow> bool" where
  "literal_lists (In l lst) = (case lst of ListLiteral items \<Rightarrow> list_all is_literal items | _ \<Rightarrow> True)"
| "literal_lists (Not c) = literal_lists c"
| "literal_lists (And c d) = (literal_lists c \<and> literal_lists d)"
| "literal_lists (Or c d) = (literal_lists c \<and> literal_lists d)"
| "literal_lists _ = True"

lemma fields_leD: "fields_le f g \<Longrightarrow> bt_get f k = Some v \<Longrightarrow> bt_get g k = Some v"
  by (simp add: fields_le_def)

lemma resolve_field_value_mono:
  assumes le: "ctx_le ctx ctx'"
  shows "resolve_field_value x ctx = Inr v \<Longrightarrow> resolve_field_value x ctx' = Inr v"
proof (induction x arbitrary: v)
  case (Arithmetic left op right)
  then obtain l where l: "resolve_field_value left ctx = Inr l" "resolve_field_value left ctx' = Inr l"
    by (auto simp: rbind_Inr_iff)
  show ?case
  proof (cases "\<exists>s n a u. l = FTimestamp s n \<and> right = DurationLiteral a u")
    case True
    then show ?thesis using Arithmetic.prems l by (auto simp: rbind_def)
  next
    case False
    then have "rbind (resolve_field_value right ctx) (arith_values op l) = Inr v"
      using Arithmetic.prems l by (auto simp: rbind_def split: field_value.splits operand.splits)
    then have "rbind (resolve_field_value right ctx') (arith_values op l) = Inr v"
      using Arithmetic.IH(2) by (auto simp: rbind_Inr_iff)
    then show ?thesis using False l
      by (auto simp: rbind_def split: field_value.splits operand.splits)
  qed
qed (use le in \<open>auto simp: ctx_le_def ok_or_Inr_iff rbind_Inr_iff fields_leD\<close>)

lemma resolve_literal: "is_literal x \<Longrightarrow> resolve_field_value x ctx = resolve_field_value x ctx'"
  by (cases x) simp_all

lemma compare_operands_mono:
  assumes le: "ctx_le ctx ctx'" and b: "compare_operands l r ctx = Inr b"
  shows "compare_operands l r ctx' = Inr b"
proof -
  have sel: "auth ctx = auth ctx'" using le by (simp add: ctx_le_def)
  have mono: "compare_owner au (bt_get g k) = Inr b"
    if "fields_le f g" "compare_owner au (bt_get f k) = Inr b" for f g au k
    using that by (auto simp: compare_owner_def rbind_Inr_iff ok_or_Inr_iff fields_leD)
  have resolved: "rbind (resolve_field_value l ctx') (\<lambda>x. rbind (resolve_field_value r ctx') (\<lambda>y. Inr (fv_eq x y))) = Inr b"
    if "rbind (resolve_field_value l ctx) (\<lambda>x. rbind (resolve_field_value r ctx) (\<lambda>y. Inr (fv_eq x y))) = Inr b"
    using that resolve_field_value_mono [OF le] by (auto simp: rbind_Inr_iff)
  consider (owner) k where "owner_pair l r = Some k"
    | (request) k where "owner_pair l r = None" "request_owner_pair l r = Some k"
    | (null) "owner_pair l r = None" "request_owner_pair l r = None" "null_pair l r"
    | (other) "owner_pair l r = None" "request_owner_pair l r = None" "\<not> null_pair l r"
    by (cases "owner_pair l r"; cases "request_owner_pair l r") auto
  then show ?thesis
  proof cases
    case owner
    then show ?thesis using b le mono by (auto simp: compare_operands_def ctx_le_def)
  next
    case request
    then show ?thesis using b le mono by (auto simp: compare_operands_def ctx_le_def)
  next
    case null
    then show ?thesis using b sel by (simp add: compare_operands_def)
  next
    case other
    then show ?thesis using b resolved by (simp add: compare_operands_def)
  qed
qed

lemma or_results_mono:
  assumes "or_results l r = Inr b" "\<And>x. l = Inr x \<Longrightarrow> l' = Inr x" "\<And>x. r = Inr x \<Longrightarrow> r' = Inr x"
  shows "or_results l' r' = Inr b"
  using assms(1) assms(2) [of True] assms(2) [of False] assms(3) [of True] assms(3) [of False]
  by (cases b) (auto simp: or_results_def split: if_splits)

lemma eval_bool_mono:
  assumes le: "ctx_le ctx ctx'"
  shows "literal_lists c \<Longrightarrow> eval_bool c ctx = Inr b \<Longrightarrow> eval_bool c ctx' = Inr b"
proof (induction c arbitrary: b)
  case (In l lst)
  then obtain v where v: "resolve_field_value l ctx = Inr v" "resolve_field_value l ctx' = Inr v"
    by (auto simp: rbind_Inr_iff dest: resolve_field_value_mono [OF le])
  have "list_ex (item_matches v ctx) items = list_ex (item_matches v ctx') items"
    if "lst = ListLiteral items" for items
    using In.prems(1) that
    by (auto simp: item_matches_def list_all_iff list_ex_iff resolve_literal [of _ ctx ctx'])
  then show ?case using In.prems(2) v by (cases lst) (simp_all add: rbind_def)
next
  case (Or c d)
  have lists: "literal_lists c" "literal_lists d" using Or.prems(1) by simp_all
  show ?case
    using or_results_mono [OF _ Or.IH(1) [OF lists(1)] Or.IH(2) [OF lists(2)]] Or.prems(2)
    by (simp only: eval_bool.simps)
next
  case (Compare l op r)
  then show ?case
    by (auto simp: rbind_Inr_iff split: if_splits dest: resolve_field_value_mono [OF le]
      compare_operands_mono [OF le])
next
  case (And c d)
  have lists: "literal_lists c" "literal_lists d" using And.prems(1) by simp_all
  show ?case
    using And.prems(2) And.IH(1) [OF lists(1)] unfolding eval_bool.simps
    by (rule rbind_mono) (auto split: if_splits intro: And.IH(2) [OF lists(2)])
next
  case (Not c)
  then have "literal_lists c" by simp
  from Not.prems(2) Not.IH [OF this] show ?case unfolding eval_bool.simps by (rule rbind_mono)
qed simp



subsection \<open>Relational comparison\<close>

definition int_relation :: "compare_op \<Rightarrow> int \<Rightarrow> int \<Rightarrow> bool" where
  "int_relation op a b =
     (case op of Eq \<Rightarrow> a = b | Ne \<Rightarrow> a \<noteq> b | Lt \<Rightarrow> a < b | Le \<Rightarrow> a \<le> b | Gt \<Rightarrow> a > b | Ge \<Rightarrow> a \<ge> b)"

lemma f64_relational_of_i64:
  assumes "op \<in> {Lt, Le, Gt, Ge}" and "\<bar>sint a\<bar> \<le> 2 ^ 53" and "\<bar>sint b\<bar> \<le> 2 ^ 53"
  shows "f64_relational op (f64_of_i64 a) (f64_of_i64 b) = int_relation op (sint a) (sint b)"
  unfolding f64_of_i64_def
  using assms(1) f64_lt_of_int_iff [OF assms(2,3)] f64_lt_of_int_iff [OF assms(3,2)]
  by (elim insertE emptyE) (simp_all add: f64_relational_def int_relation_def)

text \<open>
  The relational operators on integer fields: although both sides are converted to \<open>f64\<close>
  first, for integers of magnitude at most \<open>2^53\<close> the verdict is that of the integers themselves.
\<close>

theorem integer_comparison_correct:
  assumes "resolve_field_value l ctx = Inr (FInteger a)" and "resolve_field_value r ctx = Inr (FInteger b)"
    and "op \<in> {Lt, Le, Gt, Ge}" and "\<bar>sint a\<bar> \<le> 2 ^ 53" and "\<bar>sint b\<bar> \<le> 2 ^ 53"
  shows "evaluate (Compare l op r) ctx = (if int_relation op (sint a) (sint b) then Allow else Deny)"
proof -
  have "eval_bool (Compare l op r) ctx = Inr (compare_relational op (FInteger a) (FInteger b))"
    using assms(1-3) by (auto simp: rbind_def)
  then show ?thesis
    using f64_relational_of_i64 [OF assms(3-5)] by (simp add: evaluate_def compare_relational_def)
qed

theorem integer_comparison_correct_witness:
  "evaluate (Compare (IntLiteral (-3)) Lt (IntLiteral 5))
     \<lparr>auth = None, resource_fields = [], request_resource_fields = [], path_variable_value = None,
      ancestor_path_variable_values = [], request_time = None, cross_document_reads = []\<rparr> = Allow"
  by (subst integer_comparison_correct [where a = "-3" and b = 5]) (simp_all add: int_relation_def)

text \<open>
  Beyond that magnitude the conversion rounds: \<open>2^53 < 2^53 + 1\<close> is denied, and so is the
  opposite comparison, while the two integers are not equal.
\<close>

theorem integer_comparison_rounds:
  "evaluate (Compare (IntLiteral 9007199254740992) Lt (IntLiteral 9007199254740993)) ctx = Deny \<and>
   evaluate (Compare (IntLiteral 9007199254740992) Ge (IntLiteral 9007199254740993)) ctx = Allow \<and>
   evaluate (Compare (IntLiteral 9007199254740992) Ne (IntLiteral 9007199254740993)) ctx = Allow"
proof -
  have "f64_of_i64 9007199254740993 = f64_of_i64 9007199254740992"
    using f64_of_int_tie by (simp add: f64_of_i64_def)
  moreover have "f64_le (f64_of_i64 9007199254740992) (f64_of_i64 9007199254740992)"
    "\<not> f64_lt (f64_of_i64 9007199254740992) (f64_of_i64 9007199254740992)"
    by (simp_all add: f64_of_i64_def f64_le_def f64_lt_def)
  ultimately show ?thesis
    by (simp add: evaluate_def rbind_def compare_relational_def f64_relational_def
        compare_operands_def owner_pair_def request_owner_pair_def null_pair_def)
qed

subsection \<open>Time windows\<close>

text \<open>The exact value, in nanoseconds, of a timestamp, and in seconds of a duration.\<close>

definition nanoseconds :: "int \<Rightarrow> i32 \<Rightarrow> int" where
  "nanoseconds s n = s * 10 ^ 9 + sint n"

definition unit_seconds :: "duration_unit \<Rightarrow> int" where
  "unit_seconds u = (case u of Seconds \<Rightarrow> 1 | Minutes \<Rightarrow> 60 | Hours \<Rightarrow> 3600 | Days \<Rightarrow> 86400)"

lemma sint_as_seconds:
  assumes "fits_i64 (sint a * unit_seconds u)"
  shows "sint (as_seconds u a) = sint a * unit_seconds u"
proof -
  have "as_seconds u a = word_of_int (sint a * unit_seconds u)"
    by (cases u) (simp_all add: as_seconds_def unit_seconds_def)
  then show ?thesis using sint_of_fits [OF assms] by simp
qed

lemma sint_arith_i64:
  assumes "fits_i64 (case op of Add \<Rightarrow> sint a + sint b | Sub \<Rightarrow> sint a - sint b)"
  shows "sint (arith_i64 op a b) = (case op of Add \<Rightarrow> sint a + sint b | Sub \<Rightarrow> sint a - sint b)"
proof -
  have "arith_i64 op a b = word_of_int (case op of Add \<Rightarrow> sint a + sint b | Sub \<Rightarrow> sint a - sint b)"
    by (cases op) (simp_all add: arith_i64_def)
  then show ?thesis using sint_of_fits [OF assms] by simp
qed

lemma ts_less_nanoseconds:
  assumes "0 \<le> sint n" "sint n < 10 ^ 9" "0 \<le> sint m" "sint m < 10 ^ 9"
  shows "ts_less (s, n) (t, m) \<longleftrightarrow> nanoseconds (sint s) n < nanoseconds (sint t) m"
  using assms by (auto simp: ts_less_def nanoseconds_def)

text \<open>
  Time-window rules (\<open>l < r + duration.value(k, 'm')\<close> and its variants) compare instants: as long
  as the shifted second count fits in 64 bits, the verdict is the comparison of the two times in
  nanoseconds.
\<close>

theorem time_window_correct:
  assumes "resolve_field_value l ctx = Inr (FTimestamp s n)" and "resolve_field_value r ctx = Inr (FTimestamp t m)"
    and "cmp \<in> {Lt, Le, Gt, Ge}"
    and "0 \<le> sint n" "sint n < 10 ^ 9" "0 \<le> sint m" "sint m < 10 ^ 9"
    and "fits_i64 (sint k * unit_seconds u)"
    and "shifted = (case op of Add \<Rightarrow> sint t + sint k * unit_seconds u | Sub \<Rightarrow> sint t - sint k * unit_seconds u)"
    and "fits_i64 shifted"
  shows "evaluate (Compare l cmp (Arithmetic r op (DurationLiteral k u))) ctx =
    (if int_relation cmp (nanoseconds (sint s) n) (nanoseconds shifted m) then Allow else Deny)"
proof -
  define t' where "t' = arith_i64 op t (as_seconds u k)"
  have t': "sint t' = shifted"
    unfolding t'_def
    using sint_arith_i64 [where a = t and b = "as_seconds u k" and op = op] assms(9,10)
    by (cases op) (simp_all add: sint_as_seconds [OF assms(8)])
  have "eval_bool (Compare l cmp (Arithmetic r op (DurationLiteral k u))) ctx =
      Inr (ts_relational cmp (s, n) (t', m))"
    using assms(1-3) by (auto simp: rbind_def compare_relational_def t'_def)
  then show ?thesis
    using assms(3-7) ts_less_nanoseconds [of n m s t'] ts_less_nanoseconds [of m n t' s]
    by (auto simp: evaluate_def ts_relational_def int_relation_def t' split: bool.splits)
qed

theorem time_window_correct_witness:
  "evaluate (Compare RequestTime Lt (Arithmetic (ResourceField ''created'') Add (DurationLiteral 5 Minutes)))
     \<lparr>auth = None, resource_fields = [(''created'', FTimestamp 1000 0)], request_resource_fields = [],
      path_variable_value = None, ancestor_path_variable_values = [],
      request_time = Some (FTimestamp 1299 999999999), cross_document_reads = []\<rparr> = Allow"
  by (subst time_window_correct [where s = 1299 and n = 999999999 and t = 1000 and m = 0 and shifted = 1300])
     (simp_all add: int_relation_def nanoseconds_def unit_seconds_def fits_i64_def bt_get_def ok_or_def)

text \<open>
  Without that bound the shift wraps around: the window \<open>request.time < request.time + d\<close> for a
  duration of 106751991167301 days denies every time from the epoch on.
\<close>

theorem time_window_wraps:
  assumes "request_time ctx = Some (FTimestamp s n)" and "0 \<le> sint s" and "sint s < 2 ^ 62"
  shows "evaluate (Compare RequestTime Lt
    (Arithmetic RequestTime Add (DurationLiteral 106751991167301 Days))) ctx = Deny"
proof -
  have d: "as_seconds Days 106751991167301 = word_of_int (- 9223372036854745216)"
    by (simp add: as_seconds_def)
  have "sint (arith_i64 Add s (as_seconds Days 106751991167301)) = sint s - 9223372036854745216"
    unfolding d using assms(2,3) by (subst sint_arith_i64) (simp_all add: fits_i64_def)
  then show ?thesis
    using assms(1) by (simp add: evaluate_def rbind_def ok_or_def compare_relational_def ts_relational_def ts_less_def)
qed

theorem time_window_wraps_witness:
  "evaluate (Compare RequestTime Lt (Arithmetic RequestTime Add (DurationLiteral 106751991167301 Days)))
     \<lparr>auth = None, resource_fields = [], request_resource_fields = [], path_variable_value = None,
      ancestor_path_variable_values = [], request_time = Some (FTimestamp 1700000000 0),
      cross_document_reads = []\<rparr> = Deny"
  by (rule time_window_wraps [where s = 1700000000 and n = 0]) simp_all

end
