(* ===== verification/Query_Compliance.thy ===== *)
theory Query_Compliance
  imports Evaluation
begin

text \<open>
  \<open>check_query_compliance\<close> of \<open>access_control/mod.rs\<close>: whether the filter of a query, together with
  the caller's identity, guarantees that a read rule allows every document the query can return,
  decided before any document is fetched.
\<close>

datatype unsatisfied_conjunct =
    OwnershipFilterMissing string
  | DenyAll
  | AuthRequired

datatype query_compliance_outcome =
    Admitted
  | Rejected "unsatisfied_conjunct list"
  | RejectedUnsupportedRuleShape

fun reason_code :: "unsatisfied_conjunct \<Rightarrow> string" where
  "reason_code (OwnershipFilterMissing f) = ''OWNERSHIP_FILTER_MISSING''"
| "reason_code DenyAll = ''RULE_DENIES_ALL''"
| "reason_code AuthRequired = ''AUTH_REQUIRED''"

datatype atom =
    AOwnershipEquality string
  | ALiteral bool
  | AAuthRequired

text \<open>The three arms for comparisons: \<open>request.auth != null\<close> in this order only, and the ownership
  equality in either order.\<close>

definition decidable_compare :: "operand \<Rightarrow> compare_op \<Rightarrow> operand \<Rightarrow> (undecidable, atom list) result" where
  "decidable_compare left op right =
     (if left = AuthNullSentinel \<and> op = Ne \<and> right = NullLiteral then Inr [AAuthRequired]
      else if op = Eq then
        (case owner_pair left right of Some f \<Rightarrow> Inr [AOwnershipEquality f] | None \<Rightarrow> Inl Undecidable)
      else Inl Undecidable)"

fun decompose_decidable :: "condition \<Rightarrow> (undecidable, atom list) result" where
  "decompose_decidable (CLiteral b) = Inr [ALiteral b]"
| "decompose_decidable (Compare left op right) = decidable_compare left op right"
| "decompose_decidable (And left right) =
     rbind (decompose_decidable left) (\<lambda>atoms.
     rbind (decompose_decidable right) (\<lambda>more. Inr (atoms @ more)))"
| "decompose_decidable _ = Inl Undecidable"

fun binds_field :: "query_filter \<Rightarrow> string \<Rightarrow> string \<Rightarrow> bool" where
  "binds_field (Field ff) fp caller_uid \<longleftrightarrow>
     field_path ff = fp \<and> filter_op ff = Equal \<and> fv_eq (filter_value ff) (FString caller_uid)"
| "binds_field (Composite filters) fp caller_uid \<longleftrightarrow>
     (\<exists>f \<in> set filters. binds_field f fp caller_uid)"
| "binds_field (CompositeOr filters) fp caller_uid \<longleftrightarrow>
     (\<forall>f \<in> set filters. binds_field f fp caller_uid)"

definition filter_binds_field_to_uid :: "query_filter option \<Rightarrow> string \<Rightarrow> string \<Rightarrow> bool" where
  "filter_binds_field_to_uid flt fp caller_uid =
     (case flt of None \<Rightarrow> False | Some f \<Rightarrow> binds_field f fp caller_uid)"

text \<open>What one atom adds to the list of unsatisfied conjuncts.\<close>

fun unsatisfied_by :: "atom \<Rightarrow> query_filter option \<Rightarrow> auth_context option \<Rightarrow> unsatisfied_conjunct list" where
  "unsatisfied_by (ALiteral b) flt au = []"
| "unsatisfied_by AAuthRequired flt au = (if au = None then [AuthRequired] else [])"
| "unsatisfied_by (AOwnershipEquality f) flt au =
     (if (case au of Some a \<Rightarrow> filter_binds_field_to_uid flt f (uid a) | None \<Rightarrow> False) then []
      else [OwnershipFilterMissing f])"

text \<open>The loop over the atoms: a literal \<open>false\<close> returns at once.\<close>

fun check_atoms ::
  "atom list \<Rightarrow> query_filter option \<Rightarrow> auth_context option \<Rightarrow> unsatisfied_conjunct list \<Rightarrow>
     query_compliance_outcome" where
  "check_atoms [] flt au unsatisfied = (if unsatisfied = [] then Admitted else Rejected unsatisfied)"
| "check_atoms (a # atoms) flt au unsatisfied =
     (if a = ALiteral False then Rejected [DenyAll]
      else check_atoms atoms flt au (unsatisfied @ unsatisfied_by a flt au))"

definition check_query_compliance ::
  "condition \<Rightarrow> query_filter option \<Rightarrow> auth_context option \<Rightarrow> query_compliance_outcome" where
  "check_query_compliance c flt au =
     (case decompose_decidable c of
        Inl Undecidable \<Rightarrow> RejectedUnsupportedRuleShape
      | Inr atoms \<Rightarrow> check_atoms atoms flt au [])"

section \<open>What an atom means\<close>

fun atom_holds :: "atom \<Rightarrow> eval_context \<Rightarrow> bool" where
  "atom_holds (ALiteral b) ctx = b"
| "atom_holds AAuthRequired ctx = (auth ctx \<noteq> None)"
| "atom_holds (AOwnershipEquality f) ctx =
     (case auth ctx of None \<Rightarrow> False | Some a \<Rightarrow> bt_get (resource_fields ctx) f = Some (FString (uid a)))"

lemma compare_owner_True:
  "compare_owner au f = Inr True \<longleftrightarrow> (case au of None \<Rightarrow> False | Some a \<Rightarrow> f = Some (FString (uid a)))"
  by (auto simp: compare_owner_def rbind_def ok_or_def split: option.splits field_value.splits)

text \<open>The decomposition is exact: the rule allows a request when all its atoms hold.\<close>

lemma decompose_decidable_exact:
  "decompose_decidable c = Inr atoms \<Longrightarrow> evaluate c ctx = Allow \<longleftrightarrow> (\<forall>a \<in> set atoms. atom_holds a ctx)"
proof (induction c arbitrary: atoms)
  case (Compare l op r)
  then show ?case
    by (auto simp: decidable_compare_def evaluate_Allow_iff compare_operands_def owner_pair_def
        request_owner_pair_def null_pair_def rbind_Inr_iff compare_owner_True
        split: if_splits option.splits operand.splits)
      (auto simp: compare_owner_def rbind_def ok_or_def intro: exI [of _ True])
next
  case (And left right)
  then obtain as bs where "decompose_decidable left = Inr as" "decompose_decidable right = Inr bs"
    "atoms = as @ bs" by (auto simp: rbind_Inr_iff)
  moreover have "evaluate (And left right) ctx = Allow \<longleftrightarrow>
      evaluate left ctx = Allow \<and> evaluate right ctx = Allow"
    by (auto simp: evaluate_Allow_iff rbind_Inr_iff split: if_splits)
  ultimately show ?case using And.IH by auto
qed (auto simp: evaluate_Allow_iff)

section \<open>The loop\<close>

lemma check_atoms_eq:
  "check_atoms atoms flt au us =
     (if ALiteral False \<in> set atoms then Rejected [DenyAll]
      else let all = us @ concat (map (\<lambda>a. unsatisfied_by a flt au) atoms)
           in if all = [] then Admitted else Rejected all)"
  by (induction atoms arbitrary: us) (auto simp: Let_def)

lemma check_atoms_Admitted:
  "check_atoms atoms flt au [] = Admitted \<longleftrightarrow>
     ALiteral False \<notin> set atoms \<and> (\<forall>a \<in> set atoms. unsatisfied_by a flt au = [])"
  by (auto simp: check_atoms_eq Let_def)

lemma binds_field_sound:
  assumes "equality_exact sat"
  shows "binds_field f fp u \<Longrightarrow> filter_matches sat f d \<Longrightarrow> bt_get d fp = Some (FString u)"
proof (induction f)
  case (Field ff)
  then show ?case using assms by (auto simp: equality_exact_def)
qed auto

lemma atom_satisfied:
  assumes "unsatisfied_by a flt (auth ctx) = []" and "a \<noteq> ALiteral False" and "equality_exact sat"
    and "\<And>f. flt = Some f \<Longrightarrow> filter_matches sat f (resource_fields ctx)"
  shows "atom_holds a ctx"
  using assms
  by (cases a) (auto simp: filter_binds_field_to_uid_def binds_field_sound
      split: if_splits option.splits)

section \<open>Properties\<close>

lemma admitted_allows:
  assumes "check_query_compliance c flt (auth ctx) = Admitted"
    and "equality_exact sat"
    and "\<And>f. flt = Some f \<Longrightarrow> filter_matches sat f (resource_fields ctx)"
  shows "evaluate c ctx = Allow"
proof -
  obtain atoms where atoms: "decompose_decidable c = Inr atoms" "check_atoms atoms flt (auth ctx) [] = Admitted"
    using assms(1) by (auto simp: check_query_compliance_def split: sum.splits undecidable.splits)
  then have "\<forall>a \<in> set atoms. atom_holds a ctx"
    using atom_satisfied [OF _ _ assms(2,3)] by (auto simp: check_atoms_Admitted)
  then show ?thesis using decompose_decidable_exact [OF atoms(1)] by simp
qed

text \<open>
  Soundness of query admission: when a query is admitted against a read rule, the rule allows
  the caller to read every document that the query's filter can select, whatever its contents.
  The disjunctive filters are covered: a binding must hold in every branch. The hypothesis on the
  database says that a document selected by \<open>field == "text"\<close> holds that text in that field.
\<close>

theorem query_compliance_sound:
  assumes "check_query_compliance c flt (auth ctx) = Admitted"
    and "equality_exact sat"
    and "\<And>f. flt = Some f \<Longrightarrow> filter_matches sat f (resource_fields ctx)"
  shows "evaluate c ctx = Allow"
  using assms by (rule admitted_allows)

theorem query_compliance_sound_witness:
  "let c = And (Compare AuthNullSentinel Ne NullLiteral) (Compare AuthUid Eq (ResourceField ''owner''));
       own = Field \<lparr>field_path = ''owner'', filter_op = Equal, filter_value = FString ''u''\<rparr>;
       flt = CompositeOr [own, Composite [Field \<lparr>field_path = ''n'', filter_op = LessThan, filter_value = FInteger 3\<rparr>, own]];
       ctx = \<lparr>auth = Some \<lparr>uid = ''u'', claims = []\<rparr>, resource_fields = [(''owner'', FString ''u'')],
            request_resource_fields = [], path_variable_value = None, ancestor_path_variable_values = [],
            request_time = None, cross_document_reads = []\<rparr>
   in filter_matches equality_only flt (resource_fields ctx) \<and> evaluate c ctx = Allow"
  unfolding Let_def
  by (rule conjI, simp add: equality_only_def bt_get_def,
      rule query_compliance_sound [where sat = equality_only and
        flt = "Some (CompositeOr [Field \<lparr>field_path = ''owner'', filter_op = Equal, filter_value = FString ''u''\<rparr>,
          Composite [Field \<lparr>field_path = ''n'', filter_op = LessThan, filter_value = FInteger 3\<rparr>,
            Field \<lparr>field_path = ''owner'', filter_op = Equal, filter_value = FString ''u''\<rparr>]])"])
     (auto simp: check_query_compliance_def decidable_compare_def owner_pair_def rbind_def filter_binds_field_to_uid_def
        equality_exact_equality_only equality_only_def bt_get_def)

text \<open>
  Every reported reason is a requirement of the rule that the query leaves open: a rule reported
  as denying everything allows no request at all, one reported as requiring authentication allows
  no unauthenticated request, and a missing ownership filter names a field that must hold the
  caller's own uid in every document the rule lets the caller read, and that the filter does not bind.
\<close>

theorem rejection_justified:
  assumes "check_query_compliance c flt au = Rejected us" and "u \<in> set us" and "auth ctx = au"
  shows "case u of
      DenyAll \<Rightarrow> (\<forall>ctx'. evaluate c ctx' = Deny)
    | AuthRequired \<Rightarrow> au = None \<and> evaluate c ctx = Deny
    | OwnershipFilterMissing f \<Rightarrow>
        (\<forall>a. au = Some a \<longrightarrow> \<not> filter_binds_field_to_uid flt f (uid a)) \<and>
        (evaluate c ctx = Allow \<longrightarrow>
           (\<exists>a. au = Some a \<and> bt_get (resource_fields ctx) f = Some (FString (uid a))))"
proof -
  obtain atoms where atoms: "decompose_decidable c = Inr atoms" "check_atoms atoms flt au [] = Rejected us"
    using assms(1) by (auto simp: check_query_compliance_def split: sum.splits undecidable.splits)
  note exact = decompose_decidable_exact [OF atoms(1)]
  have deny: "evaluate c ctx' = Deny" if "a \<in> set atoms" "\<not> atom_holds a ctx'" for a ctx'
    using exact [of ctx'] that by (cases "evaluate c ctx'") auto
  show ?thesis
  proof (cases "ALiteral False \<in> set atoms")
    case True
    then show ?thesis using atoms(2) assms(2) deny by (auto simp: check_atoms_eq)
  next
    case False
    then obtain a where a: "a \<in> set atoms" "u \<in> set (unsatisfied_by a flt au)"
      using atoms(2) assms(2) by (auto simp: check_atoms_eq Let_def split: if_splits)
    have need: "evaluate c ctx = Allow \<Longrightarrow> atom_holds a ctx" using exact [of ctx] a(1) by blast
    show ?thesis
    proof (cases a)
      case (AOwnershipEquality f)
      then show ?thesis using a(2) need assms(3) by (auto split: if_splits option.splits)
    next
      case (ALiteral b)
      then show ?thesis using a(2) by simp
    next
      case AAuthRequired
      then show ?thesis using a(2) deny [OF a(1), of ctx] assms(3) by (auto split: if_splits)
    qed
  qed
qed

theorem rejection_justified_witness:
  "check_query_compliance (Compare AuthUid Eq (ResourceField ''owner'')) None (Some \<lparr>uid = ''u'', claims = []\<rparr>) =
     Rejected [OwnershipFilterMissing ''owner''] \<and>
   (case OwnershipFilterMissing ''owner'' of
      DenyAll \<Rightarrow> (\<forall>ctx'. evaluate (Compare AuthUid Eq (ResourceField ''owner'')) ctx' = Deny)
    | AuthRequired \<Rightarrow> Some \<lparr>uid = ''u'', claims = []\<rparr> = None \<and>
        evaluate (Compare AuthUid Eq (ResourceField ''owner''))
          \<lparr>auth = Some \<lparr>uid = ''u'', claims = []\<rparr>, resource_fields = [], request_resource_fields = [],
           path_variable_value = None, ancestor_path_variable_values = [], request_time = None,
           cross_document_reads = []\<rparr> = Deny
    | OwnershipFilterMissing f \<Rightarrow>
        (\<forall>a. Some \<lparr>uid = ''u'', claims = []\<rparr> = Some a \<longrightarrow> \<not> filter_binds_field_to_uid None f (uid a)))"
proof -
  have *: "check_query_compliance (Compare AuthUid Eq (ResourceField ''owner'')) None (Some \<lparr>uid = ''u'', claims = []\<rparr>) =
     Rejected [OwnershipFilterMissing ''owner'']" by code_simp
  show ?thesis
    using * rejection_justified [OF *, of "OwnershipFilterMissing ''owner''"
      "\<lparr>auth = Some \<lparr>uid = ''u'', claims = []\<rparr>, resource_fields = [], request_resource_fields = [],
         path_variable_value = None, ancestor_path_variable_values = [], request_time = None,
         cross_document_reads = []\<rparr>"]
    by simp
qed

end
