(* ===== verification/Resource_Names.thy ===== *)
theory Resource_Names
  imports Field_Transform
begin

text \<open>
  Resource names and statuses of the request handlers: \<open>extract_project_id\<close>, \<open>parse_document_path\<close>,
  \<open>parse_parent_prefix\<close> and the error mapping of \<open>embyr-server/src/grpc/handler.rs\<close>, the document name of
  \<open>encoding/firestore_proto.rs\<close>, and \<open>ProjectId::new\<close> of \<open>embyr-core/src/domain/project.rs\<close>. Names are
  handled as texts with slashes; the theorems speak about their segments.
\<close>

section \<open>Statuses\<close>

text \<open>The gRPC codes that the handlers use, and a status. A message that prints a value with its derived
  \<open>Debug\<close> format keeps the text before it and leaves the printed value out.\<close>

datatype code =
    CInvalidArgument | CNotFound | CAlreadyExists | CPermissionDenied | CUnauthenticated
  | CResourceExhausted | CFailedPrecondition | CAborted | CUnimplemented | CInternal

datatype status = Status (status_code: code) (status_message: string)

fun core_error_to_status :: "core_error \<Rightarrow> status" where
  "core_error_to_status (DocumentNotFound s) = Status CNotFound (core_error_message (DocumentNotFound s))"
| "core_error_to_status (AlreadyExists s) = Status CAlreadyExists (core_error_message (AlreadyExists s))"
| "core_error_to_status Unauthenticated = Status CUnauthenticated (core_error_message Unauthenticated)"
| "core_error_to_status (PermissionDenied s) = Status CPermissionDenied (core_error_message (PermissionDenied s))"
| "core_error_to_status (InvalidArgument s) = Status CInvalidArgument (core_error_message (InvalidArgument s))"
| "core_error_to_status OccConflict = Status CAborted (core_error_message OccConflict)"
| "core_error_to_status TransactionAborted = Status CAborted (core_error_message TransactionAborted)"
| "core_error_to_status TransactionNotFound = Status CNotFound (core_error_message TransactionNotFound)"
| "core_error_to_status (ResourceExhausted s) = Status CResourceExhausted (core_error_message (ResourceExhausted s))"
| "core_error_to_status (FailedPrecondition s) = Status CFailedPrecondition (core_error_message (FailedPrecondition s))"
| "core_error_to_status (ProjectNotFound s) = Status CInternal ''internal server error''"
| "core_error_to_status (BackendUnavailable s) = Status CInternal ''internal server error''"

definition aggregation_error_to_status :: "core_error \<Rightarrow> status" where
  "aggregation_error_to_status e =
     (case e of FailedPrecondition s \<Rightarrow> Status CUnimplemented s | other \<Rightarrow> core_error_to_status other)"

section \<open>Project ids\<close>

definition is_valid_project_id :: "string \<Rightarrow> bool" where
  "is_valid_project_id s =
     (let lower = (\<lambda>c. 97 \<le> (of_char c :: nat) \<and> (of_char c :: nat) \<le> 122) in
      s \<noteq> [] \<and> length s \<le> 63 \<and> lower (hd s) \<and>
      list_all (\<lambda>c. lower c \<or> is_ascii_digit c \<or> c = CHR ''-'') (tl s))"

definition project_id_new :: "string \<Rightarrow> (core_error, string) result" where
  "project_id_new s =
     (if is_valid_project_id s then Inr s
      else Inl (InvalidArgument (''project id must match ^[a-z][a-z0-9-]{0,62}$, got: '' @ s)))"

section \<open>Names\<close>

text \<open>The text before and after the first occurrence of a separator, and what \<open>split(sep).nth(1)\<close> returns.\<close>

fun cut_at :: "string \<Rightarrow> string \<Rightarrow> (string \<times> string) option" where
  "cut_at sep [] = (if sep = [] then Some ([], []) else None)"
| "cut_at sep (c # cs) =
     (case strip_prefix sep (c # cs) of
        Some rest \<Rightarrow> Some ([], rest)
      | None \<Rightarrow> map_option (\<lambda>(a, b). (c # a, b)) (cut_at sep cs))"

definition second_piece :: "string \<Rightarrow> string \<Rightarrow> string option" where
  "second_piece sep s =
     map_option (\<lambda>(_, b). case cut_at sep b of Some (a, _) \<Rightarrow> a | None \<Rightarrow> b) (cut_at sep s)"

definition invalid_status :: "core_error \<Rightarrow> status" where
  "invalid_status e = Status CInvalidArgument (core_error_message e)"

definition extract_project_id :: "string \<Rightarrow> (status, string) result" where
  "extract_project_id name =
     (case split_char (CHR ''/'') name of
        p # pid # _ \<Rightarrow>
          if p = ''projects'' \<and> pid \<noteq> [] then map_sum invalid_status id (project_id_new pid)
          else Inl (Status CInvalidArgument (''invalid resource name: '' @ name))
      | _ \<Rightarrow> Inl (Status CInvalidArgument (''invalid resource name: '' @ name)))"

definition parse_document_path :: "string \<Rightarrow> (status, document_path) result" where
  "parse_document_path name =
     rbind (extract_project_id name) (\<lambda>pid.
     rbind (ok_or (Status CInvalidArgument ''resource name missing /documents/'')
         (second_piece ''/documents/'' name)) (\<lambda>after.
       let segs = split_char (CHR ''/'') after in
       rbind (map_sum invalid_status id (project_id_new pid)) (\<lambda>p.
         Inr \<lparr>project_id = p, collection_path = join ''/'' (butlast segs), document_id = last segs\<rparr>)))"

definition parse_parent_prefix :: "string \<Rightarrow> (status, string \<times> string) result" where
  "parse_parent_prefix parent =
     rbind (extract_project_id parent) (\<lambda>pid.
     map_sum id (\<lambda>(_, rest). (pid, dropWhile (\<lambda>c. c = CHR ''/'') rest))
       (ok_or (Status CInvalidArgument ''parent missing /documents'') (cut_at ''/documents'' parent)))"

text \<open>The name that responses give a document.\<close>

definition document_name :: "document_path \<Rightarrow> string" where
  "document_name p = ''projects/'' @ project_id p @ ''/databases/(default)/documents/'' @
     collection_path p @ ''/'' @ document_id p"

section \<open>Segments\<close>

text \<open>Segments, each with a slash in front.\<close>

definition slashed :: "string list \<Rightarrow> string" where
  "slashed ss = concat (map (\<lambda>s. CHR ''/'' # s) ss)"

definition segment :: "string \<Rightarrow> bool" where
  "segment s \<longleftrightarrow> CHR ''/'' \<notin> set s"

text \<open>The segments up to the first \<open>documents\<close> that has a segment after it.\<close>

fun until_documents :: "string list \<Rightarrow> string list" where
  "until_documents [] = []"
| "until_documents (s # ss) = (if s = ''documents'' \<and> ss \<noteq> [] then [] else s # until_documents ss)"

lemma slashed_simps [simp]: "slashed [] = []" "slashed (s # ss) = CHR ''/'' # s @ slashed ss"
  by (simp_all add: slashed_def)

lemma cut_at_before:
  "sep \<noteq> [] \<Longrightarrow> hd sep \<notin> set p \<Longrightarrow> cut_at sep (p @ s) = map_option (\<lambda>(a, b). (p @ a, b)) (cut_at sep s)"
proof (induction p)
  case (Cons c p)
  obtain x xs where "sep = x # xs" using Cons.prems by (cases sep) auto
  then have "strip_prefix sep (c # p @ s) = None" using Cons.prems by simp
  with Cons show ?case by (cases "cut_at sep s") auto
qed (simp add: case_prod_beta option.map_ident_strong)

lemma strip_documents:
  assumes "segment s"
  shows "strip_prefix ''documents/'' (s @ slashed ss) =
    (if s = ''documents'' \<and> ss \<noteq> [] then Some (tl (slashed ss)) else None)"
proof -
  have "s = ''documents'' \<and> ss \<noteq> [] \<and> r = tl (slashed ss)" if "s @ slashed ss = ''documents/'' @ r" for r
  proof -
    have e: "s @ slashed ss = ''documents'' @ CHR ''/'' # r" using that by simp
    have "takeWhile (\<lambda>c. c \<noteq> CHR ''/'') (s @ slashed ss) = s"
      using assms by (cases ss) (auto simp: segment_def takeWhile_append)
    moreover have "takeWhile (\<lambda>c. c \<noteq> CHR ''/'') (''documents'' @ CHR ''/'' # r) = ''documents''" by simp
    ultimately have "s = ''documents''" using e by simp
    with e show ?thesis by (cases ss) auto
  qed
  moreover have "s @ slashed ss = ''documents/'' @ tl (slashed ss)" if "s = ''documents''" "ss \<noteq> []"
    using that by (cases ss) auto
  ultimately show ?thesis
    using strip_prefix_Some_iff [of "''documents/''" "s @ slashed ss"] not_None_eq by (smt (verit, best))
qed

lemma cut_documents:
  "list_all segment (s # ss) \<Longrightarrow> cut_at ''/documents/'' (slashed (s # ss)) =
     (if s = ''documents'' \<and> ss \<noteq> [] then Some ([], tl (slashed ss))
      else map_option (\<lambda>(a, b). (CHR ''/'' # s @ a, b)) (cut_at ''/documents/'' (slashed ss)))"
  using cut_at_before [of "''/documents/''" s "slashed ss"] strip_documents [of s ss]
  by (cases "cut_at ''/documents/'' (slashed ss)") (auto simp: segment_def simp del: strip_prefix.simps(2))

lemma cut_until_documents:
  "list_all segment ss \<Longrightarrow>
     (case cut_at ''/documents/'' (slashed ss) of Some (a, _) \<Rightarrow> a | None \<Rightarrow> slashed ss) = slashed (until_documents ss)"
proof (induction ss)
  case (Cons s ss)
  then show ?case
    using cut_documents [of s ss] by (cases "cut_at ''/documents/'' (slashed ss)") auto
qed simp

lemma slashed_join: "s @ slashed ss = join ''/'' (s # ss)"
  by (induction ss arbitrary: s) auto

lemma split_slashed: "list_all segment (s # ss) \<Longrightarrow> split_char (CHR ''/'') (s @ slashed ss) = s # ss"
  unfolding slashed_join by (intro split_char_join) (auto simp: segment_def list_all_iff)

lemma until_documents_segments: "list_all segment ss \<Longrightarrow> list_all segment (until_documents ss)"
  by (induction ss) auto

lemma until_documents_id: "''documents'' \<notin> set (butlast ss) \<Longrightarrow> until_documents ss = ss"
  by (induction ss) (auto split: if_splits)

text \<open>The full name of the document at the given segments.\<close>

definition resource_name :: "string \<Rightarrow> string list \<Rightarrow> string" where
  "resource_name pid ss = ''projects'' @ slashed (pid # ''databases'' # ''(default)'' # ''documents'' # ss)"

lemma valid_project_segment: "is_valid_project_id pid \<Longrightarrow> pid \<noteq> [] \<and> segment pid"
  by (cases pid) (auto simp: is_valid_project_id_def segment_def Let_def list_all_iff is_ascii_digit_def)

lemma extract_resource_name:
  assumes "is_valid_project_id pid" and "list_all segment ss"
  shows "extract_project_id (resource_name pid ss) = Inr pid"
proof -
  have "split_char (CHR ''/'') (''projects'' @ slashed (pid # ''databases'' # ''(default)'' # ''documents'' # ss)) =
      ''projects'' # pid # ''databases'' # ''(default)'' # ''documents'' # ss"
    using valid_project_segment [OF assms(1)] assms(2) by (intro split_slashed) (simp_all add: segment_def)
  then show ?thesis
    using assms(1) valid_project_segment
    by (simp add: extract_project_id_def resource_name_def project_id_new_def del: slashed_simps(2))
qed

lemma second_piece_resource_name:
  assumes "is_valid_project_id pid" and "pid \<noteq> ''documents''" and "list_all segment (s # ss)"
  shows "second_piece ''/documents/'' (resource_name pid (s # ss)) = Some (s @ slashed (until_documents ss))"
proof -
  let ?cut = "cut_at ''/documents/''"
  have seg: "segment pid" "segment ''databases''" "segment ''(default)''" "segment ''documents''"
    using valid_project_segment [OF assms(1)] by (auto simp: segment_def)
  have "?cut (slashed (pid # ''databases'' # ''(default)'' # ''documents'' # s # ss)) =
      Some (slashed [pid, ''databases'', ''(default)''], s @ slashed ss)"
    using seg assms(2,3) by (simp add: cut_documents del: slashed_simps(2) cut_at.simps(2)) simp
  then have "?cut (resource_name pid (s # ss)) =
      Some (''projects'' @ slashed [pid, ''databases'', ''(default)''], s @ slashed ss)"
    unfolding resource_name_def using cut_at_before [of "''/documents/''" "''projects''"] by simp
  moreover have "?cut (s @ slashed ss) = map_option (\<lambda>(a, b). (s @ a, b)) (?cut (slashed ss))"
    using assms(3) by (intro cut_at_before) (simp_all add: segment_def)
  ultimately show ?thesis
    using cut_until_documents [of ss] assms(3)
    by (cases "?cut (slashed ss)") (auto simp: second_piece_def)
qed

lemma parse_resource_name:
  assumes "is_valid_project_id pid" and "pid \<noteq> ''documents''" and "list_all segment (s # ss)"
  shows "parse_document_path (resource_name pid (s # ss)) =
    Inr \<lparr>project_id = pid, collection_path = join ''/'' (butlast (s # until_documents ss)), document_id = last (s # until_documents ss)\<rparr>"
proof -
  have "split_char (CHR ''/'') (s @ slashed (until_documents ss)) = s # until_documents ss"
    using assms(3) until_documents_segments [of ss] by (intro split_slashed) simp
  then show ?thesis
    using assms(1) extract_resource_name [OF assms(1,3)] second_piece_resource_name [OF assms]
    by (simp add: parse_document_path_def project_id_new_def Let_def del: butlast.simps last.simps)
qed

text \<open>
  Where a document name leads. The name of the document at the segments \<open>s # ss\<close> of a project is read as
  the path that ends before the first later segment \<open>documents\<close> that is not the last one. So a document
  keeps its path exactly when none of its collections or parent documents, the first collection apart, is
  called \<open>documents\<close>; otherwise the request is carried out on an ancestor: \<open>users/u/documents/d\<close> is read as
  the document \<open>users/u\<close>. The project \<open>documents\<close> itself cannot be used: each of its names is read as the
  document \<open>(default)\<close> of a collection \<open>databases\<close>.
\<close>

theorem parse_document_path_correct:
  assumes "is_valid_project_id pid" and "list_all segment (s # ss)"
  shows "parse_document_path (resource_name pid (s # ss)) =
    (if pid = ''documents'' then
       Inr \<lparr>project_id = pid, collection_path = ''databases'', document_id = ''(default)''\<rparr>
     else
       let kept = s # until_documents ss
       in Inr \<lparr>project_id = pid, collection_path = join ''/'' (butlast kept), document_id = last kept\<rparr>)"
proof (cases "pid = ''documents''")
  case True
  have "segment ''documents''" "segment ''databases''" "segment ''(default)''" by (simp_all add: segment_def)
  then have "cut_at ''/documents/'' (slashed (pid # ''databases'' # ''(default)'' # ''documents'' # s # ss)) =
      Some ([], ''databases/(default)/documents'' @ slashed (s # ss))"
    using assms(2) True by (simp add: cut_documents del: slashed_simps(2) cut_at.simps(2)) simp
  moreover have "cut_at ''/documents/'' (''databases/(default)/documents'' @ slashed (s # ss)) =
      Some (''databases/(default)'', s @ slashed ss)"
    by simp
  ultimately have "second_piece ''/documents/'' (resource_name pid (s # ss)) = Some ''databases/(default)''"
    unfolding resource_name_def second_piece_def
    using cut_at_before [of "''/documents/''" "''projects''"] by simp
  moreover have "extract_project_id (resource_name pid (s # ss)) = Inr pid"
    using extract_resource_name [OF assms] .
  ultimately show ?thesis
    using True assms(1) by (simp add: parse_document_path_def project_id_new_def)
next
  case False
  then show ?thesis using parse_resource_name [OF assms(1) False assms(2)] by (simp add: Let_def)
qed

theorem parse_document_path_correct_witness:
  "parse_document_path (resource_name ''app'' [''users'', ''u'', ''documents'', ''d'']) =
     Inr \<lparr>project_id = ''app'', collection_path = ''users'', document_id = ''u''\<rparr>"
  using parse_document_path_correct [of "''app''" "''users''" "[''u'', ''documents'', ''d'']"]
  by (simp add: is_valid_project_id_def is_ascii_digit_def segment_def)

text \<open>
  The name that a response gives a document leads back to it, when no collection or parent document
  after the first collection is called \<open>documents\<close>.
\<close>

theorem document_name_roundtrip:
  assumes "is_valid_project_id (project_id p)" and "project_id p \<noteq> ''documents''"
    and "collection_path p = join ''/'' (s # cs)" and "list_all segment (s # cs)" and "segment (document_id p)"
    and "''documents'' \<notin> set cs"
  shows "parse_document_path (document_name p) = Inr p"
proof -
  have "document_name p = resource_name (project_id p) (s # cs @ [document_id p])"
    unfolding document_name_def resource_name_def assms(3)
    by (simp flip: slashed_join add: slashed_def)
  moreover have "until_documents (cs @ [document_id p]) = cs @ [document_id p]"
    using assms(6) by (simp add: until_documents_id)
  ultimately show ?thesis
    using parse_resource_name [of "project_id p" s "cs @ [document_id p]"] assms
    by (simp del: butlast.simps last.simps flip: append_Cons)
qed

theorem document_name_roundtrip_witness:
  "parse_document_path (document_name \<lparr>project_id = ''app'', collection_path = ''users/u/posts'', document_id = ''p''\<rparr>) =
     Inr \<lparr>project_id = ''app'', collection_path = ''users/u/posts'', document_id = ''p''\<rparr>"
  using document_name_roundtrip
    [of "\<lparr>project_id = ''app'', collection_path = ''users/u/posts'', document_id = ''p''\<rparr>" "''users''" "[''u'', ''posts'']"]
  by (simp add: is_valid_project_id_def is_ascii_digit_def segment_def)

end
