(* ===== verification/Query_Rows.thy ===== *)
theory Query_Rows
  imports Query_Meaning Transactions Resource_Names
begin

text \<open>
  The rows that queries return: the values of the SQL comparisons on a row, the selection of collections
  by \<open>LIKE\<close>, and the second half of \<open>run_query\<close> of \<open>backend_adapter.rs\<close>, which decodes the returned
  rows and registers them in a transaction. The comparisons that Postgres makes on JSON values and on
  casts are the parameters \<open>pg_ops\<close>.
\<close>

section \<open>Comparisons on a row\<close>

record pg_ops =
  jsonb_eq :: "json \<Rightarrow> json \<Rightarrow> bool"
  jsonb_contains :: "json \<Rightarrow> json \<Rightarrow> bool"
  json_text :: "json \<Rightarrow> string"
  scalar_cmp :: "string \<Rightarrow> json option \<Rightarrow> field_value \<Rightarrow> bool option"

record sql_row =
  sr_path :: document_path
  sr_row :: doc_row
  sr_collection_id :: "string option"

text \<open>\<open>string LIKE pattern\<close>: \<open>%\<close> stands for any string, \<open>_\<close> for any character, a backslash
  takes the next character literally.\<close>

fun sql_like :: "string \<Rightarrow> string \<Rightarrow> bool" where
  "sql_like [] s = (s = [])"
| "sql_like (c # p) [] = (c = CHR ''%'' \<and> sql_like p [])"
| "sql_like (c # p) (x # s) =
     (if c = CHR ''%'' then sql_like p (x # s) \<or> sql_like (c # p) s
      else if c = CHR ''_'' then sql_like p s
      else if c = CHR 0x5C then (case p of [] \<Rightarrow> False | e # p' \<Rightarrow> e = x \<and> sql_like p' s)
      else c = x \<and> sql_like p s)"

text \<open>\<open>->>\<close>: the text of a member.\<close>

definition member_text :: "pg_ops \<Rightarrow> json option \<Rightarrow> string \<Rightarrow> string option" where
  "member_text pg v k =
     (case Option.bind v (\<lambda>j. json_get j k) of
        None \<Rightarrow> None
      | Some JNull \<Rightarrow> None
      | Some (JString s) \<Rightarrow> Some s
      | Some j \<Rightarrow> Some (json_text pg j))"

fun atom_value :: "pg_ops \<Rightarrow> sql_row \<Rightarrow> sql_atom \<Rightarrow> tv" where
  "atom_value pg r (AProject s) = Some (project_id (sr_path r) = s)"
| "atom_value pg r (ACollection s) = Some (collection_path (sr_path r) = s)"
| "atom_value pg r (ALike s) = Some (sql_like s (collection_path (sr_path r)))"
| "atom_value pg r (ACollectionId s) = map_option (\<lambda>c. c = s) (sr_collection_id r)"
| "atom_value pg r ANoCollectionId = Some (sr_collection_id r = None)"
| "atom_value pg r ALive = Some (\<not> row_deleted (sr_row r))"
| "atom_value pg r AFalse = Some False"
| "atom_value pg r (APresent fp) = Some (json_get (row_fields (sr_row r)) fp \<noteq> None)"
| "atom_value pg r (AEq fp j neg) = map_option (\<lambda>x. jsonb_eq pg x j \<noteq> neg) (json_get (row_fields (sr_row r)) fp)"
| "atom_value pg r (AContains fp j) =
     map_option (\<lambda>x. jsonb_contains pg x j) (Option.bind (json_get (row_fields (sr_row r)) fp) (\<lambda>v. json_get v ''v''))"
| "atom_value pg r (AScalar fp op v) = scalar_cmp pg op (json_get (row_fields (sr_row r)) fp) v"
| "atom_value pg r (ANan fp) = map_option (\<lambda>t. t = ''NaN'') (member_text pg (json_get (row_fields (sr_row r)) fp) ''v'')"
| "atom_value pg r (ANotNan fp) =
     or3 (Some (json_get (row_fields (sr_row r)) fp = None))
       (map_option (\<lambda>t. t \<noteq> ''NaN'') (member_text pg (json_get (row_fields (sr_row r)) fp) ''v''))"
| "atom_value pg r (ANull fp) = map_option (\<lambda>t. t = ''N'') (member_text pg (json_get (row_fields (sr_row r)) fp) ''t'')"
| "atom_value pg r (ANotNull fp) =
     and3 (Some (json_get (row_fields (sr_row r)) fp \<noteq> None))
       (map_option (\<lambda>t. t \<noteq> ''N'') (member_text pg (json_get (row_fields (sr_row r)) fp) ''t''))"
| "atom_value pg r (AAfter t) = Some (time_ns t < time_ns (row_update_time (sr_row r)))"

text \<open>The rows a query selects.\<close>

definition selects :: "pg_ops \<Rightarrow> store_env \<Rightarrow> bool \<Rightarrow> string \<Rightarrow> string \<Rightarrow> structured_query \<Rightarrow> sql_row \<Rightarrow> bool" where
  "selects pg env sa pid cp q r \<longleftrightarrow>
     sql_eval (atom_value pg r) (and_tokens (condition_parts (b64_encode env) sa pid cp q)) = Some (Some True)"

section \<open>Returned rows\<close>

definition decode_row :: "store_env \<Rightarrow> document_path \<times> doc_row \<Rightarrow> (core_error, firestore_document) result" where
  "decode_row env pr =
     (case project_id_new (project_id (fst pr)) of
        Inl e \<Rightarrow> Inl (BackendUnavailable (core_error_message e))
      | Inr _ \<Rightarrow>
          rbind (decode_fields env (row_fields (snd pr))) (\<lambda>fs.
            Inr \<lparr>path = fst pr, doc_fields = fs, create_time = from_datetime (row_create_time (snd pr)),
                 update_time = from_datetime (row_update_time (snd pr)), version = row_version (snd pr)\<rparr>))"

fun register_documents ::
  "date_time \<Rightarrow> string \<Rightarrow> u8 list \<Rightarrow> firestore_document list \<Rightarrow> database \<Rightarrow> (core_error, unit) result \<times> database" where
  "register_documents now pid tid [] db = (Inr (), db)"
| "register_documents now pid tid (d # ds) db =
     (case record_read now pid tid (path d) (Some (version d)) db of
        (Inl e, db') \<Rightarrow> (Inl e, db')
      | (Inr _, db') \<Rightarrow> register_documents now pid tid ds db')"

text \<open>\<open>run_query\<close> after the database returned \<open>rows\<close>.\<close>

definition run_query_rows ::
  "store_env \<Rightarrow> date_time \<Rightarrow> string \<Rightarrow> u8 list option \<Rightarrow> (document_path \<times> doc_row) list \<Rightarrow> database \<Rightarrow>
     (core_error, firestore_document list) result \<times> database" where
  "run_query_rows env now pid txn rows db =
     (case collect_results (map (decode_row env) rows) of
        Inl e \<Rightarrow> (Inl e, db)
      | Inr docs \<Rightarrow>
          (case txn of
             None \<Rightarrow> (Inr docs, db)
           | Some tid \<Rightarrow>
               (case register_documents now pid tid docs db of
                  (Inl e, db') \<Rightarrow> (Inl e, db')
                | (Inr _, db') \<Rightarrow> (Inr docs, db'))))"

text \<open>The statement of \<open>list_collection_ids\<close>; the length of the prefix is counted in characters.\<close>

definition collection_ids_statement :: "string \<Rightarrow> string \<Rightarrow> i32 \<Rightarrow> i32 \<Rightarrow> piece list" where
  "collection_ids_statement pid prefix lim off =
     [Push ''SELECT DISTINCT ''] @
     (if prefix = [] then [Push (''split_part(collection_path, '' @ quoted_sql ''/'' @ '', 1)'')]
      else [Push ''split_part(substring(collection_path FROM '', PushBind (BI32 (word_of_nat (length prefix) + 2)),
            Push (''), '' @ quoted_sql ''/'' @ '', 1)'')]) @
     [Push '' AS child_id FROM documents WHERE project_id = '', PushBind (BText pid), Push '' AND NOT deleted''] @
     (if prefix = [] then [] else [Push '' AND collection_path LIKE '', PushBind (BText (prefix @ ''/%''))]) @
     [Push '' ORDER BY child_id LIMIT '', PushBind (BI64 (scast lim)), Push '' OFFSET '', PushBind (BI64 (scast off))]"

section \<open>Collection groups\<close>

definition plain :: "string \<Rightarrow> bool" where
  "plain s \<longleftrightarrow> set s \<inter> {CHR ''%'', CHR ''_'', CHR 0x5C} = {}"

lemma sql_like_plain: "plain p \<Longrightarrow> sql_like p s \<longleftrightarrow> s = p"
  by (induction p s rule: sql_like.induct) (auto simp: plain_def)

lemma sql_like_percent: "sql_like (CHR ''%'' # p) s \<longleftrightarrow> (\<exists>a b. s = a @ b \<and> sql_like p b)"
proof (induction s)
  case (Cons x s)
  have "(\<exists>a b. x # s = a @ b \<and> sql_like p b) \<longleftrightarrow> sql_like p (x # s) \<or> (\<exists>a b. s = a @ b \<and> sql_like p b)"
    by (auto simp: Cons_eq_append_conv)
  then show ?case using Cons.IH by simp
qed simp

lemma like_suffix: "plain cid \<Longrightarrow> sql_like (''%/'' @ cid) s \<longleftrightarrow> (\<exists>a. s = a @ CHR ''/'' # cid)"
  using sql_like_plain [of "CHR ''/'' # cid"] by (simp add: sql_like_percent plain_def)

definition last_segment :: "string \<Rightarrow> string" where
  "last_segment s = last (split_char (CHR ''/'') s)"

lemma last_segment_no_slash: "CHR ''/'' \<notin> set (last_segment s)"
  unfolding last_segment_def by (induction "CHR ''/''" s rule: split_char.induct) (auto split: list.splits)

lemma split_char_append: "split_char d (a @ d # b) = split_char d a @ split_char d b"
proof (induction a)
  case (Cons c a)
  obtain p ps where "split_char d a = p # ps" by (cases "split_char d a") auto
  then show ?case using Cons by simp
qed simp

lemma last_segment_append: "CHR ''/'' \<notin> set cid \<Longrightarrow> last_segment (a @ CHR ''/'' # cid) = cid"
  by (simp add: last_segment_def split_char_append split_char_no_sep)

lemma last_segment_split: "s = last_segment s \<or> (\<exists>a. s = a @ CHR ''/'' # last_segment s)"
proof (induction s)
  case (Cons c s)
  show ?case
  proof (cases "c = CHR ''/''")
    case True
    then have "last_segment (c # s) = last_segment s" by (simp add: last_segment_def)
    then show ?thesis using Cons.IH True by (metis append_Cons append_Nil)
  next
    case False
    obtain x xs where x: "split_char (CHR ''/'') s = x # xs" by (cases "split_char (CHR ''/'') s") auto
    then have "last_segment (c # s) = (if xs = [] then c # x else last_segment s)" "xs = [] \<Longrightarrow> last_segment s = x"
      using False by (simp_all add: last_segment_def)
    moreover have "xs = [] \<Longrightarrow> s = x"
      using x join_split_char [of "CHR ''/''" s] by simp
    moreover have "xs \<noteq> [] \<Longrightarrow> \<exists>a. s = a @ CHR ''/'' # last_segment s"
    proof -
      assume "xs \<noteq> []"
      then have "CHR ''/'' \<in> set s" using x split_char_no_sep [of "CHR ''/''" s] by fastforce
      then show ?thesis using Cons.IH last_segment_no_slash [of s] by metis
    qed
    ultimately show ?thesis by (metis append_Cons)
  qed
qed (simp add: last_segment_def)

lemma group_by_path:
  assumes "plain cid" and "CHR ''/'' \<notin> set cid"
  shows "s = cid \<or> sql_like (''%/'' @ cid) s \<longleftrightarrow> last_segment s = cid"
proof -
  have "last_segment cid = cid" using assms(2) by (simp add: last_segment_def split_char_no_sep)
  then show ?thesis
    using like_suffix [OF assms(1), of s] last_segment_append [OF assms(2)] last_segment_split [of s] by auto
qed

lemma group_condition:
  assumes "query_statement enc sa pid cid q = Some ps" and "all_descendants q"
    and "query_filter_of q = None" and "since_update_time q = None" and "start_at q = None" and "end_at q = None"
  shows "sql_eval (atom_value pg r) (and_tokens (condition_parts enc sa pid cid q)) = Some (Some True) \<longleftrightarrow>
    project_id (sr_path r) = pid \<and> \<not> row_deleted (sr_row r) \<and>
    (case (sa, sr_collection_id r) of
       (True, Some c) \<Rightarrow> c = cid
     | _ \<Rightarrow> collection_path (sr_path r) = cid \<or> sql_like (''%/'' @ cid) (collection_path (sr_path r)))"
proof -
  have "sql_eval (atom_value pg r) (and_tokens (condition_parts enc sa pid cid q)) =
      Some (and_values (condition_values enc (atom_value pg r) sa pid cid q))"
    using condition_eval [OF assms(1)] assms(3) by simp
  then show ?thesis
    using assms(2-)
    by (auto simp: condition_values_def Let_def and3_True_iff or3_True_iff split: option.splits bool.splits)
qed

definition example_pg :: pg_ops where
  "example_pg = \<lparr>jsonb_eq = (=), jsonb_contains = (\<lambda>x y. x = y), json_text = (\<lambda>_. []), scalar_cmp = (\<lambda>_ _ _. None)\<rparr>"

definition example_row :: sql_row where
  "example_row = \<lparr>sr_path = \<lparr>project_id = ''p'', collection_path = ''users'', document_id = ''ann''\<rparr>,
     sr_row = new_row example_env (fields_to_json toy_encode [(''owner'', FString ''u'')]) (8, 0), sr_collection_id = None\<rparr>"

definition example_group :: structured_query where
  "example_group = \<lparr>query_collection_id = ''a_b'', all_descendants = True, query_filter_of = None, query_order_by = [],
     query_limit = None, query_offset = None, start_at = None, end_at = None, since_update_time = None\<rparr>"

text \<open>
  What a collection group query selects. The condition of the statement holds for exactly the live rows of the
  project whose stored collection id is the requested one, where the database has that column and the row
  has been given its id; otherwise for the rows whose collection path is the id or matches the pattern that
  ends with it. For an id without \<open>%\<close>, \<open>_\<close>, backslash and slash both mean that the id is the last segment of
  the path, so that the schema of the database does not matter. Other ids are taken as patterns: the group
  \<open>a_b\<close> also returns documents of \<open>aXb\<close> (the witness shows it).
\<close>

theorem collection_group_exact:
  assumes "query_statement enc sa pid cid q = Some ps" and "all_descendants q"
    and "query_filter_of q = None" and "since_update_time q = None" and "start_at q = None" and "end_at q = None"
    and "sr_collection_id r \<in> {None, Some (last_segment (collection_path (sr_path r)))}"
  shows "\<exists>ts tail. query_tail q = Some tail \<and> flat ps = map Inl select_list @ flat_tokens enc ts @ flat tail \<and>
    (sql_eval (atom_value pg r) ts = Some (Some True) \<longleftrightarrow>
       project_id (sr_path r) = pid \<and> \<not> row_deleted (sr_row r) \<and>
       (case (sa, sr_collection_id r) of
          (True, Some c) \<Rightarrow> c = cid
        | _ \<Rightarrow> collection_path (sr_path r) = cid \<or> sql_like (''%/'' @ cid) (collection_path (sr_path r)))) \<and>
    (plain cid \<and> CHR ''/'' \<notin> set cid \<longrightarrow>
       (sql_eval (atom_value pg r) ts = Some (Some True) \<longleftrightarrow>
          project_id (sr_path r) = pid \<and> \<not> row_deleted (sr_row r) \<and>
          last_segment (collection_path (sr_path r)) = cid))"
proof -
  obtain tail where tail: "query_tail q = Some tail"
    "flat ps = map Inl select_list @ flat_tokens enc (and_tokens (condition_parts enc sa pid cid q)) @ flat tail"
    using statement_tokens [OF assms(1)] by blast
  show ?thesis
    using tail group_condition [OF assms(1-6), of pg r] group_by_path [of cid "collection_path (sr_path r)"] assms(7)
    by (intro exI [of _ "and_tokens (condition_parts enc sa pid cid q)"] exI [of _ tail]) (auto split: bool.splits)
qed

theorem collection_group_exact_witness:
  "\<exists>ps ts tail. query_statement toy_encode False ''p'' ''a_b'' example_group = Some ps \<and>
     flat ps = map Inl select_list @ flat_tokens toy_encode ts @ flat tail \<and>
     sql_eval (atom_value example_pg (example_row\<lparr>sr_path := \<lparr>project_id = ''p'', collection_path = ''x/aXb'', document_id = ''d''\<rparr>\<rparr>))
       ts = Some (Some True)"
proof -
  obtain ps where ps: "query_statement toy_encode False ''p'' ''a_b'' example_group = Some ps"
    by (simp add: query_statement_def where_common_def cursor_bound_def order_clause_def example_group_def)
  let ?r = "example_row\<lparr>sr_path := \<lparr>project_id = ''p'', collection_path = ''x/aXb'', document_id = ''d''\<rparr>\<rparr>"
  have "sr_collection_id ?r = None" "\<not> row_deleted (sr_row ?r)" by (simp_all add: example_row_def new_row_def)
  then show ?thesis
    using collection_group_exact [OF ps, of ?r example_pg] ps by (auto simp: example_group_def)
qed

text \<open>A NaN filter compares the text of the stored value, so it also selects the string \<open>NaN\<close>.\<close>

lemma is_nan_selects_strings:
  assumes "row_fields (sr_row r) = fields_to_json enc [(fp, v)]" and "v = FString ''NaN'' \<or> (\<exists>d. v = FDouble d \<and> is_nan d)"
  shows "atom_value pg r (ANan fp) = Some True"
  using assms
  by (auto simp: fields_to_json_def bt_get_def member_text_def double_to_json_def tagged_def)

section \<open>Selected rows\<close>

lemma selects_parts:
  assumes "selects pg env sa pid cp q r"
    and "\<And>f. query_filter_of q = Some f \<Longrightarrow> nonempty_filter f \<and> append_filter (b64_encode env) f \<noteq> None"
  shows "\<forall>v \<in> set (condition_values (b64_encode env) (atom_value pg r) sa pid cp q). v = Some True"
proof -
  have "reads_as (atom_value pg r) (and_tokens (condition_parts (b64_encode env) sa pid cp q))
      (and_values (condition_values (b64_encode env) (atom_value pg r) sa pid cp q))"
    using condition_reads assms(2) by (intro reads_as_and_tokens) (auto simp: condition_parts_def)
  then show ?thesis
    using assms(1) sql_eval_reads_as and_values_True unfolding selects_def by fastforce
qed

lemma filter_matches_value:
  assumes "filter_value_of enc val f = Some True"
    and "\<And>ff. field_filter_value enc val ff = Some True \<Longrightarrow> sat ff d"
  shows "filter_matches sat f d"
  using assms(1)
proof (induction f)
  case (CompositeOr fs)
  then obtain f where "f \<in> set fs" "filter_value_of enc val f = Some True" by (auto simp: or_values_True)
  then show ?case using CompositeOr.IH by auto
qed (auto simp: and_values_True assms(2))

lemma those_entries_keys:
  "those (map (\<lambda>e. map_option (Pair (fst e)) (f (snd e))) m) = Some es \<Longrightarrow> map fst es = map fst m"
  by (induction m arbitrary: es) (auto split: option.splits)

lemma those_entries_get:
  "those (map (\<lambda>e. map_option (Pair (fst e)) (f (snd e))) m) = Some es \<Longrightarrow> map_of m k = Some j \<Longrightarrow>
     \<exists>v. f j = Some v \<and> map_of es k = Some v"
  by (induction m arbitrary: es) (auto split: option.splits if_splits)

lemma decoded_string:
  assumes "json_to_fields dec (JObject m) = Some fs" and "bt_wf m"
    and "json_get (JObject m) k = Some (tagged ''S'' (JString s))"
  shows "bt_get fs k = Some (FString s)"
proof -
  obtain es where es: "those (map (\<lambda>e. map_option (Pair (fst e)) (json_to_field_value dec (snd e))) m) = Some es"
    "fs = map_of_entries es"
    using assms(1) by (auto simp: json_to_fields_def)
  have "bt_wf es" using those_entries_keys [OF es(1)] assms(2) by (simp add: bt_wf_def)
  then have "fs = es" using es(2) map_of_entries_sorted by simp
  moreover have "json_to_field_value dec (tagged ''S'' (JString s)) = Some (FString s)"
    by (simp add: json_to_field_value.simps scalar_of_json_def)
  ultimately show ?thesis
    using those_entries_get [OF es(1), of k] assms(3) by (auto simp: bt_get_def)
qed

end
