(* ===== verification/Proto_Values.thy ===== *)
theory Proto_Values
  imports Document_Store Resource_Names
begin

text \<open>
  Protocol values: \<open>embyr-server/src/encoding/firestore_proto.rs\<close> and the helpers of \<open>grpc/handler.rs\<close> that
  translate preconditions and field transforms. The protocol's \<open>HashMap\<close> of fields is the list of its
  entries in the order of iteration; the translation to an ordered map does not depend on that order.
\<close>

section \<open>Values\<close>

datatype proto_value =
    PUnset
  | PNull
  | PBoolean bool
  | PInteger i64
  | PDouble f64
  | PTimestamp i64 i32
  | PString string
  | PBytes "u8 list"
  | PReference string
  | PGeoPoint f64 f64
  | PArray "proto_value list"
  | PMap "(string \<times> proto_value) list"

fun field_value_to_proto :: "field_value \<Rightarrow> proto_value" where
  "field_value_to_proto FNull = PNull"
| "field_value_to_proto (FBoolean b) = PBoolean b"
| "field_value_to_proto (FInteger i) = PInteger i"
| "field_value_to_proto (FDouble d) = PDouble d"
| "field_value_to_proto (FString s) = PString s"
| "field_value_to_proto (FBytes b) = PBytes b"
| "field_value_to_proto (FReference r) = PReference r"
| "field_value_to_proto (FTimestamp s n) = PTimestamp s n"
| "field_value_to_proto (FArray vs) = PArray (map field_value_to_proto vs)"
| "field_value_to_proto (FMap m) = PMap (map (\<lambda>e. (fst e, field_value_to_proto (snd e))) m)"

definition fields_to_proto :: "fields \<Rightarrow> (string \<times> proto_value) list" where
  "fields_to_proto fs = map (\<lambda>e. (fst e, field_value_to_proto (snd e))) fs"

fun proto_value_to_field_value :: "proto_value \<Rightarrow> field_value option" where
  "proto_value_to_field_value PUnset = None"
| "proto_value_to_field_value PNull = Some FNull"
| "proto_value_to_field_value (PBoolean b) = Some (FBoolean b)"
| "proto_value_to_field_value (PInteger i) = Some (FInteger i)"
| "proto_value_to_field_value (PDouble d) = Some (FDouble d)"
| "proto_value_to_field_value (PString s) = Some (FString s)"
| "proto_value_to_field_value (PBytes b) = Some (FBytes b)"
| "proto_value_to_field_value (PReference r) = Some (FReference r)"
| "proto_value_to_field_value (PTimestamp s n) = Some (FTimestamp s n)"
| "proto_value_to_field_value (PArray vs) = map_option FArray (those (map proto_value_to_field_value vs))"
| "proto_value_to_field_value (PMap m) =
     map_option (\<lambda>es. FMap (map_of_entries es))
       (those (map (\<lambda>e. map_option (Pair (fst e)) (proto_value_to_field_value (snd e))) m))"
| "proto_value_to_field_value (PGeoPoint lat lng) = None"

definition proto_fields_to_domain :: "(string \<times> proto_value) list \<Rightarrow> fields option" where
  "proto_fields_to_domain m =
     map_option map_of_entries
       (those (map (\<lambda>e. map_option (Pair (fst e)) (proto_value_to_field_value (snd e))) m))"

record proto_document =
  proto_name :: string
  proto_fields :: "(string \<times> proto_value) list"
  proto_create_time :: "(i64 \<times> i32) option"
  proto_update_time :: "(i64 \<times> i32) option"

definition document_to_proto :: "firestore_document \<Rightarrow> proto_document" where
  "document_to_proto d = \<lparr>proto_name = document_name (path d), proto_fields = fields_to_proto (doc_fields d),
     proto_create_time = Some (create_time d), proto_update_time = Some (update_time d)\<rparr>"

section \<open>Round trip\<close>

text \<open>Entries of well-formed maps come back whatever order they arrive in.\<close>

lemma those_map_entries:
  "(\<And>e. e \<in> set m \<Longrightarrow> f (g (snd e)) = Some (snd e)) \<Longrightarrow>
     those (map (\<lambda>e. map_option (Pair (fst e)) (f (snd e))) (map (\<lambda>e. (fst e, g (snd e))) m)) = Some m"
  by (induction m) auto

lemma map_of_entries_fold: "map_of_entries es = fold (\<lambda>(k, v). bt_insert k v) es []"
  by (simp add: map_of_entries_def foldl_conv_fold case_prod_unfold)

lemma map_of_entries_reordered:
  assumes "bt_wf m" and "distinct (map fst es)" and "set es = set m"
  shows "map_of_entries es = m"
proof (rule bt.extensional)
  have "distinct (map fst m)" using assms(1) by (simp add: bt_wf_def strict_sorted_iff)
  moreover have "distinct (map fst (rev es))" using assms(2) by (simp add: rev_map [symmetric])
  ultimately have "map_of (rev es) = map_of m"
    using assms(3) by (metis map_of_inject_set set_rev)
  then show "bt_get (map_of_entries es) = bt_get m"
    by (simp add: map_of_entries_fold bt.lookup_fold_insert) (simp add: fun_eq_iff bt_get_def map_add_def split: option.split)
  show "bt_wf (map_of_entries es)"
    unfolding map_of_entries_fold by (intro bt.valid_fold_insert bt.valid_empty)
qed (rule assms(1))

lemma proto_roundtrip:
  shows "fv_wf v \<Longrightarrow> proto_value_to_field_value (field_value_to_proto v) = Some v"
    and "fv_wf_list xs \<Longrightarrow> those (map proto_value_to_field_value (map field_value_to_proto xs)) = Some xs"
    and "fv_wf_map m \<Longrightarrow> (\<forall>e \<in> set m. proto_value_to_field_value (field_value_to_proto (snd e)) = Some (snd e))"
proof (induction v and xs and m rule: fv_wf_fv_wf_list_fv_wf_map.induct)
  case (2 m)
  then have "those (map (\<lambda>e. map_option (Pair (fst e)) (proto_value_to_field_value (snd e)))
      (map (\<lambda>e. (fst e, field_value_to_proto (snd e))) m)) = Some m"
    by (intro those_map_entries) simp
  then show ?case using 2 map_of_entries_sorted by simp
qed auto

text \<open>
  A document's fields come back from their protocol form, in whatever order the entries arrive.
\<close>

theorem proto_fields_roundtrip:
  assumes "bt_wf fs" and "fv_wf_map fs" and "set es = set (fields_to_proto fs)" and "distinct (map fst es)"
  shows "proto_fields_to_domain es = Some fs"
proof -
  let ?d = "\<lambda>e. map_option (Pair (fst e)) (proto_value_to_field_value (snd e))"
  have ok: "?d e \<noteq> None" if "e \<in> set es" for e
    using that proto_roundtrip(3) [OF assms(2)] assms(3) by (auto simp: fields_to_proto_def)
  obtain xs where xs: "map ?d es = map Some xs"
  proof
    show "map ?d es = map Some (map (\<lambda>e. the (?d e)) es)" using ok by auto
  qed
  have "Some ` set xs = ?d ` set (fields_to_proto fs)"
    using xs assms(3) by (metis image_set)
  also have "\<dots> = Some ` set fs"
    using proto_roundtrip(3) [OF assms(2)] by (force simp: fields_to_proto_def image_image)
  finally have "set xs = set fs" by (simp add: inj_image_eq_iff)
  moreover have "map fst xs = map fst es"
  proof -
    have "map (map_option fst) (map Some xs) = map (map_option fst) (map ?d es)" using xs by simp
    also have "\<dots> = map (\<lambda>e. Some (fst e)) es"
      using ok by (auto simp: option.map_comp comp_def)
    finally have "map Some (map fst xs) = map Some (map fst es)" by (simp add: comp_def)
    then show ?thesis using inj_map_eq_map [OF inj_Some] by blast
  qed
  moreover have "those (map ?d es) = Some xs" unfolding xs by (induction xs) auto
  ultimately show ?thesis
    using map_of_entries_reordered [OF assms(1), of xs] assms(4) by (simp add: proto_fields_to_domain_def)
qed

theorem proto_fields_roundtrip_witness:
  "proto_fields_to_domain [(''b'', PArray [PNull, PInteger 3]), (''a'', PMap [(''x'', PTimestamp (-3) 5)])] =
     Some [(''a'', FMap [(''x'', FTimestamp (-3) 5)]), (''b'', FArray [FNull, FInteger 3])]"
  by (rule proto_fields_roundtrip) (auto simp: bt_wf_def fields_to_proto_def)

section \<open>Writes\<close>

datatype proto_precondition = PcUnset | PcExists bool | PcUpdateTime i64 i32

definition convert_precondition :: "proto_precondition option \<Rightarrow> write_precondition option" where
  "convert_precondition p =
     (case p of
        None \<Rightarrow> None
      | Some PcUnset \<Rightarrow> None
      | Some (PcExists b) \<Rightarrow> Some (if b then MustExist else MustNotExist)
      | Some (PcUpdateTime s n) \<Rightarrow> Some (UpdateTime s n))"

text \<open>\<open>ServerValue::RequestTime\<close> is 1 in the protocol.\<close>

datatype transform_type =
    TUnset
  | TSetToServerValue i32
  | TIncrement proto_value
  | TMaximum proto_value
  | TMinimum proto_value
  | TAppendMissingElements "proto_value list"
  | TRemoveAllFromArray "proto_value list"

definition translate_numeric_operand :: "proto_value \<Rightarrow> field_value option" where
  "translate_numeric_operand v =
     (case proto_value_to_field_value v of
        Some (FInteger i) \<Rightarrow> Some (FInteger i)
      | Some (FDouble d) \<Rightarrow> Some (FDouble d)
      | _ \<Rightarrow> None)"

definition translate_array_operand :: "proto_value list \<Rightarrow> field_value list option" where
  "translate_array_operand vs = those (map proto_value_to_field_value vs)"

definition translate_field_transform :: "string \<times> transform_type \<Rightarrow> (status, field_transform) result" where
  "translate_field_transform ft =
     (let fp = fst ft; bad = (\<lambda>s. Status CInvalidArgument s) in
      case snd ft of
        TSetToServerValue raw \<Rightarrow>
          if raw = 1 then Inr (ServerTimestamp fp) else Inl (bad ''unsupported ServerValue in field transform'')
      | TIncrement v \<Rightarrow> map_sum id (Increment fp) (ok_or (bad ''increment delta must be numeric'') (translate_numeric_operand v))
      | TMaximum v \<Rightarrow> map_sum id (Maximum fp) (ok_or (bad ''maximum comparand must be numeric'') (translate_numeric_operand v))
      | TMinimum v \<Rightarrow> map_sum id (Minimum fp) (ok_or (bad ''minimum comparand must be numeric'') (translate_numeric_operand v))
      | TAppendMissingElements vs \<Rightarrow>
          map_sum id (AppendMissingElements fp) (ok_or (bad ''invalid field value in write'') (translate_array_operand vs))
      | TRemoveAllFromArray vs \<Rightarrow>
          map_sum id (RemoveAllFromArray fp) (ok_or (bad ''invalid field value in write'') (translate_array_operand vs))
      | TUnset \<Rightarrow> Inl (bad ''field transform missing transform_type''))"

definition translate_field_transforms :: "(string \<times> transform_type) list \<Rightarrow> (status, field_transform list) result" where
  "translate_field_transforms fts = collect_results (map translate_field_transform fts)"

end
