(* ===== verification/Path_Routing.thy ===== *)
theory Path_Routing
  imports Prelude
begin

text \<open>
  \<open>embyr-core/src/access_control/path_routing.rs\<close>: matching of path patterns against concrete
  paths at request time, and overlap and containment of patterns at import time. A concrete path
  is a list of literal segments, even in length when it names a document. The semantics is the
  set of concrete paths a pattern reaches.
\<close>

section \<open>Segments and operations\<close>

datatype path_segment =
    Literal string
  | Wildcard string
  | RecursiveWildcard

fun even_literals :: "nat \<Rightarrow> path_segment list \<Rightarrow> string list" where
  "even_literals i [] = []"
| "even_literals i (seg # segs) =
     (case (even i, seg) of
        (True, Literal s) \<Rightarrow> s # even_literals (Suc i) segs
      | _ \<Rightarrow> even_literals (Suc i) segs)"

definition literal_skeleton :: "path_segment list \<Rightarrow> string" where
  "literal_skeleton segs = join ''/'' (even_literals 0 segs)"

fun positions_compatible :: "path_segment \<Rightarrow> path_segment \<Rightarrow> bool" where
  "positions_compatible RecursiveWildcard b = False"
| "positions_compatible a RecursiveWildcard = False"
| "positions_compatible (Literal x) (Literal y) = (x = y)"
| "positions_compatible (Wildcard n) b = True"
| "positions_compatible a (Wildcard n) = True"

definition structurally_overlap :: "path_segment list \<Rightarrow> path_segment list \<Rightarrow> bool" where
  "structurally_overlap a b \<longleftrightarrow>
     length a = length b \<and> list_all (\<lambda>(x, y). positions_compatible x y) (zip a b)"

text \<open>The loop shared by the two binding functions: one step per zipped position.\<close>

fun bind_positions ::
  "(path_segment \<times> path_segment) list \<Rightarrow> string btree_map \<Rightarrow> string btree_map option" where
  "bind_positions [] bindings = Some bindings"
| "bind_positions ((p, c) # ps) bindings =
     (if \<not> positions_compatible p c then None
      else case (p, c) of
        (Wildcard name, Literal v) \<Rightarrow> bind_positions ps (bt_insert name v bindings)
      | _ \<Rightarrow> bind_positions ps bindings)"

definition bind_ancestor ::
  "path_segment list \<Rightarrow> path_segment list \<Rightarrow> string btree_map option" where
  "bind_ancestor pat conc =
     (if length pat \<noteq> length conc then None else bind_positions (zip pat conc) [])"

definition bind_recursive_prefix ::
  "path_segment list \<Rightarrow> path_segment list \<Rightarrow> (string btree_map \<times> nat) option" where
  "bind_recursive_prefix prefix conc =
     (if length conc < length prefix then None
      else case bind_positions (zip prefix conc) [] of
        None \<Rightarrow> None
      | Some bindings \<Rightarrow> Some (bindings, length conc - length prefix))"

fun generalizes :: "path_segment \<Rightarrow> path_segment \<Rightarrow> bool" where
  "generalizes (Literal x) (Literal y) = (x = y)"
| "generalizes (Wildcard n) s = True"
| "generalizes (Literal x) (Wildcard n) = False"
| "generalizes _ _ = False"

definition fixed_depth_full_reach :: "path_segment list \<Rightarrow> path_segment list" where
  "fixed_depth_full_reach ancestor = ancestor @ [Wildcard []]"

datatype prefix_relation =
    Disjoint
  | Contains bool
  | AmbiguousOverlap

definition classify_prefix_relation ::
  "path_segment list \<Rightarrow> path_segment list \<Rightarrow> prefix_relation" where
  "classify_prefix_relation a b =
     (if length a = length b then
        (if structurally_overlap a b then AmbiguousOverlap else Disjoint)
      else
        let (shorter, longer, deeper_is_b) =
              (if length a < length b then (a, b, True) else (b, a, False))
        in if list_all (\<lambda>(g, s). generalizes g s) (zip shorter longer) then Contains deeper_is_b
           else if list_all (\<lambda>(x, y). positions_compatible x y) (zip shorter longer)
           then AmbiguousOverlap
           else Disjoint)"

section \<open>Reach\<close>

text \<open>What a pattern position accepts, what a fixed-depth pattern matches, and the documents a
  recursive prefix reaches: every concrete path that extends an instance of the prefix.\<close>

fun seg_accepts :: "path_segment \<Rightarrow> string \<Rightarrow> bool" where
  "seg_accepts (Literal x) s = (x = s)"
| "seg_accepts (Wildcard n) s = True"
| "seg_accepts RecursiveWildcard s = False"

definition instance_of :: "path_segment list \<Rightarrow> string list \<Rightarrow> bool" where
  "instance_of pat ss \<longleftrightarrow> list_all2 seg_accepts pat ss"

definition reach :: "path_segment list \<Rightarrow> string list set" where
  "reach prefix = {ss. \<exists>xs ys. ss = xs @ ys \<and> instance_of prefix xs}"

definition no_recursive :: "path_segment list \<Rightarrow> bool" where
  "no_recursive segs \<longleftrightarrow> RecursiveWildcard \<notin> set segs"

fun segment_wildcards :: "path_segment list \<Rightarrow> string list" where
  "segment_wildcards [] = []"
| "segment_wildcards (Wildcard n # segs) = n # segment_wildcards segs"
| "segment_wildcards (_ # segs) = segment_wildcards segs"

text \<open>Filling the wildcards of a pattern from a set of bindings.\<close>

fun subst_segment :: "string btree_map \<Rightarrow> path_segment \<Rightarrow> path_segment" where
  "subst_segment b (Wildcard n) = (case bt_get b n of Some v \<Rightarrow> Literal v | None \<Rightarrow> Wildcard n)"
| "subst_segment b seg = seg"

definition lits :: "string list \<Rightarrow> path_segment list" where
  "lits = map Literal"

section \<open>Lemmas\<close>

lemma lits_simps [simp]:
  "lits [] = []" "lits (s # ss) = Literal s # lits ss" "length (lits ss) = length ss"
  by (simp_all add: lits_def)

lemma compatible_literal [simp]: "positions_compatible p (Literal s) = seg_accepts p s"
  by (cases p) auto

lemma compatible_iff:
  "positions_compatible a b \<longleftrightarrow> (\<exists>s. seg_accepts a s \<and> seg_accepts b s)"
  by (cases a; cases b) auto

lemma generalizes_iff:
  assumes "b \<noteq> RecursiveWildcard" and "a \<noteq> RecursiveWildcard"
  shows "generalizes a b \<longleftrightarrow> (\<forall>s. seg_accepts b s \<longrightarrow> seg_accepts a s)"
proof (cases a)
  case (Literal x)
  have "CHR ''a'' # x \<noteq> x" by simp
  then show ?thesis
    using Literal assms(1) by (cases b) auto
qed (use assms in auto)

lemma bind_positions_Some_iff:
  "length pat \<le> length ss \<Longrightarrow>
     (\<exists>b'. bind_positions (zip pat (lits ss)) b = Some b') \<longleftrightarrow>
     instance_of pat (take (length pat) ss)"
proof (induction pat arbitrary: ss b)
  case Nil
  then show ?case by (simp add: instance_of_def)
next
  case (Cons p pat)
  then obtain s ss' where "ss = s # ss'" by (cases ss) auto
  with Cons show ?case by (cases p) (auto simp: instance_of_def)
qed

lemma bind_positions_eq_fold:
  "instance_of pat ss \<Longrightarrow>
     bind_positions (zip pat (lits ss)) b =
     Some (fold (\<lambda>(k, v). bt_insert k v)
       (map (\<lambda>(p, s). (case p of Wildcard n \<Rightarrow> n | _ \<Rightarrow> [], s))
         (filter (\<lambda>(p, s). \<exists>n. p = Wildcard n) (zip pat ss))) b)"
proof (induction pat arbitrary: ss b)
  case Nil
  then show ?case by simp
next
  case (Cons p pat)
  then obtain s ss' where "ss = s # ss'" by (cases ss) (auto simp: instance_of_def)
  with Cons show ?case by (cases p) (auto simp: instance_of_def)
qed

lemma reach_iff: "ss \<in> reach pat \<longleftrightarrow> length pat \<le> length ss \<and> instance_of pat (take (length pat) ss)"
proof
  assume "ss \<in> reach pat"
  then obtain xs ys where "ss = xs @ ys" "instance_of pat xs" by (auto simp: reach_def)
  moreover from this have "length pat = length xs"
    by (simp add: instance_of_def list_all2_lengthD)
  ultimately show "length pat \<le> length ss \<and> instance_of pat (take (length pat) ss)" by simp
next
  assume "length pat \<le> length ss \<and> instance_of pat (take (length pat) ss)"
  then show "ss \<in> reach pat"
    unfolding reach_def
    by (intro CollectI exI [of _ "take (length pat) ss"] exI [of _ "drop (length pat) ss"]) simp
qed

text \<open>Two patterns have a common instance on their common positions exactly when the zipped
  positions are compatible.\<close>

lemma common_instance_iff:
  assumes "length a \<le> length b" and "no_recursive b"
  shows "list_all (\<lambda>(x, y). positions_compatible x y) (zip a b) \<longleftrightarrow>
    (\<exists>ss. instance_of b ss \<and> instance_of a (take (length a) ss))"
  using assms
proof (induction a arbitrary: b)
  case Nil
  have "\<exists>ss. instance_of b ss"
    using Nil(2)
  proof (induction b)
    case Nil
    then show ?case by (auto simp: instance_of_def)
  next
    case (Cons y b)
    then obtain ss where "instance_of b ss" by (auto simp: no_recursive_def)
    moreover have "\<exists>s. seg_accepts y s" using Cons.prems by (cases y) (auto simp: no_recursive_def)
    ultimately show ?case by (auto simp: instance_of_def list_all2_Cons1)
  qed
  then show ?case by (simp add: instance_of_def)
next
  case (Cons x a)
  then obtain y b' where b: "b = y # b'" by (cases b) auto
  with Cons have IH: "list_all (\<lambda>(x, y). positions_compatible x y) (zip a b') \<longleftrightarrow>
    (\<exists>ss. instance_of b' ss \<and> instance_of a (take (length a) ss))"
    by (auto simp: no_recursive_def)
  show ?case
    unfolding b using IH
    by (auto simp: instance_of_def list_all2_Cons1 compatible_iff) fastforce
qed

lemma instance_generalizes:
  assumes "list_all (\<lambda>(g, s). generalizes g s) (zip a b)" "length a \<le> length b" "instance_of b ss"
  shows "instance_of a (take (length a) ss)"
  using assms
proof (induction a arbitrary: b ss)
  case Nil
  then show ?case by (simp add: instance_of_def)
next
  case (Cons x a)
  then obtain y b' s ss' where *: "b = y # b'" "ss = s # ss'"
    by (cases b; cases ss) (auto simp: instance_of_def)
  have "seg_accepts x s"
    using Cons.prems * by (cases x; cases y) (auto simp: instance_of_def)
  with Cons * show ?case by (auto simp: instance_of_def)
qed

lemma not_generalizes_witness:
  assumes "\<not> list_all (\<lambda>(g, s). generalizes g s) (zip a b)" "length a \<le> length b"
    "no_recursive a" "no_recursive b"
  shows "\<exists>ss. instance_of b ss \<and> \<not> instance_of a (take (length a) ss)"
  using assms
proof (induction a arbitrary: b)
  case Nil
  then show ?case by simp
next
  case (Cons x a)
  then obtain y b' where b: "b = y # b'" by (cases b) auto
  have ne: "\<exists>ss. instance_of c ss" if "no_recursive c" for c
    using common_instance_iff [of "[]" c] that by (auto simp: instance_of_def)
  show ?case
  proof (cases "generalizes x y")
    case True
    with Cons.prems b obtain ss where ss: "instance_of b' ss" "\<not> instance_of a (take (length a) ss)"
      using Cons.IH [of b'] by (auto simp: no_recursive_def)
    obtain s where "seg_accepts y s" using Cons.prems b by (cases y) (auto simp: no_recursive_def)
    with ss b show ?thesis
      by (auto simp: instance_of_def intro!: exI [of _ "s # ss"])
  next
    case False
    then obtain s where s: "seg_accepts y s" "\<not> seg_accepts x s"
      using generalizes_iff [of y x] Cons.prems b by (auto simp: no_recursive_def)
    moreover obtain ss where "instance_of b' ss"
      using ne [of b'] Cons.prems b by (auto simp: no_recursive_def)
    ultimately show ?thesis
      unfolding b by (auto simp: instance_of_def intro!: exI [of _ "s # ss"])
  qed
qed

section \<open>Binding\<close>

lemma bind_ancestor_lits:
  "bind_ancestor pat (lits ss) =
     (if length pat = length ss then bind_positions (zip pat (lits ss)) [] else None)"
  by (simp add: bind_ancestor_def)

lemma bind_ancestor_Some_iff:
  "(\<exists>b. bind_ancestor pat (lits ss) = Some b) \<longleftrightarrow> instance_of pat ss"
proof (cases "length pat = length ss")
  case True
  then show ?thesis
    using bind_positions_Some_iff [of pat ss "[]"] by (simp add: bind_ancestor_lits)
next
  case False
  then show ?thesis
    by (auto simp: bind_ancestor_lits instance_of_def dest: list_all2_lengthD)
qed

lemma bind_positions_keeps:
  "bind_positions ps b = Some b' \<Longrightarrow>
     k \<notin> set (segment_wildcards (map fst ps)) \<Longrightarrow> bt_get b' k = bt_get b k"
proof (induction ps b rule: bind_positions.induct)
  case (2 p c ps b)
  then show ?case
    by (cases p; cases c) (auto simp: bt.lookup_insert split: if_splits)
qed simp

lemma bind_positions_subst:
  assumes "bind_positions (zip pat (lits ss)) b = Some b'" "length pat = length ss"
    "distinct (segment_wildcards pat)"
  shows "map (subst_segment b') pat = lits ss"
  using assms
proof (induction pat arbitrary: ss b)
  case Nil
  then show ?case by simp
next
  case (Cons p pat)
  then obtain s ss' where ss: "ss = s # ss'" by (cases ss) auto
  have IH: "map (subst_segment b') pat = lits ss'"
    using Cons ss by (cases p) (auto split: if_splits)
  show ?case
  proof (cases p)
    case (Wildcard n)
    then have "bind_positions (zip pat (lits ss')) (bt_insert n s b) = Some b'"
      using Cons.prems ss by simp
    moreover have "n \<notin> set (segment_wildcards (map fst (zip pat (lits ss'))))"
      using Cons.prems ss Wildcard by simp
    ultimately have "bt_get b' n = Some s"
      using bind_positions_keeps by (fastforce simp: bt.lookup_insert)
    with IH ss Wildcard show ?thesis by simp
  qed (use Cons.prems IH ss in \<open>auto split: if_splits\<close>)
qed

lemma bind_positions_wf: "bind_positions ps b = Some b' \<Longrightarrow> bt_wf b \<Longrightarrow> bt_wf b'"
proof (induction ps b rule: bind_positions.induct)
  case (2 p c ps b)
  then show ?case
    by (cases p; cases c) (auto simp: bt.valid_insert split: if_splits)
qed simp

section \<open>Index key\<close>

text \<open>A pattern whose collection positions are literal has the key of each of its instances.\<close>

fun collections_literal :: "nat \<Rightarrow> path_segment list \<Rightarrow> bool" where
  "collections_literal i [] = True"
| "collections_literal i (seg # segs) =
     ((even i \<longrightarrow> (\<exists>s. seg = Literal s)) \<and> collections_literal (Suc i) segs)"

lemma even_literals_instance:
  "instance_of pat ss \<Longrightarrow> collections_literal i pat \<Longrightarrow>
     even_literals i pat = even_literals i (lits ss)"
proof (induction pat arbitrary: ss i)
  case Nil
  then show ?case by (simp add: instance_of_def)
next
  case (Cons p pat)
  then obtain s ss' where ss: "ss = s # ss'" by (cases ss) (auto simp: instance_of_def)
  have IH: "even_literals (Suc i) pat = even_literals (Suc i) (lits ss')"
    using Cons ss by (auto simp: instance_of_def)
  show ?case
  proof (cases "even i")
    case True
    then obtain x where "p = Literal x" using Cons.prems by auto
    with True IH ss Cons.prems show ?thesis by (auto simp: instance_of_def)
  next
    case False
    with IH ss show ?thesis by simp
  qed
qed

section \<open>Reach of prefixes\<close>

lemma instance_in_reach: "instance_of pat ss \<Longrightarrow> ss \<in> reach pat"
  unfolding reach_def by (intro CollectI exI [of _ ss] exI [of _ "[]"]) simp

lemma reach_meets_iff:
  assumes "length a \<le> length b" "no_recursive b"
  shows "reach a \<inter> reach b \<noteq> {} \<longleftrightarrow> list_all (\<lambda>(x, y). positions_compatible x y) (zip a b)"
proof
  assume "reach a \<inter> reach b \<noteq> {}"
  then obtain ss where "ss \<in> reach a" "ss \<in> reach b" by blast
  then have "instance_of b (take (length b) ss)"
    "instance_of a (take (length a) (take (length b) ss))"
    using assms(1) by (auto simp: reach_iff min_def)
  then show "list_all (\<lambda>(x, y). positions_compatible x y) (zip a b)"
    using common_instance_iff [OF assms] by blast
next
  assume "list_all (\<lambda>(x, y). positions_compatible x y) (zip a b)"
  then obtain ss where ss: "instance_of b ss" "instance_of a (take (length a) ss)"
    using common_instance_iff [OF assms] by blast
  then have "length ss = length b" by (auto simp: instance_of_def dest: list_all2_lengthD)
  with ss assms(1) have "ss \<in> reach a" "ss \<in> reach b"
    by (auto simp: reach_iff)
  then show "reach a \<inter> reach b \<noteq> {}" by blast
qed

lemma reach_subset_iff:
  assumes "length a \<le> length b" "no_recursive a" "no_recursive b"
  shows "reach b \<subseteq> reach a \<longleftrightarrow> list_all (\<lambda>(g, s). generalizes g s) (zip a b)"
proof
  assume gen: "list_all (\<lambda>(g, s). generalizes g s) (zip a b)"
  show "reach b \<subseteq> reach a"
  proof
    fix ss assume ss: "ss \<in> reach b"
    then have "instance_of a (take (length a) (take (length b) ss))"
      by (intro instance_generalizes [OF gen assms(1)]) (simp add: reach_iff)
    with ss assms(1) show "ss \<in> reach a" by (auto simp: reach_iff min_def)
  qed
next
  assume sub: "reach b \<subseteq> reach a"
  show "list_all (\<lambda>(g, s). generalizes g s) (zip a b)"
  proof (rule ccontr)
    assume "\<not> ?thesis"
    then obtain ss where ss: "instance_of b ss" "\<not> instance_of a (take (length a) ss)"
      using not_generalizes_witness assms by blast
    have "ss \<in> reach a" using sub instance_in_reach [OF ss(1)] by blast
    with ss(2) show False by (simp add: reach_iff)
  qed
qed

lemma classify_shorter:
  assumes "length a < length b"
  shows "classify_prefix_relation a b =
      (if list_all (\<lambda>(g, s). generalizes g s) (zip a b) then Contains True
       else if list_all (\<lambda>(x, y). positions_compatible x y) (zip a b) then AmbiguousOverlap
       else Disjoint)"
    and "classify_prefix_relation b a =
      (if list_all (\<lambda>(g, s). generalizes g s) (zip a b) then Contains False
       else if list_all (\<lambda>(x, y). positions_compatible x y) (zip a b) then AmbiguousOverlap
       else Disjoint)"
  using assms by (simp_all add: classify_prefix_relation_def)

lemma classify_reach_shorter:
  assumes "length a < length b" "no_recursive a" "no_recursive b"
  shows "classify_prefix_relation a b =
      (if reach b \<subseteq> reach a then Contains True
       else if reach a \<inter> reach b \<noteq> {} then AmbiguousOverlap else Disjoint)"
    and "classify_prefix_relation b a =
      (if reach b \<subseteq> reach a then Contains False
       else if reach a \<inter> reach b \<noteq> {} then AmbiguousOverlap else Disjoint)"
  using assms reach_subset_iff [of a b] reach_meets_iff [of a b]
  by (simp_all add: classify_shorter)

lemma classify_reach_same:
  assumes "length a = length b" "no_recursive b"
  shows "classify_prefix_relation a b =
    (if reach a \<inter> reach b \<noteq> {} then AmbiguousOverlap else Disjoint)"
  using assms reach_meets_iff [of a b]
  by (simp add: classify_prefix_relation_def structurally_overlap_def)

section \<open>Theorems\<close>

text \<open>A request path binds to a stored pattern exactly when it is an instance of it, and then
  putting the bindings back into the pattern gives the request path, provided no wildcard name is
  used twice.\<close>

theorem bind_ancestor_correct:
  assumes "distinct (segment_wildcards pat)"
  shows "(case bind_ancestor pat (lits ss) of
      None \<Rightarrow> \<not> instance_of pat ss
    | Some b \<Rightarrow> instance_of pat ss \<and> bt_wf b \<and> map (subst_segment b) pat = lits ss)"
proof (cases "bind_ancestor pat (lits ss)")
  case None
  then show ?thesis using bind_ancestor_Some_iff [of pat ss] by simp
next
  case (Some b)
  then have "length pat = length ss" "bind_positions (zip pat (lits ss)) [] = Some b"
    by (auto simp: bind_ancestor_lits split: if_splits)
  moreover have "instance_of pat ss" using Some bind_ancestor_Some_iff [of pat ss] by auto
  ultimately show ?thesis
    using Some bind_positions_subst assms bind_positions_wf bt.valid_empty by fastforce
qed

theorem bind_ancestor_correct_witness:
  "bind_ancestor [Literal ''trips'', Wildcard ''t'', Literal ''notes''] (lits [''trips'', ''x'', ''notes'']) =
     Some [(''t'', ''x'')] \<and>
   map (subst_segment [(''t'', ''x'')]) [Literal ''trips'', Wildcard ''t'', Literal ''notes''] =
     lits [''trips'', ''x'', ''notes'']"
  using bind_ancestor_correct [of "[Literal ''trips'', Wildcard ''t'', Literal ''notes'']" "[''trips'', ''x'', ''notes'']"]
  by (simp add: bind_ancestor_def)

text \<open>Two patterns of an import overlap exactly when some concrete path is an instance of
  both.\<close>

theorem structurally_overlap_iff:
  assumes "no_recursive b"
  shows "structurally_overlap a b \<longleftrightarrow> (\<exists>ss. instance_of a ss \<and> instance_of b ss)"
proof
  assume "structurally_overlap a b"
  then have "length a = length b" "list_all (\<lambda>(x, y). positions_compatible x y) (zip a b)"
    by (auto simp: structurally_overlap_def)
  with common_instance_iff [of a b] assms
  obtain ss where ss: "instance_of b ss" "instance_of a (take (length a) ss)" by auto
  moreover from this have "length ss = length a"
    using \<open>length a = length b\<close> by (auto simp: instance_of_def dest: list_all2_lengthD)
  ultimately show "\<exists>ss. instance_of a ss \<and> instance_of b ss" by auto
next
  assume "\<exists>ss. instance_of a ss \<and> instance_of b ss"
  then obtain ss where ss: "instance_of a ss" "instance_of b ss" by blast
  then have len: "length a = length ss" "length b = length ss"
    by (auto simp: instance_of_def dest: list_all2_lengthD)
  with common_instance_iff [of a b] assms ss show "structurally_overlap a b"
    by (auto simp: structurally_overlap_def)
qed

theorem structurally_overlap_iff_witness:
  "structurally_overlap [Literal ''a'', Wildcard ''x''] [Literal ''a'', Literal ''b''] \<and>
   (\<exists>ss. instance_of [Literal ''a'', Wildcard ''x''] ss \<and> instance_of [Literal ''a'', Literal ''b''] ss)"
  using structurally_overlap_iff [of "[Literal ''a'', Literal ''b'']" "[Literal ''a'', Wildcard ''x'']"]
  by (simp add: no_recursive_def structurally_overlap_def)

text \<open>The import-time classification of two recursive prefixes is about the documents they
  reach. Disjoint: no document is reached by both. Contains: every document the deeper one reaches
  the other reaches too. Ambiguous: some document is reached by both, and, when the prefixes differ
  in length, the deeper one reaches a document that the shallower one does not.\<close>

theorem classify_prefix_relation_reach:
  assumes "no_recursive a" and "no_recursive b"
  shows "(case classify_prefix_relation a b of
      Disjoint \<Rightarrow> reach a \<inter> reach b = {}
    | Contains deeper_is_b \<Rightarrow>
        (if deeper_is_b then length a < length b \<and> reach b \<subseteq> reach a
         else length b < length a \<and> reach a \<subseteq> reach b)
    | AmbiguousOverlap \<Rightarrow> reach a \<inter> reach b \<noteq> {} \<and>
        (length a < length b \<longrightarrow> \<not> reach b \<subseteq> reach a) \<and>
        (length b < length a \<longrightarrow> \<not> reach a \<subseteq> reach b))"
proof -
  consider "length a < length b" | "length b < length a" | "length a = length b" by linarith
  then show ?thesis
  proof cases
    case 1
    then show ?thesis using classify_reach_shorter(1) [OF 1 assms] by simp
  next
    case 2
    then show ?thesis
      using classify_reach_shorter(2) [OF 2 assms(2,1)] by (simp add: Int_commute)
  next
    case 3
    then show ?thesis using classify_reach_same [OF 3 assms(2)] by simp
  qed
qed

theorem classify_prefix_relation_reach_witness:
  "classify_prefix_relation [Literal ''a'', Wildcard ''x''] [Literal ''a'', Literal ''k'', Literal ''b'', Wildcard ''y''] =
     Contains True \<and>
   reach [Literal ''a'', Literal ''k'', Literal ''b'', Wildcard ''y''] \<subseteq> reach [Literal ''a'', Wildcard ''x'']"
  using classify_prefix_relation_reach
    [of "[Literal ''a'', Wildcard ''x'']" "[Literal ''a'', Literal ''k'', Literal ''b'', Wildcard ''y'']"]
  by (simp add: no_recursive_def classify_prefix_relation_def)

text \<open>Narrowing the stored patterns by the index key loses no match. When every collection
  position of a pattern is literal, which import enforces, each request path that is an instance
  of the pattern has the pattern's key.\<close>

theorem literal_skeleton_sound:
  assumes "collections_literal 0 pat" and "bind_ancestor pat (lits ss) = Some b"
  shows "literal_skeleton (lits ss) = literal_skeleton pat"
proof -
  have "instance_of pat ss" using assms(2) bind_ancestor_Some_iff by blast
  then show ?thesis
    using even_literals_instance [OF _ assms(1)] by (simp add: literal_skeleton_def)
qed

theorem literal_skeleton_sound_witness:
  "literal_skeleton (lits [''trips'', ''x'', ''notes'']) =
     literal_skeleton [Literal ''trips'', Wildcard ''t'', Literal ''notes'']"
  by (rule literal_skeleton_sound [where b = "[(''t'', ''x'')]"]) (simp_all add: bind_ancestor_def)

end
