(* ===== verification/Rules_File.thy ===== *)
theory Rules_File
  imports Condition_Parser Path_Routing
begin

text \<open>
  \<open>embyr-core/src/access_control/rules_file.rs\<close>: the scanner for the outer syntax of a \<open>.rules\<close> file
  (service shell, function definitions, nested match blocks, allow clauses) and the decomposition
  of each match block into the row that is stored. A panic of the source (\<open>unreachable!\<close>, a slice
  out of range) is the value \<^const>\<open>None\<close> of the outer option. In the message texts the dash
  \<open>U+2014\<close> is written \<open>--\<close>.
\<close>

section \<open>Types\<close>

datatype verb = Read | Get | List | Write | Create | Update | Delete

record match_block =
  path_pattern :: string
  segments :: "path_segment list"
  allow_clauses :: "(verb list \<times> string) list"

record decomposed_rule =
  rule_collection_path :: string
  rule_read_condition :: "string option"
  rule_write_condition :: "string option"

record decomposed_pattern_rule =
  collection_path_pattern :: string
  ancestor_segment_count :: u16
  pattern_literal_skeleton :: string
  leaf_variable :: "string option"
  pattern_read_condition :: "string option"
  pattern_write_condition :: "string option"

record decomposed_recursive_pattern =
  fixed_prefix_pattern :: string
  fixed_prefix_segment_count :: u16
  literal_skeleton_prefix :: string
  recursive_read_condition :: "string option"
  recursive_write_condition :: "string option"

datatype decomposed_target =
    SingleCollection decomposed_rule
  | MultiSegmentPattern decomposed_pattern_rule
  | RecursiveWildcardPattern decomposed_recursive_pattern

record offending_block =
  offending_path_pattern :: string
  offending_construct :: string
  offending_detail :: string

record rules_file_error =
  offending_blocks :: "offending_block list"
  partial_blocks :: "match_block list"

definition single_error :: "string \<Rightarrow> string \<Rightarrow> string \<Rightarrow> rules_file_error" where
  "single_error pat what detail =
     \<lparr>offending_blocks = [\<lparr>offending_path_pattern = pat, offending_construct = what, offending_detail = detail\<rparr>],
      partial_blocks = []\<rparr>"

definition shell_syntax_error :: "string \<Rightarrow> rules_file_error" where
  "shell_syntax_error detail = single_error [] ''SYNTAX_ERROR'' detail"

section \<open>Matching brackets\<close>

text \<open>The loop of \<open>find_matching_close\<close> and \<open>find_char_paren_close\<close>, from the opening character on.\<close>

fun close_from :: "char \<Rightarrow> char \<Rightarrow> int \<Rightarrow> string \<Rightarrow> nat option" where
  "close_from op cl depth [] = None"
| "close_from op cl depth (c # cs) =
     (if c = op then map_option Suc (close_from op cl (depth + 1) cs)
      else if c = cl then
        (if depth - 1 = 0 then Some 0 else map_option Suc (close_from op cl (depth - 1) cs))
      else map_option Suc (close_from op cl depth cs))"

definition find_matching_close :: "string \<Rightarrow> nat option" where
  "find_matching_close s =
     (if starts_with ''{'' s then close_from (CHR ''{'') (CHR ''}'') 0 s else None)"

definition find_char_paren_close :: "string \<Rightarrow> nat option" where
  "find_char_paren_close s = close_from (CHR ''('') (CHR '')'') 0 s"

lemma close_from_bound: "close_from op cl d s = Some n \<Longrightarrow> n < length s"
  by (induction op cl d s arbitrary: n rule: close_from.induct) (auto split: if_splits)

section \<open>Path patterns\<close>

definition parse_one_segment :: "string \<Rightarrow> string \<Rightarrow> (rules_file_error, path_segment) result" where
  "parse_one_segment seg pattern =
     (case Option.bind (strip_prefix ''{'' seg) (strip_suffix ''}'') of
        Some inner \<Rightarrow>
          if ends_with ''=**'' inner then Inr RecursiveWildcard
          else if inner = [] then Inl (single_error pattern ''SYNTAX_ERROR'' ''empty path-variable name'')
          else Inr (Wildcard inner)
      | None \<Rightarrow>
          if contains_str ''**'' seg then Inr RecursiveWildcard
          else if seg = [] then Inl (single_error pattern ''SYNTAX_ERROR'' ''empty path segment'')
          else Inr (Literal seg))"

definition parse_path_segments :: "string \<Rightarrow> (rules_file_error, path_segment list) result" where
  "parse_path_segments pattern =
     (let stripped = (case strip_prefix ''/'' pattern of Some s \<Rightarrow> s | None \<Rightarrow> pattern)
      in if stripped = [] then Inl (single_error pattern ''SYNTAX_ERROR'' ''empty match path'')
         else collect_results (map (\<lambda>seg. parse_one_segment seg pattern) (split_char (CHR ''/'') stripped)))"

definition segment_end :: "string \<Rightarrow> nat option" where
  "segment_end t =
     (if starts_with ''{'' t then map_option Suc (find_index (\<lambda>c. c = CHR ''}'') t)
      else Some (case find_index (\<lambda>c. c = CHR ''/'' \<or> is_whitespace c \<or> c = CHR ''{'') t of
                   Some k \<Rightarrow> k | None \<Rightarrow> length t))"

function pattern_end :: "string \<Rightarrow> nat option" where
  "pattern_end s =
     (if \<not> starts_with ''/'' s then Some 0
      else case segment_end (tl s) of
        None \<Rightarrow> None
      | Some k \<Rightarrow> map_option (\<lambda>n. Suc k + n) (pattern_end (drop (Suc k) s)))"
  by pat_completeness auto
termination pattern_end
  by (relation "measure length") (auto simp: starts_with_iff)

declare pattern_end.simps [simp del]

definition find_path_pattern_end :: "string \<Rightarrow> nat option" where
  "find_path_pattern_end after_match =
     (if starts_with ''/'' after_match then pattern_end after_match else None)"

section \<open>Function definitions\<close>

definition construct_for :: "condition_parse_error \<Rightarrow> string" where
  "construct_for e =
     (case e of
        SyntaxError _ \<Rightarrow> ''SYNTAX_ERROR''
      | UnsupportedConstruct c _ \<Rightarrow>
          (case c of CustomFunction \<Rightarrow> ''CUSTOM_FUNCTION'' | WildcardPath \<Rightarrow> ''NESTED_PATH''
           | UnsupportedExpressionGrammar \<Rightarrow> ''UNSUPPORTED_EXPRESSION_GRAMMAR''))"

definition detail_for :: "condition_parse_error \<Rightarrow> string" where
  "detail_for e = (case e of SyntaxError d \<Rightarrow> d | UnsupportedConstruct _ d \<Rightarrow> d)"

definition starts_with_whitespace :: "string \<Rightarrow> bool" where
  "starts_with_whitespace s \<longleftrightarrow> (case s of [] \<Rightarrow> False | c # _ \<Rightarrow> is_whitespace c)"

text \<open>\<open>strip_prefix(kw).filter(|rest| rest.starts_with(char::is_whitespace))\<close>.\<close>

definition strip_keyword :: "string \<Rightarrow> string \<Rightarrow> string option" where
  "strip_keyword kw s =
     (case strip_prefix kw s of
        Some rest \<Rightarrow> if starts_with_whitespace rest then Some rest else None
      | None \<Rightarrow> None)"

definition valid_function_name :: "string \<Rightarrow> bool" where
  "valid_function_name name \<longleftrightarrow>
     name \<noteq> [] \<and> is_word_start (hd name) \<and> list_all is_field_char name"

definition reserved_function_name :: "string \<Rightarrow> bool" where
  "reserved_function_name name \<longleftrightarrow>
     name \<in> {''get'', ''exists'', ''duration'', ''true'', ''false'', ''in''}"

text \<open>The name and the empty parameter list; the rest of the input starts with the body.\<close>

definition function_head :: "string \<Rightarrow> (rules_file_error, string \<times> string) result" where
  "function_head after_function =
     rbind (ok_or (shell_syntax_error (''expected '' @ quoted ''('' @ '' after a function name''))
         (find_index (\<lambda>c. c = CHR ''('') after_function)) (\<lambda>paren_open.
       let name = trim (take paren_open after_function)
       in if \<not> valid_function_name name then
            Inl (shell_syntax_error (quoted name @ '' is not a valid function name''))
          else if reserved_function_name name then
            Inl (shell_syntax_error (quoted name @
              '' collides with an existing reserved word/construct and cannot be used as a function name''))
          else
            rbind (ok_or (shell_syntax_error (''unterminated '' @ quoted ''('' @ '' in function '' @ quoted name))
                (find_index (\<lambda>c. c = CHR '')'') (drop paren_open after_function))) (\<lambda>k.
              let params = trim (take (k - 1) (drop (paren_open + 1) after_function));
                  after_params = trim_start (drop (paren_open + k + 1) after_function)
              in if params \<noteq> [] then
                   Inl (single_error [] ''FUNCTION_PARAMETERS_UNSUPPORTED''
                     (''function '' @ quoted name @ '' declares parameter(s) ('' @ quoted params @
                      '') -- only zero-parameter functions are supported in v1''))
                 else if \<not> starts_with ''{'' after_params then
                   Inl (shell_syntax_error (''expected '' @ quoted ''{'' @ '' after function '' @ quoted name @
                     ''s own '' @ quoted ''()''))
                 else Inr (name, after_params)))"

text \<open>The expression of \<open>return <expr>;\<close>.\<close>

definition function_expr :: "string \<Rightarrow> string \<Rightarrow> (rules_file_error, string) result" where
  "function_expr name fn_body =
     rbind (ok_or (shell_syntax_error (''function '' @ quoted name @ ''s own body must be exactly '' @
           quoted ''return <expr>;'' @ '' -- no '' @ quoted ''let'' @ '' bindings, no other statements, in v1''))
         (map_option trim (Option.bind (map_option trim (strip_keyword ''return'' fn_body)) (strip_suffix '';''))))
       (\<lambda>expr.
         if expr = [] then
           Inl (shell_syntax_error (''function '' @ quoted name @ ''s own '' @ quoted ''return'' @ '' has no expression''))
         else case parse_condition expr of
           Inl e \<Rightarrow> Inl (single_error [] (construct_for e) (''function '' @ quoted name @ '': '' @ detail_for e))
         | Inr _ \<Rightarrow> Inr expr)"

text \<open>One round of the loop, after the keyword: the extended definitions and the rest.\<close>

definition parse_function_block ::
  "string \<Rightarrow> string btree_map \<Rightarrow> (rules_file_error, string btree_map \<times> string) result" where
  "parse_function_block after_function functions =
     rbind (function_head after_function) (\<lambda>(name, after_params).
     rbind (ok_or (shell_syntax_error (''unbalanced '' @ quoted ''{'' @ '' in function '' @ quoted name))
         (find_matching_close after_params)) (\<lambda>close_idx.
     rbind (function_expr name (trim (take (close_idx - 1) (tl after_params)))) (\<lambda>expr.
       if bt_get functions name \<noteq> None then
         Inl (single_error [] ''DUPLICATE_FUNCTION''
           (''function '' @ quoted name @ '' is defined more than once''))
       else Inr (bt_insert name expr functions, drop (close_idx + 1) after_params))))"

lemma function_head_length [shrinks]:
  "function_head s = Inr (name, rest) \<Longrightarrow> length rest < length s"
  by (auto simp: function_head_def rbind_Inr_iff ok_or_def Let_def trim_start_def
      dest!: find_index_Some split: option.splits if_splits
      intro: le_less_trans [OF length_dropWhile_le])

lemma parse_function_block_length [shrinks]:
  "parse_function_block s fns = Inr (fns', rest) \<Longrightarrow> length rest < length s"
  by (auto simp: parse_function_block_def rbind_Inr_iff split: if_splits dest!: function_head_length)

function parse_function_blocks ::
  "string \<Rightarrow> string btree_map \<Rightarrow> (rules_file_error, string btree_map \<times> string) result" where
  "parse_function_blocks service_body functions =
     (let body = trim_start service_body
      in case strip_keyword ''function'' body of
           None \<Rightarrow> Inr (functions, body)
         | Some rest \<Rightarrow>
             rbind (parse_function_block (trim_start rest) functions) (\<lambda>(functions', body').
               parse_function_blocks body' functions'))"
  by pat_completeness auto

lemma strip_keyword_length:
  "strip_keyword kw s = Some rest \<Longrightarrow> length s = length kw + length rest"
  by (auto simp: strip_keyword_def strip_prefix_Some_iff split: option.splits if_splits)

termination parse_function_blocks
proof (relation "measure (\<lambda>(s, _). length s)")
  fix service_body fns body rest p fns' body'
  assume "body = trim_start service_body" "strip_keyword ''function'' body = Some rest"
    "parse_function_block (trim_start rest) fns = Inr p" "(fns', body') = p"
  then show "((body', fns'), service_body, fns) \<in> measure (\<lambda>(s, _). length s)"
    using parse_function_block_length [of "trim_start rest" fns fns' body']
      less_le_trans [OF _ length_trim_start, of "length body'" rest]
      less_le_trans [OF _ length_trim_start, of "length body'" service_body]
    by (auto dest!: strip_keyword_length)
qed simp

declare parse_function_blocks.simps [simp del]

section \<open>Expanding function calls\<close>

definition quote_char :: "char \<Rightarrow> bool" where
  "quote_char c \<longleftrightarrow> c = dquote \<or> c = squote"

text \<open>What becomes of one identifier, given the rest of the text behind it: the text to emit and the
  number of characters of the rest it uses up.\<close>

definition expand_ident ::
  "string btree_map \<Rightarrow> string \<Rightarrow> string \<Rightarrow> string \<Rightarrow> (rules_file_error, string \<times> nat) result" where
  "expand_ident fns pat ident rest =
     (let followed_by_call = starts_with ''('' rest
      in case bt_get fns ident of
           Some body \<Rightarrow>
             if followed_by_call then
               rbind (ok_or (single_error pat ''SYNTAX_ERROR''
                   (''unterminated '' @ quoted ''('' @ '' in call to function '' @ quoted ident))
                   (find_char_paren_close rest)) (\<lambda>close.
                 let args = trim (take (close - 1) (tl rest))
                 in if args \<noteq> [] then
                      Inl (single_error pat ''FUNCTION_PARAMETERS_UNSUPPORTED''
                        (''call to function '' @ quoted ident @ '' passes argument(s) ('' @ quoted args @
                         '') -- only zero-argument calls are supported in v1''))
                    else Inr (''('' @ body @ '')'', close + 1))
             else Inr (ident, 0)
         | None \<Rightarrow>
             if followed_by_call \<and> \<not> allowed_call ident then
               Inl (single_error pat ''UNDEFINED_FUNCTION''
                 (''no function named '' @ quoted ident @ '' is defined in this file''))
             else Inr (ident, 0))"

function expand_from ::
  "string btree_map \<Rightarrow> string \<Rightarrow> char option \<Rightarrow> string \<Rightarrow> (rules_file_error, string) result" where
  "expand_from fns pat in_string [] = Inr []"
| "expand_from fns pat in_string (c # cs) =
     (case in_string of
        Some q \<Rightarrow>
          map_sum id (\<lambda>out. c # out) (expand_from fns pat (if c = q then None else Some q) cs)
      | None \<Rightarrow>
          if quote_char c then map_sum id (\<lambda>out. c # out) (expand_from fns pat (Some c) cs)
          else if is_word_start c then
            (let ident = takeWhile is_word_char (c # cs); rest = dropWhile is_word_char cs
             in rbind (expand_ident fns pat ident rest) (\<lambda>(text, n).
                  map_sum id (\<lambda>out. text @ out) (expand_from fns pat None (drop n rest))))
          else map_sum id (\<lambda>out. c # out) (expand_from fns pat None cs))"
  by pat_completeness auto
termination expand_from
  by (relation "measure (\<lambda>(_, _, _, s). length s)")
    (auto simp: less_Suc_eq_le intro: le_trans [OF diff_le_self length_dropWhile_le])

definition expand_function_calls ::
  "string \<Rightarrow> string btree_map \<Rightarrow> string \<Rightarrow> (rules_file_error, string) result" where
  "expand_function_calls condition_text fns pat = expand_from fns pat None condition_text"

section \<open>Allow clauses\<close>

definition parse_verb :: "string \<Rightarrow> string \<Rightarrow> (rules_file_error, verb) result" where
  "parse_verb v pat =
     (if v = ''read'' then Inr Read else if v = ''get'' then Inr Get else if v = ''list'' then Inr List
      else if v = ''write'' then Inr Write else if v = ''create'' then Inr Create
      else if v = ''update'' then Inr Update else if v = ''delete'' then Inr Delete
      else Inl (single_error pat ''SYNTAX_ERROR'' (''unrecognized verb '' @ quoted v)))"

definition condition_after_if :: "string \<Rightarrow> string option" where
  "condition_after_if s =
     (case strip_prefix ''if'' (trim s) of
        Some rest \<Rightarrow> if rest = [] \<or> starts_with_whitespace rest then Some (trim rest) else None
      | None \<Rightarrow> None)"

definition parse_allow_clause ::
  "string \<Rightarrow> string \<Rightarrow> string btree_map \<Rightarrow> (rules_file_error, verb list \<times> string) result" where
  "parse_allow_clause clause pat fns =
     rbind (ok_or (single_error pat ''SYNTAX_ERROR''
           (''expected an '' @ quoted ''allow'' @ '' clause, got '' @ quoted clause))
         (map_option trim_start (strip_keyword ''allow'' clause))) (\<lambda>after_allow.
     rbind (ok_or (single_error pat ''SYNTAX_ERROR'' (''expected '' @ quoted '':'' @ '' after the verb list''))
         (find_index (\<lambda>c. c = CHR '':'') after_allow)) (\<lambda>colon_idx.
     rbind (collect_results (map (\<lambda>v. parse_verb (trim v) pat) (split_char (CHR '','') (take colon_idx after_allow)))) (\<lambda>verbs.
       if verbs = [] then Inl (single_error pat ''SYNTAX_ERROR'' ''empty verb list'')
       else
     rbind (ok_or (single_error pat ''SYNTAX_ERROR''
           (''expected '' @ quoted ''if <condition>'' @ '' after the verb list''))
         (condition_after_if (drop (colon_idx + 1) after_allow))) (\<lambda>condition_text.
       if condition_text = [] then Inl (single_error pat ''SYNTAX_ERROR'' ''empty condition'')
       else
     rbind (expand_function_calls condition_text fns pat) (\<lambda>expanded. Inr (verbs, expanded))))))"

definition parse_allow_clauses ::
  "string \<Rightarrow> string \<Rightarrow> string btree_map \<Rightarrow> (rules_file_error, (verb list \<times> string) list) result" where
  "parse_allow_clauses block_body pat fns =
     rbind (collect_results (map (\<lambda>clause. parse_allow_clause clause pat fns)
         (filter (\<lambda>clause. clause \<noteq> []) (map trim (split_char (CHR '';'') block_body))))) (\<lambda>clauses.
       if clauses = [] then
         Inl (single_error pat ''SYNTAX_ERROR'' (''match block has no '' @ quoted ''allow'' @ '' clauses''))
       else Inr clauses)"

section \<open>Match blocks\<close>

text \<open>The structural delineation of one block: its path pattern, its body, and where to resume.\<close>

definition split_match_block :: "string \<Rightarrow> (rules_file_error, string \<times> string \<times> string) result" where
  "split_match_block body =
     rbind (ok_or (shell_syntax_error (''expected a '' @ quoted ''match /<path> { ... }'' @
           '' block -- a match block body may not mix '' @ quoted ''allow'' @
           '' clauses with nested '' @ quoted ''match'' @ '' blocks''))
         (map_option trim_start (strip_keyword ''match'' body))) (\<lambda>after_match.
     rbind (ok_or (shell_syntax_error (''expected a '' @ quoted ''/'' @ ''-prefixed match block path pattern''))
         (find_path_pattern_end after_match)) (\<lambda>n.
       let local_path_pattern = trim (take n after_match);
           rest = trim_start (drop n after_match)
       in if \<not> starts_with ''{'' rest then
            Inl (shell_syntax_error (''expected '' @ quoted ''{'' @ '' after a match block'' @ [squote] @ ''s path pattern''))
          else
            rbind (ok_or (shell_syntax_error (''unbalanced '' @ quoted ''{'' @ '' in match block '' @
                quoted local_path_pattern)) (find_matching_close rest)) (\<lambda>close_idx.
              Inr (local_path_pattern, take (close_idx - 1) (tl rest), drop (close_idx + 1) rest))))"

definition starts_with_nested_match :: "string \<Rightarrow> bool" where
  "starts_with_nested_match block_body \<longleftrightarrow> strip_keyword ''match'' (trim_start block_body) \<noteq> None"

definition finish_blocks :: "match_block list \<Rightarrow> offending_block list \<Rightarrow> (rules_file_error, match_block list) result" where
  "finish_blocks blocks offending =
     (if offending \<noteq> [] then Inl \<lparr>offending_blocks = offending, partial_blocks = blocks\<rparr> else Inr blocks)"

lemma split_match_block_length [shrinks]:
  assumes "split_match_block body = Inr (lp, bb, resume)"
  shows "length bb < length body" "length resume < length body"
proof -
  obtain after n rest ci where
    "strip_keyword ''match'' body = Some after" "rest = trim_start (drop n (trim_start after))"
    "find_matching_close rest = Some ci" "bb = take (ci - 1) (tl rest)" "resume = drop (ci + 1) rest"
    using assms by (auto simp: split_match_block_def rbind_Inr_iff ok_or_def Let_def split: option.splits if_splits)
  moreover from this have "length rest < length body"
    using length_trim_start [of "drop n (trim_start after)"]
      le_trans [OF diff_le_self length_trim_start, of after n]
    by (auto dest!: strip_keyword_length)
  ultimately show "length bb < length body" "length resume < length body" by auto
qed

function parse_nested_match_blocks ::
  "string \<Rightarrow> string \<Rightarrow> path_segment list \<Rightarrow> string btree_map \<Rightarrow> match_block list \<Rightarrow> offending_block list \<Rightarrow>
     (rules_file_error, match_block list) result"
  and parse_block_body ::
  "string \<Rightarrow> string \<Rightarrow> path_segment list \<Rightarrow> string btree_map \<Rightarrow> (rules_file_error, match_block list) result" where
  "parse_nested_match_blocks body ptext psegs fns blocks offending =
     (if trim_start body = [] then finish_blocks blocks offending
      else rbind (split_match_block (trim_start body)) (\<lambda>(lp, block_body, resume).
        case parse_path_segments lp of
          Inl err \<Rightarrow>
            parse_nested_match_blocks resume ptext psegs fns blocks (offending @ offending_blocks err)
        | Inr local_segments \<Rightarrow>
            (case parse_block_body block_body (ptext @ lp) (psegs @ local_segments) fns of
               Inl err \<Rightarrow>
                 parse_nested_match_blocks resume ptext psegs fns blocks (offending @ offending_blocks err)
             | Inr nested \<Rightarrow>
                 parse_nested_match_blocks resume ptext psegs fns (blocks @ nested) offending)))"
| "parse_block_body block_body full_path_pattern full_segments fns =
     (if starts_with_nested_match block_body then
        parse_nested_match_blocks block_body full_path_pattern full_segments fns [] []
      else rbind (parse_allow_clauses block_body full_path_pattern fns) (\<lambda>clauses.
        Inr [\<lparr>path_pattern = full_path_pattern, segments = full_segments, allow_clauses = clauses\<rparr>]))"
  by pat_completeness auto
termination parse_nested_match_blocks
proof (relation "measure (case_sum (\<lambda>(s, _). 2 * length s) (\<lambda>(s, _). 2 * length s + 1))", goal_cases)
  case (2 body ptext psegs fns blocks offending x lp y bb resume err)
  then show ?case
    using split_match_block_length [of "trim_start body" lp bb resume]
      less_le_trans [OF _ length_trim_start [of body]] by auto
next
  case (3 body ptext psegs fns blocks offending x lp y bb resume ls)
  then show ?case
    using split_match_block_length [of "trim_start body" lp bb resume]
      less_le_trans [OF _ length_trim_start [of body], of "length bb"] by auto
next
  case (4 body ptext psegs fns blocks offending x lp y bb resume ls err)
  then show ?case
    using split_match_block_length [of "trim_start body" lp bb resume]
      less_le_trans [OF _ length_trim_start [of body]] by auto
next
  case (5 body ptext psegs fns blocks offending x lp y bb resume ls nested)
  then show ?case
    using split_match_block_length [of "trim_start body" lp bb resume]
      less_le_trans [OF _ length_trim_start [of body]] by auto
qed auto

declare parse_nested_match_blocks.simps [simp del] parse_block_body.simps [simp del]

definition parse_match_blocks ::
  "string \<Rightarrow> string btree_map \<Rightarrow> (rules_file_error, match_block list) result" where
  "parse_match_blocks body fns =
     rbind (parse_nested_match_blocks body [] [] fns [] []) (\<lambda>blocks.
       if blocks = [] then
         Inl (shell_syntax_error (''expected at least one '' @ quoted ''match /<path> { ... }'' @ '' block''))
       else Inr blocks)"

section \<open>The shell\<close>

text \<open>\<open>keyword { body }\<close> with nothing behind it; the body is trimmed.\<close>

definition strip_shell ::
  "string \<Rightarrow> string \<Rightarrow> rules_file_error \<Rightarrow> rules_file_error \<Rightarrow> rules_file_error \<Rightarrow> (rules_file_error, string) result" where
  "strip_shell kw s missing unbalanced trailing =
     rbind (ok_or missing
         (case map_option trim_start (strip_prefix kw s) of
            Some rest \<Rightarrow> if starts_with ''{'' rest then Some rest else None
          | None \<Rightarrow> None)) (\<lambda>after.
     rbind (ok_or unbalanced (find_matching_close after)) (\<lambda>close.
       if trim (drop (close + 1) after) \<noteq> [] then Inl trailing
       else Inr (trim (take (close - 1) (tl after)))))"

definition parse_rules_file :: "string \<Rightarrow> (rules_file_error, match_block list) result" where
  "parse_rules_file source =
     rbind (strip_shell ''service cloud.firestore'' (trim source)
         (shell_syntax_error (''expected '' @ quoted ''service cloud.firestore { match /databases/{database}/documents { ... } }''))
         (shell_syntax_error (''unbalanced '' @ quoted ''{'' @ '' in the '' @ quoted ''service cloud.firestore'' @ '' block''))
         (shell_syntax_error (''unexpected content after the closing '' @ quoted ''service'' @ '' brace''))) (\<lambda>service_body.
     rbind (parse_function_blocks service_body []) (\<lambda>(fns, rest).
     rbind (strip_shell ''match /databases/{database}/documents'' rest
         (shell_syntax_error (''expected '' @ quoted ''match /databases/{database}/documents { ... }'' @ '' inside the service block''))
         (shell_syntax_error (''unbalanced '' @ quoted ''{'' @ '' in the '' @ quoted ''match /databases/{database}/documents'' @ '' block''))
         (shell_syntax_error (''unexpected content after the closing '' @ quoted ''documents'' @ '' brace''))) (\<lambda>documents_body.
       parse_match_blocks documents_body fns)))"

section \<open>Decomposition\<close>

fun validate_from :: "nat \<Rightarrow> path_segment list \<Rightarrow> string \<Rightarrow> (rules_file_error, unit) result" where
  "validate_from i [] pat = Inr ()"
| "validate_from i (seg # segs) pat =
     (if seg = RecursiveWildcard \<and> segs \<noteq> [] then
        Inl (single_error pat ''RECURSIVE_WILDCARD_NOT_TERMINAL''
          (''a recursive wildcard segment must be the pattern'' @ [squote] @ ''s own final segment''))
      else if seg = RecursiveWildcard \<and> odd i then
        Inl (single_error pat ''RECURSIVE_WILDCARD_ODD_PREFIX''
          (''a recursive wildcard segment must occupy an even-indexed (collection-name) position -- '' @
           ''an odd-prefix recursive wildcard is out of this feature'' @ [squote] @ ''s own locked v1 scope''))
      else if seg = RecursiveWildcard then validate_from (Suc i) segs pat
      else if even i \<and> (case seg of Literal _ \<Rightarrow> False | _ \<Rightarrow> True) then
        Inl (single_error pat ''NESTED_PATH''
          ''a collection-name position must be a literal segment, never a wildcard'')
      else validate_from (Suc i) segs pat)"

definition validate_segment_shape :: "path_segment list \<Rightarrow> string \<Rightarrow> (rules_file_error, unit) result" where
  "validate_segment_shape segs pat = validate_from 0 segs pat"

fun render_segment :: "path_segment \<Rightarrow> string option" where
  "render_segment (Literal s) = Some s"
| "render_segment (Wildcard name) = Some (''{'' @ name @ ''}'')"
| "render_segment RecursiveWildcard = None"

definition render_ancestor_pattern :: "path_segment list \<Rightarrow> string option" where
  "render_ancestor_pattern ancestor =
     map_option (join ''/'') (those (map render_segment ancestor))"

text \<open>The loop never advances on an empty variable name.\<close>

function rewrite_from :: "string \<Rightarrow> char option \<Rightarrow> string \<Rightarrow> string option" where
  "rewrite_from var prev [] = Some []"
| "rewrite_from var prev (c # cs) =
     (if starts_with var (c # cs) \<and>
         (case prev of None \<Rightarrow> True | Some p \<Rightarrow> \<not> is_field_char p) \<and>
         (case drop (length var) (c # cs) of [] \<Rightarrow> True | d # _ \<Rightarrow> \<not> is_field_char d)
      then (if var = [] then None
            else map_option (\<lambda>out. ''request.path.'' @ var @ out)
              (rewrite_from var (Some (last var)) (drop (length var) (c # cs))))
      else map_option (\<lambda>out. c # out) (rewrite_from var (Some c) cs))"
  by pat_completeness auto
termination rewrite_from
  by (relation "measure (\<lambda>(_, _, s). length s)") (auto simp: starts_with_iff Cons_eq_append_conv)

definition rewrite_path_variable :: "string \<Rightarrow> string \<Rightarrow> string option" where
  "rewrite_path_variable condition var = rewrite_from var None condition"

fun rewrite_all :: "string \<Rightarrow> string list \<Rightarrow> string option" where
  "rewrite_all condition [] = Some condition"
| "rewrite_all condition (var # vars) =
     Option.bind (rewrite_path_variable condition var) (\<lambda>rewritten. rewrite_all rewritten vars)"

definition is_read_verb :: "verb \<Rightarrow> bool" where
  "is_read_verb v \<longleftrightarrow> v = Read \<or> v = Get \<or> v = List"

type_synonym buckets = "string option \<times> string option"

definition put_bucket :: "string \<Rightarrow> string \<Rightarrow> string option \<Rightarrow> (rules_file_error, string option) result" where
  "put_bucket pat rewritten bucket =
     (case bucket of
        Some existing \<Rightarrow>
          if existing \<noteq> rewritten then
            Inl (single_error pat ''CONFLICTING_VERB_CONDITIONS''
              ''differing conditions for the same read/write bucket are not supported'')
          else Inr (Some rewritten)
      | None \<Rightarrow> Inr (Some rewritten))"

fun bucket_verbs :: "string \<Rightarrow> string \<Rightarrow> verb list \<Rightarrow> buckets \<Rightarrow> (rules_file_error, buckets) result" where
  "bucket_verbs pat rewritten [] b = Inr b"
| "bucket_verbs pat rewritten (v # vs) (r, w) =
     rbind (if is_read_verb v then map_sum id (\<lambda>r'. (r', w)) (put_bucket pat rewritten r)
            else map_sum id (\<lambda>w'. (r, w')) (put_bucket pat rewritten w))
       (bucket_verbs pat rewritten vs)"

fun bucket_clauses ::
  "string \<Rightarrow> string list \<Rightarrow> (verb list \<times> string) list \<Rightarrow> buckets \<Rightarrow> (rules_file_error, buckets) result option" where
  "bucket_clauses pat names [] b = Some (Inr b)"
| "bucket_clauses pat names ((verbs, raw_condition) # clauses) b =
     Option.bind (rewrite_all raw_condition names) (\<lambda>rewritten.
       case parse_condition rewritten of
         Inl e \<Rightarrow> Some (Inl (single_error pat (construct_for e) (detail_for e)))
       | Inr _ \<Rightarrow> pbind (Some (bucket_verbs pat rewritten verbs b)) (bucket_clauses pat names clauses))"

definition decompose_recursive :: "match_block \<Rightarrow> (rules_file_error, decomposed_target) result option" where
  "decompose_recursive block =
     (let fixed_prefix = butlast (segments block)
      in pbind (bucket_clauses (path_pattern block) (segment_wildcards fixed_prefix)
             (allow_clauses block) (None, None)) (\<lambda>(r, w).
           map_option (\<lambda>text. Inr (RecursiveWildcardPattern
             \<lparr>fixed_prefix_pattern = text,
              fixed_prefix_segment_count = word_of_nat (length fixed_prefix),
              literal_skeleton_prefix = literal_skeleton fixed_prefix,
              recursive_read_condition = r, recursive_write_condition = w\<rparr>))
             (render_ancestor_pattern fixed_prefix)))"

text \<open>The ancestor and the leaf of a pattern without a recursive wildcard; the slice of an empty
  pattern is out of range.\<close>

definition split_leaf :: "path_segment list \<Rightarrow> (path_segment list \<times> path_segment option) option" where
  "split_leaf segs =
     (if even (length segs) then
        (if segs = [] then None else Some (butlast segs, Some (last segs)))
      else Some (segs, None))"

definition leaf_name :: "path_segment option \<Rightarrow> string option" where
  "leaf_name leaf = (case leaf of Some (Wildcard name) \<Rightarrow> Some name | _ \<Rightarrow> None)"

definition fixed_depth_target ::
  "path_segment list \<Rightarrow> string option \<Rightarrow> buckets \<Rightarrow> decomposed_target option" where
  "fixed_depth_target ancestor leaf = (\<lambda>(r, w).
     if length ancestor = 1 then
       (case ancestor ! 0 of
          Literal collection \<Rightarrow> Some (SingleCollection
            \<lparr>rule_collection_path = collection, rule_read_condition = r, rule_write_condition = w\<rparr>)
        | _ \<Rightarrow> None)
     else map_option (\<lambda>text. MultiSegmentPattern
         \<lparr>collection_path_pattern = text,
          ancestor_segment_count = word_of_nat (length ancestor),
          pattern_literal_skeleton = literal_skeleton ancestor,
          leaf_variable = leaf,
          pattern_read_condition = r, pattern_write_condition = w\<rparr>)
       (render_ancestor_pattern ancestor))"

definition decompose_block :: "match_block \<Rightarrow> (rules_file_error, decomposed_target) result option" where
  "decompose_block block =
     pbind (Some (validate_segment_shape (segments block) (path_pattern block))) (\<lambda>_.
       if segments block \<noteq> [] \<and> last (segments block) = RecursiveWildcard then decompose_recursive block
       else Option.bind (split_leaf (segments block)) (\<lambda>(ancestor, leaf).
         pbind (bucket_clauses (path_pattern block)
             (segment_wildcards ancestor @ (case leaf_name leaf of Some n \<Rightarrow> [n] | None \<Rightarrow> []))
             (allow_clauses block) (None, None)) (\<lambda>b.
           map_option Inr (fixed_depth_target ancestor (leaf_name leaf) b))))"

fun decompose_from ::
  "match_block list \<Rightarrow> decomposed_target list \<Rightarrow> offending_block list \<Rightarrow>
     (rules_file_error, decomposed_target list) result option" where
  "decompose_from [] targets offending =
     Some (if offending \<noteq> [] then Inl \<lparr>offending_blocks = offending, partial_blocks = []\<rparr> else Inr targets)"
| "decompose_from (b # bs) targets offending =
     (case decompose_block b of
        None \<Rightarrow> None
      | Some (Inr target) \<Rightarrow> decompose_from bs (targets @ [target]) offending
      | Some (Inl err) \<Rightarrow> decompose_from bs targets (offending @ offending_blocks err))"

definition decompose :: "match_block list \<Rightarrow> (rules_file_error, decomposed_target list) result option" where
  "decompose blocks = decompose_from blocks [] []"

end
