(* ===== verification/Rules_Db.thy ===== *)
theory Rules_Db
  imports Rules_File
begin

text \<open>
  The rule tables of the system database: \<open>access_rules\<close>, \<open>write_access_rules\<close>, \<open>group_access_rules\<close>,
  \<open>access_rule_patterns\<close> and their history tables, with the methods of
  \<open>embyr-server/src/adapters/system_db.rs\<close> that read and change them. The pattern table is a list in the
  order of a scan; its primary key is the project, the text and the kind of the pattern. Row times are
  left out: no decision reads them. A failed connection is not modelled.
\<close>

type_synonym i16 = "16 word"

record pattern_row =
  row_project :: string
  row_pattern :: string
  row_segment_count :: i16
  row_skeleton :: string
  row_leaf_variable :: "string option"
  row_read_condition :: "string option"
  row_write_condition :: "string option"
  row_is_recursive :: bool

datatype rule_history =
    ReadRuleHistory string string string string
  | WriteRuleHistory string string string string
  | GroupRuleHistory string string string string
  | PatternHistory string string "string option" "string option" "string option" string bool

record rules_db =
  access_rules :: "string \<times> string \<Rightarrow> string option"
  write_access_rules :: "string \<times> string \<Rightarrow> string option"
  group_access_rules :: "string \<times> string \<Rightarrow> string option"
  access_rule_patterns :: "pattern_row list"
  rule_histories :: "rule_history list"

definition get_access_rule :: "string \<Rightarrow> string \<Rightarrow> rules_db \<Rightarrow> string option" where
  "get_access_rule pid cp db = access_rules db (pid, cp)"

definition get_write_access_rule :: "string \<Rightarrow> string \<Rightarrow> rules_db \<Rightarrow> string option" where
  "get_write_access_rule pid cp db = write_access_rules db (pid, cp)"

definition get_group_access_rule :: "string \<Rightarrow> string \<Rightarrow> rules_db \<Rightarrow> string option" where
  "get_group_access_rule pid cid db = group_access_rules db (pid, cid)"

text \<open>Each change of a rule appends a history entry with the acting account in the same transaction.\<close>

definition upsert_access_rule :: "string \<Rightarrow> string \<Rightarrow> string \<Rightarrow> string \<Rightarrow> rules_db \<Rightarrow> rules_db" where
  "upsert_access_rule pid cp source actor db =
     db\<lparr>access_rules := (access_rules db)((pid, cp) \<mapsto> source),
        rule_histories := rule_histories db @ [ReadRuleHistory pid cp source actor]\<rparr>"

definition upsert_write_access_rule :: "string \<Rightarrow> string \<Rightarrow> string \<Rightarrow> string \<Rightarrow> rules_db \<Rightarrow> rules_db" where
  "upsert_write_access_rule pid cp source actor db =
     db\<lparr>write_access_rules := (write_access_rules db)((pid, cp) \<mapsto> source),
        rule_histories := rule_histories db @ [WriteRuleHistory pid cp source actor]\<rparr>"

definition upsert_group_access_rule :: "string \<Rightarrow> string \<Rightarrow> string \<Rightarrow> string \<Rightarrow> rules_db \<Rightarrow> rules_db" where
  "upsert_group_access_rule pid cid source actor db =
     db\<lparr>group_access_rules := (group_access_rules db)((pid, cid) \<mapsto> source),
        rule_histories := rule_histories db @ [GroupRuleHistory pid cid source actor]\<rparr>"

definition row_key :: "pattern_row \<Rightarrow> string \<times> string \<times> bool" where
  "row_key r = (row_project r, row_pattern r, row_is_recursive r)"

text \<open>\<open>INSERT ... ON CONFLICT DO UPDATE\<close> on the primary key.\<close>

fun put_pattern :: "pattern_row \<Rightarrow> pattern_row list \<Rightarrow> pattern_row list" where
  "put_pattern r [] = [r]"
| "put_pattern r (x # xs) = (if row_key x = row_key r then r # xs else x # put_pattern r xs)"

definition upsert_access_rule_pattern :: "pattern_row \<Rightarrow> string \<Rightarrow> rules_db \<Rightarrow> rules_db" where
  "upsert_access_rule_pattern r actor db =
     db\<lparr>access_rule_patterns := put_pattern r (access_rule_patterns db),
        rule_histories := rule_histories db @
          [PatternHistory (row_project r) (row_pattern r) (row_leaf_variable r) (row_read_condition r)
             (row_write_condition r) actor (row_is_recursive r)]\<rparr>"

definition get_access_rule_pattern :: "string \<Rightarrow> string \<Rightarrow> rules_db \<Rightarrow> pattern_row option" where
  "get_access_rule_pattern pid pat db =
     find (\<lambda>r. row_project r = pid \<and> row_pattern r = pat) (access_rule_patterns db)"

definition list_access_rule_patterns_by_skeleton :: "string \<Rightarrow> i16 \<Rightarrow> string \<Rightarrow> rules_db \<Rightarrow> pattern_row list" where
  "list_access_rule_patterns_by_skeleton pid n skeleton db =
     filter (\<lambda>r. row_project r = pid \<and> row_segment_count r = n \<and> row_skeleton r = skeleton \<and> \<not> row_is_recursive r)
       (access_rule_patterns db)"

definition list_recursive_access_rule_patterns_up_to :: "string \<Rightarrow> i16 \<Rightarrow> rules_db \<Rightarrow> pattern_row list" where
  "list_recursive_access_rule_patterns_up_to pid n db =
     filter (\<lambda>r. row_project r = pid \<and> row_is_recursive r \<and> sint (row_segment_count r) \<le> sint n)
       (access_rule_patterns db)"

definition list_all_access_rule_patterns :: "string \<Rightarrow> rules_db \<Rightarrow> pattern_row list" where
  "list_all_access_rule_patterns pid db = filter (\<lambda>r. row_project r = pid) (access_rule_patterns db)"

lemma set_put_pattern:
  "x \<in> set (put_pattern r xs) \<Longrightarrow> x = r \<or> x \<in> set xs"
  by (induction xs) (auto split: if_splits)

lemma put_pattern_keys: "row_key ` set (put_pattern r xs) = insert (row_key r) (row_key ` set xs)"
  by (induction xs) auto

lemma distinct_put_pattern:
  "distinct (map row_key xs) \<Longrightarrow> distinct (map row_key (put_pattern r xs))"
proof (induction xs)
  case (Cons x xs)
  then show ?case using put_pattern_keys [of r xs] by auto
qed simp

lemma put_pattern_mem: "r \<in> set (put_pattern r xs)"
  by (induction xs) auto

lemma put_pattern_replaces:
  assumes "x \<in> set (put_pattern r xs)" "distinct (map row_key xs)" "row_key x = row_key r"
  shows "x = r"
  using assms put_pattern_mem [of r xs] distinct_put_pattern [OF assms(2), of r]
  by (auto simp: distinct_map inj_on_def)

end
