(* ===== verification/Query_Request.thy ===== *)
theory Query_Request
  imports Query_Rows Query_Compliance Proto_Values Rules_Db
begin

text \<open>
  Query requests: \<open>translate_filter\<close>, the translation and the rule check of \<open>handle_run_query\<close> and
  \<open>handle_run_aggregation_query\<close>, and the index requirement, from \<open>embyr-server/src/grpc/handler.rs\<close>. An
  enumeration number of the protocol that names no value is \<^const>\<open>None\<close>; authentication and rate limiting
  come before what is modelled here.
\<close>

section \<open>Filters\<close>

datatype field_op =
    FopUnspecified | FopLessThan | FopLessThanOrEqual | FopGreaterThan | FopGreaterThanOrEqual | FopEqual
  | FopNotEqual | FopArrayContains | FopIn | FopArrayContainsAny | FopNotIn

datatype composite_op = CopUnspecified | CopAnd | CopOr

datatype unary_op = UopUnspecified | UopIsNan | UopIsNull | UopIsNotNan | UopIsNotNull

datatype proto_filter =
    PFUnset
  | PFField "string option" "field_op option" "proto_value option"
  | PFComposite "composite_op option" "proto_filter list"
  | PFUnary "string option" "unary_op option"

fun translate_field_op :: "field_op \<Rightarrow> filter_op option" where
  "translate_field_op FopLessThan = Some LessThan"
| "translate_field_op FopLessThanOrEqual = Some LessThanOrEqual"
| "translate_field_op FopGreaterThan = Some GreaterThan"
| "translate_field_op FopGreaterThanOrEqual = Some GreaterThanOrEqual"
| "translate_field_op FopEqual = Some Equal"
| "translate_field_op FopNotEqual = Some NotEqual"
| "translate_field_op FopArrayContains = Some ArrayContains"
| "translate_field_op FopIn = Some OpIn"
| "translate_field_op FopArrayContainsAny = Some ArrayContainsAny"
| "translate_field_op FopNotIn = Some NotIn"
| "translate_field_op FopUnspecified = None"

definition is_range_op :: "filter_op \<Rightarrow> bool" where
  "is_range_op op \<longleftrightarrow> op = LessThan \<or> op = LessThanOrEqual \<or> op = GreaterThan \<or> op = GreaterThanOrEqual"

definition is_array :: "field_value \<Rightarrow> bool" where
  "is_array v \<longleftrightarrow> (case v of FArray _ \<Rightarrow> True | _ \<Rightarrow> False)"

definition is_map :: "field_value \<Rightarrow> bool" where
  "is_map v \<longleftrightarrow> (case v of FMap _ \<Rightarrow> True | _ \<Rightarrow> False)"

definition translate_field_filter ::
  "string option \<Rightarrow> field_op option \<Rightarrow> proto_value option \<Rightarrow> (string, query_filter) result option" where
  "translate_field_filter fld fop val =
     Option.bind fld (\<lambda>fp.
       case validate_field_path fp of
         Inl e \<Rightarrow> Some (Inl (core_error_message e))
       | Inr _ \<Rightarrow>
           Option.bind (Option.bind fop translate_field_op) (\<lambda>op.
           Option.bind (Option.bind val proto_value_to_field_value) (\<lambda>v.
             if is_range_op op \<and> (is_array v \<or> is_map v) then
               Some (Inl (''range comparison operators are not supported on '' @
                 (if is_array v then ''array'' else ''map'') @ '' values''))
             else if (op = OpIn \<or> op = NotIn \<or> op = ArrayContainsAny) \<and> \<not> is_array v then
               Some (Inl ((if op = OpIn then ''in'' else if op = NotIn then ''not-in'' else ''array-contains-any'') @
                 '' requires an array value''))
             else if is_range_op op \<and> v = FNull then
               Some (Inl ''range comparison operators do not support null values'')
             else Some (Inr (Field \<lparr>field_path = fp, filter_op = op, filter_value = v\<rparr>)))))"

definition translate_unary_filter :: "string option \<Rightarrow> unary_op option \<Rightarrow> (string, query_filter) result option" where
  "translate_unary_filter fld uop =
     Option.bind fld (\<lambda>fp.
       case validate_field_path fp of
         Inl e \<Rightarrow> Some (Inl (core_error_message e))
       | Inr _ \<Rightarrow>
           Option.bind uop (\<lambda>u.
             case (case u of
                 UopIsNan \<Rightarrow> Some IsNan | UopIsNotNan \<Rightarrow> Some IsNotNan | UopIsNull \<Rightarrow> Some IsNull
               | UopIsNotNull \<Rightarrow> Some IsNotNull | UopUnspecified \<Rightarrow> None) of
               None \<Rightarrow> Some (Inl ''unsupported unary filter op: 0'')
             | Some op \<Rightarrow> Some (Inr (Field \<lparr>field_path = fp, filter_op = op, filter_value = FNull\<rparr>))))"

text \<open>Children of a composite that cannot be translated are skipped; the first error ends the loop.\<close>

fun translate_filter :: "proto_filter \<Rightarrow> (string, query_filter) result option"
  and translate_filters :: "proto_filter list \<Rightarrow> (string, query_filter list) result" where
  "translate_filter PFUnset = None"
| "translate_filter (PFField fld fop val) = translate_field_filter fld fop val"
| "translate_filter (PFUnary fld uop) = translate_unary_filter fld uop"
| "translate_filter (PFComposite cop fs) =
     Some (map_sum id (if cop = Some CopOr then CompositeOr else Composite) (translate_filters fs))"
| "translate_filters [] = Inr []"
| "translate_filters (f # fs) =
     (case translate_filter f of
        Some (Inr q) \<Rightarrow> map_sum id (Cons q) (translate_filters fs)
      | Some (Inl e) \<Rightarrow> Inl e
      | None \<Rightarrow> translate_filters fs)"

section \<open>Queries\<close>

datatype direction = DirUnspecified | DirAscending | DirDescending

record proto_query =
  pq_from :: "(string \<times> bool) list"
  pq_where :: "proto_filter option"
  pq_order_by :: "(string option \<times> direction option) list"
  pq_limit :: "i32 option"
  pq_offset :: i32
  pq_start_at :: "(proto_value list \<times> bool) option"
  pq_end_at :: "(proto_value list \<times> bool) option"

definition bad_request :: "string \<Rightarrow> status" where
  "bad_request m = Status CInvalidArgument m"

definition translate_order_by :: "(string option \<times> direction option) list \<Rightarrow> (status, order_by list) result" where
  "translate_order_by os =
     collect_results (map (\<lambda>(fp, dir). map_sum invalid_status (\<lambda>_. \<lparr>ob_field_path = fp, ob_direction = dir\<rparr>) (validate_field_path fp))
       (List.map_filter (\<lambda>(fld, dir). map_option (\<lambda>fp.
          (fp, case dir of Some DirDescending \<Rightarrow> Descending | _ \<Rightarrow> Ascending)) fld) os))"

definition translate_cursor :: "(proto_value list \<times> bool) option \<Rightarrow> cursor option" where
  "translate_cursor c =
     Option.bind c (\<lambda>(vs, before).
       map_option (\<lambda>vals. \<lparr>cursor_values = vals, cursor_before = before\<rparr>) (those (map proto_value_to_field_value vs)))"

fun validate_cursor_value_types :: "field_value list \<Rightarrow> (string, unit) result" where
  "validate_cursor_value_types [] = Inr ()"
| "validate_cursor_value_types (v # vs) =
     (case v of
        FArray _ \<Rightarrow> Inl ''cursor bound does not support array values''
      | FMap _ \<Rightarrow> Inl ''cursor bound does not support map values''
      | FNull \<Rightarrow> Inl ''cursor bound does not support null values''
      | _ \<Rightarrow> validate_cursor_value_types vs)"

definition check_cursor :: "cursor option \<Rightarrow> (status, unit) result" where
  "check_cursor c =
     (case c of None \<Rightarrow> Inr () | Some cur \<Rightarrow> map_sum bad_request id (validate_cursor_value_types (cursor_values cur)))"

text \<open>\<open>and_then(translate_filter).transpose()\<close>.\<close>

definition translate_where :: "proto_filter option \<Rightarrow> (status, query_filter option) result" where
  "translate_where w =
     (case Option.bind w translate_filter of
        None \<Rightarrow> Inr None
      | Some (Inl e) \<Rightarrow> Inl (bad_request e)
      | Some (Inr q) \<Rightarrow> Inr (Some q))"

definition query_target :: "proto_query \<Rightarrow> string \<times> bool" where
  "query_target pq = (case pq_from pq of [] \<Rightarrow> ([], False) | f # _ \<Rightarrow> f)"

definition translate_query :: "proto_query \<Rightarrow> (status, structured_query) result" where
  "translate_query pq =
     rbind (translate_where (pq_where pq)) (\<lambda>flt.
     rbind (translate_order_by (pq_order_by pq)) (\<lambda>obs.
     let s = translate_cursor (pq_start_at pq); e = translate_cursor (pq_end_at pq) in
     rbind (check_cursor s) (\<lambda>_.
     rbind (check_cursor e) (\<lambda>_.
       Inr \<lparr>query_collection_id = fst (query_target pq), all_descendants = snd (query_target pq), query_filter_of = flt,
            query_order_by = obs, query_limit = pq_limit pq,
            query_offset = (if 0 < sint (pq_offset pq) then Some (pq_offset pq) else None),
            start_at = s, end_at = e, since_update_time = None\<rparr>))))"

section \<open>Index requirement\<close>

fun collect_filter_fields :: "query_filter \<Rightarrow> (string \<times> filter_op) list" where
  "collect_filter_fields (Field f) = [(field_path f, filter_op f)]"
| "collect_filter_fields (Composite fs) = concat (map collect_filter_fields fs)"
| "collect_filter_fields (CompositeOr fs) = concat (map collect_filter_fields fs)"

definition requires_composite_index :: "structured_query \<Rightarrow> bool" where
  "requires_composite_index q =
     (if 2 \<le> length (query_order_by q) then True
      else case query_filter_of q of
        None \<Rightarrow> False
      | Some f \<Rightarrow>
          let ffs = collect_filter_fields f;
              in_fields = map fst (filter (\<lambda>(_, op). op = OpIn) ffs)
          in if in_fields \<noteq> [] \<and> list_ex (\<lambda>(fp, op). is_range_op op \<and> fp \<notin> set in_fields) ffs then True
             else if query_order_by q = [] then False
             else list_ex (\<lambda>ob. \<not> list_ex (\<lambda>(fp, _). fp = ob_field_path ob) ffs) (query_order_by q))"

datatype index_order = IndexAsc | IndexDesc

fun push_unseen :: "(string \<times> index_order) list \<Rightarrow> string set \<Rightarrow> (string \<times> index_order) list" where
  "push_unseen [] seen = []"
| "push_unseen ((fp, ord) # xs) seen =
     (if fp \<in> seen then push_unseen xs seen else (fp, ord) # push_unseen xs (insert fp seen))"

definition missing_index_fields :: "structured_query \<Rightarrow> (string \<times> index_order) list" where
  "missing_index_fields q =
     push_unseen
       ((case query_filter_of q of None \<Rightarrow> [] | Some f \<Rightarrow> map (\<lambda>(fp, _). (fp, IndexAsc)) (collect_filter_fields f)) @
        map (\<lambda>ob. (ob_field_path ob, case ob_direction ob of Ascending \<Rightarrow> IndexAsc | Descending \<Rightarrow> IndexDesc))
          (query_order_by q)) {}"

section \<open>Rules\<close>

definition conjunct_message :: "unsatisfied_conjunct \<Rightarrow> string" where
  "conjunct_message c =
     (case c of
        OwnershipFilterMissing fp \<Rightarrow>
          ''['' @ reason_code c @ ''] missing required equality filter on '' @ [squote] @ fp @ [squote] @
          '' bound to the caller'' @ [squote] @ ''s own identity''
      | _ \<Rightarrow> ''['' @ reason_code c @ '']'')"

definition query_compliance_rejection :: "query_compliance_outcome \<Rightarrow> status option" where
  "query_compliance_rejection outcome =
     (case outcome of
        RejectedUnsupportedRuleShape \<Rightarrow>
          Some (Status CPermissionDenied (''query rejected [UNSUPPORTED_RULE_SHAPE]: this collection'' @ [squote] @
            ''s access rule is not a shape supported for query enforcement''))
      | Rejected cs \<Rightarrow>
          Some (Status CPermissionDenied (''query rejected by access rule: '' @ join ''; '' (map conjunct_message cs)))
      | Admitted \<Rightarrow> None)"

definition group_rule_not_defined_rejection :: status where
  "group_rule_not_defined_rejection =
     Status CPermissionDenied ''query rejected [GROUP_RULE_NOT_DEFINED]: no collection-group rule is defined for this collection id''"

text \<open>The caller as the query handlers see it: the claims of the verified identity are left out.\<close>

definition query_caller :: "auth_context option \<Rightarrow> auth_context option" where
  "query_caller identity = map_option (\<lambda>a. a\<lparr>claims := []\<rparr>) identity"

definition check_rule ::
  "string \<Rightarrow> string \<Rightarrow> query_filter option \<Rightarrow> auth_context option \<Rightarrow> (status, unit) result" where
  "check_rule reparse source flt caller =
     (case parse_condition source of
        Inl e \<Rightarrow> Inl (Status CInternal reparse)
      | Inr c \<Rightarrow>
          (case query_compliance_rejection (check_query_compliance c flt caller) of
             None \<Rightarrow> Inr ()
           | Some st \<Rightarrow> Inl st))"

definition check_query_rules ::
  "rules_db \<Rightarrow> string \<Rightarrow> auth_context option \<Rightarrow> structured_query \<Rightarrow> (status, unit) result" where
  "check_query_rules rdb pid identity q =
     (if all_descendants q then
        (case get_group_access_rule pid (query_collection_id q) rdb of
           None \<Rightarrow> Inl group_rule_not_defined_rejection
         | Some source \<Rightarrow>
             check_rule ''stored group access rule failed to re-parse: '' source (query_filter_of q) (query_caller identity))
      else
        (case get_access_rule pid (query_collection_id q) rdb of
           None \<Rightarrow> Inr ()
         | Some source \<Rightarrow>
             check_rule ''stored access rule failed to re-parse: '' source (query_filter_of q) (query_caller identity)))"

text \<open>\<open>handle_run_query\<close> up to the call of the storage adapter: the query that is run, or the refusal. The
  message of a missing index ends with the fields as JSON, which is left out.\<close>

definition handle_run_query ::
  "rules_db \<Rightarrow> (string \<Rightarrow> string \<Rightarrow> bool) \<Rightarrow> auth_context option \<Rightarrow> string \<Rightarrow> proto_query option \<Rightarrow>
     (status, string \<times> structured_query) result" where
  "handle_run_query rdb index_ready identity parent query_type =
     rbind (extract_project_id parent) (\<lambda>pid.
     rbind (ok_or (bad_request ''query_type is required'') query_type) (\<lambda>pq.
     rbind (translate_query pq) (\<lambda>q.
     rbind (check_query_rules rdb pid identity q) (\<lambda>_.
       if requires_composite_index q \<and> \<not> index_ready pid (query_collection_id q) then
         Inl (Status CFailedPrecondition (''query requires a composite index on collection '' @ [squote] @
           query_collection_id q @ [squote] @ '' with fields ''))
       else Inr (pid, q)))))"

section \<open>Aggregations\<close>

datatype proto_aggregation =
    PAUnset
  | PACount "i64 option"
  | PASum "string option"
  | PAAvg "string option"

definition translate_aggregation :: "proto_aggregation \<Rightarrow> (status, aggregation_kind) result" where
  "translate_aggregation a =
     (let field = (\<lambda>kind name fld.
        rbind (ok_or (bad_request (name @ '' aggregation requires a field'')) fld) (\<lambda>fp.
          map_sum invalid_status (\<lambda>_. kind fp) (validate_field_path fp)))
      in case a of
        PACount up_to \<Rightarrow>
          if up_to \<noteq> None then Inl (Status CUnimplemented ''count up_to limiting is not yet supported'') else Inr Count
      | PASum fld \<Rightarrow> field Sum ''sum'' fld
      | PAAvg fld \<Rightarrow> field Avg ''avg'' fld
      | PAUnset \<Rightarrow> Inl (bad_request ''aggregation operator is required''))"

definition handle_run_aggregation_query ::
  "rules_db \<Rightarrow> auth_context option \<Rightarrow> string \<Rightarrow> ((proto_aggregation \<times> string) list \<times> proto_query option) option \<Rightarrow>
     (status, string \<times> structured_query \<times> aggregation_kind \<times> string) result" where
  "handle_run_aggregation_query rdb identity parent query_type =
     rbind (extract_project_id parent) (\<lambda>pid.
     rbind (ok_or (bad_request ''query_type is required'') query_type) (\<lambda>(aggs, sq).
     case aggs of
       [(agg, alias)] \<Rightarrow>
         rbind (translate_aggregation agg) (\<lambda>kind.
         rbind (ok_or (bad_request ''structured_query is required'') sq) (\<lambda>pq.
         rbind (translate_where (pq_where pq)) (\<lambda>flt.
           let q = \<lparr>query_collection_id = fst (query_target pq), all_descendants = snd (query_target pq), query_filter_of = flt,
                query_order_by = [], query_limit = None, query_offset = None, start_at = None, end_at = None,
                since_update_time = None\<rparr> in
           rbind (check_query_rules rdb pid identity q) (\<lambda>_.
             Inr (pid, q, kind, if alias = [] then ''field_0'' else alias)))))
     | _ \<Rightarrow> Inl (Status CUnimplemented ''multiple aggregations per request are not yet supported'')))"

section \<open>No request reaches a panic of the builder\<close>

lemma scalar_built: "v \<noteq> FNull \<Longrightarrow> \<not> is_array v \<Longrightarrow> \<not> is_map v \<Longrightarrow> push_scalar_comparison enc fp op v \<noteq> None"
  by (cases v) (simp_all add: push_scalar_comparison_def is_array_def is_map_def)

text \<open>What the translation guarantees of a field filter.\<close>

definition well_typed :: "field_filter \<Rightarrow> bool" where
  "well_typed f \<longleftrightarrow> is_valid_field_path (field_path f) \<and>
     (is_range_op (filter_op f) \<longrightarrow> filter_value f \<noteq> FNull \<and> \<not> is_array (filter_value f) \<and> \<not> is_map (filter_value f)) \<and>
     (filter_op f \<in> {OpIn, NotIn, ArrayContainsAny} \<longrightarrow> is_array (filter_value f))"

lemma valid_ok: "is_ok (validate_field_path fp) \<longleftrightarrow> is_valid_field_path fp"
  by (simp add: validate_field_path_def)

lemma well_typed_built: "well_typed f \<Longrightarrow> append_field_filter enc f \<noteq> None"
proof -
  assume f: "well_typed f"
  have "push_targets a b g (filter_value f) \<noteq> None" if "is_array (filter_value f)" for a b g
    using that by (cases "filter_value f") (simp_all add: push_targets_def is_array_def)
  then show ?thesis
    using f scalar_built [of "filter_value f"]
    by (cases "filter_op f") (simp_all add: append_field_filter_def well_typed_def is_range_op_def valid_ok Let_def)
qed

lemma field_filter_well_typed:
  assumes "translate_field_filter fld fop val = Some (Inr q)"
  shows "\<exists>f. q = Field f \<and> well_typed f"
proof -
  obtain fp where fp: "fld = Some fp" "is_valid_field_path fp"
    using assms by (cases fld) (auto simp: translate_field_filter_def validate_field_path_def split: if_splits)
  obtain op v where ov: "Option.bind fop translate_field_op = Some op" "Option.bind val proto_value_to_field_value = Some v"
    using assms fp
    by (cases "Option.bind fop translate_field_op"; cases "Option.bind val proto_value_to_field_value")
      (simp_all add: translate_field_filter_def validate_field_path_def)
  have q: "q = Field \<lparr>field_path = fp, filter_op = op, filter_value = v\<rparr>"
    and op: "\<not> (is_range_op op \<and> (is_array v \<or> is_map v))"
      "\<not> ((op = OpIn \<or> op = NotIn \<or> op = ArrayContainsAny) \<and> \<not> is_array v)" "\<not> (is_range_op op \<and> v = FNull)"
    using assms unfolding translate_field_filter_def ov fp(1) validate_field_path_def
    by (simp_all add: fp(2) split: if_split_asm)
  have "well_typed \<lparr>field_path = fp, filter_op = op, filter_value = v\<rparr>"
    using op fp(2) unfolding well_typed_def by (simp, blast)
  then show ?thesis using q by blast
qed

lemma unary_filter_well_typed:
  assumes "translate_unary_filter fld uop = Some (Inr q)"
  shows "\<exists>f. q = Field f \<and> well_typed f"
proof -
  obtain fp u where "fld = Some fp" "is_valid_field_path fp" "uop = Some u"
    using assms
    by (cases fld; cases uop) (auto simp: translate_unary_filter_def validate_field_path_def split: if_splits)
  then show ?thesis
    using assms by (cases u) (auto simp: translate_unary_filter_def validate_field_path_def well_typed_def is_range_op_def)
qed

lemma translated_filter_built:
  "translate_filter f = Some (Inr q) \<Longrightarrow> append_filter enc q \<noteq> None"
  "translate_filters fs = Inr qs \<Longrightarrow> those (map (append_filter enc) qs) \<noteq> None"
proof (induction f and fs arbitrary: q and qs rule: translate_filter_translate_filters.induct)
  case (2 fld fop val)
  then show ?case using field_filter_well_typed [of fld fop val q] well_typed_built by auto
next
  case (3 fld uop)
  then show ?case using unary_filter_well_typed [of fld uop q] well_typed_built by auto
next
  case (4 cop fs)
  then show ?case by (cases "translate_filters fs") (auto split: if_splits)
next
  case (6 f fs)
  then show ?case
    by (cases "translate_filters fs") (auto split: option.splits sum.splits)
qed simp_all

lemma translate_where_built:
  "translate_where w = Inr (Some f) \<Longrightarrow> append_filter enc f \<noteq> None"
  using translated_filter_built(1) by (auto simp: translate_where_def Option.bind_eq_Some_conv split: option.splits sum.splits)

lemma translate_order_by_valid:
  assumes "translate_order_by os = Inr obs"
  shows "list_all (\<lambda>ob. is_valid_field_path (ob_field_path ob)) obs"
proof -
  have "list_all (\<lambda>ob. is_valid_field_path (ob_field_path ob)) obs"
    if "collect_results (map (\<lambda>(fp, dir). map_sum invalid_status (\<lambda>_. \<lparr>ob_field_path = fp, ob_direction = dir\<rparr>)
        (validate_field_path fp)) xs) = Inr obs" for xs obs
    using that
    by (induction xs arbitrary: obs) (auto simp: rbind_Inr_iff validate_field_path_def split: if_splits)
  then show ?thesis using assms by (simp add: translate_order_by_def)
qed

lemma order_clause_built: "list_all (\<lambda>ob. is_valid_field_path (ob_field_path ob)) obs \<Longrightarrow> order_clause obs \<noteq> None"
proof -
  assume "list_all (\<lambda>ob. is_valid_field_path (ob_field_path ob)) obs"
  then have "those (map order_by_expr obs) \<noteq> None"
    by (induction obs) (auto simp: order_by_expr_def valid_ok)
  then show ?thesis by (simp add: order_clause_def)
qed

lemma cursor_built:
  assumes "check_cursor c = Inr u" and "list_all (\<lambda>ob. is_valid_field_path (ob_field_path ob)) obs"
  shows "cursor_bound enc is_end c obs \<noteq> None"
proof -
  have scalar: "v \<noteq> FNull \<and> \<not> is_array v \<and> \<not> is_map v" if "validate_cursor_value_types (v # vs) = Inr x" for v vs x
    using that by (cases v) (simp_all add: is_array_def is_map_def)
  show ?thesis
  proof (cases c)
    case (Some cur)
    then obtain x where x: "validate_cursor_value_types (cursor_values cur) = Inr x"
      using assms(1) by (cases "validate_cursor_value_types (cursor_values cur)") (auto simp: check_cursor_def)
    show ?thesis
    proof (cases obs; cases "cursor_values cur")
      fix ob obs' v vs
      assume "obs = ob # obs'" "cursor_values cur = v # vs"
      then show ?thesis
        using Some assms(2) scalar [of v vs x] x scalar_built [of v enc]
        by (simp add: cursor_bound_def valid_ok)
    qed (simp_all add: cursor_bound_def Some)
  qed (simp add: cursor_bound_def)
qed

lemma translated_query_built:
  assumes "translate_query pq = Inr q"
  shows "query_statement enc sa pid cp q \<noteq> None"
proof -
  obtain flt obs where q: "translate_where (pq_where pq) = Inr flt" "translate_order_by (pq_order_by pq) = Inr obs"
    "check_cursor (start_at q) = Inr ()" "check_cursor (end_at q) = Inr ()" "query_filter_of q = flt" "query_order_by q = obs"
    using assms by (auto simp: translate_query_def rbind_Inr_iff Let_def)
  have "where_common enc sa pid cp q \<noteq> None"
    using q(1,5) translate_where_built [of "pq_where pq"] by (auto simp: where_common_def split: option.splits)
  moreover have "cursor_bound enc False (start_at q) (query_order_by q) \<noteq> None"
    "cursor_bound enc True (end_at q) (query_order_by q) \<noteq> None" "order_clause (query_order_by q) \<noteq> None"
    using q translate_order_by_valid [OF q(2)] cursor_built order_clause_built by auto
  ultimately show ?thesis by (auto simp: query_statement_def)
qed

lemma aggregation_built:
  assumes "translate_aggregation a = Inr k" and "translate_where w = Inr (query_filter_of q)"
  shows "aggregation_statement enc sa pid cp q k \<noteq> None"
proof -
  have "aggregation_select k \<noteq> None"
    using assms(1)
    by (cases a)
      (auto simp: translate_aggregation_def Let_def rbind_Inr_iff ok_or_Inr_iff aggregation_select_def validate_field_path_def
        split: if_splits)
  moreover have "where_common enc sa pid cp q \<noteq> None"
    using assms(2) translate_where_built [of w] by (auto simp: where_common_def split: option.splits)
  ultimately show ?thesis by (auto simp: aggregation_statement_def)
qed

lemma aggregation_translated:
  assumes "handle_run_aggregation_query rdb identity parent agg = Inr (pid, q, kind, alias)"
  obtains a and pq :: proto_query where "translate_aggregation a = Inr kind" "translate_where (pq_where pq) = Inr (query_filter_of q)"
    "check_query_rules rdb pid identity q = Inr ()"
proof -
  obtain aggs sq p where agg: "agg = Some (aggs, sq)" and p: "extract_project_id parent = Inr p"
    using assms by (cases agg; cases "extract_project_id parent") (auto simp: handle_run_aggregation_query_def)
  show ?thesis
  proof (cases aggs)
    case Nil
    then show ?thesis using assms by (simp add: handle_run_aggregation_query_def agg p)
  next
    case (Cons x rest)
    note aggs = Cons
    show ?thesis
    proof (cases rest)
      case Nil
      then have "\<exists>a (pq :: proto_query). translate_aggregation a = Inr kind \<and> translate_where (pq_where pq) = Inr (query_filter_of q) \<and>
          check_query_rules rdb pid identity q = Inr ()"
        using assms aggs by (cases x) (auto simp: handle_run_aggregation_query_def agg p rbind_Inr_iff Let_def)
      then show ?thesis using that by blast
    next
      case (Cons y ys)
      then show ?thesis using assms aggs by (cases x) (simp add: handle_run_aggregation_query_def agg p)
    qed
  qed
qed

text \<open>
  C37: every query that a handler passes to the storage adapter can be turned into a statement. The builder
  panics on an invalid field path, on a range comparison or cursor with a value that has no order, and on an
  \<open>in\<close>-like operator without an array; the translation of requests refuses each of these, for queries and
  for aggregations, so no request reaches one of the panics.
\<close>

theorem requests_reach_no_panic:
  "(handle_run_query rdb ready identity parent query = Inr (pid, q) \<longrightarrow>
      query_statement enc sa pid (query_collection_id q) q \<noteq> None) \<and>
   (handle_run_aggregation_query rdb identity parent agg = Inr (pid', q', kind, alias) \<longrightarrow>
      aggregation_statement enc sa pid' (query_collection_id q') q' kind \<noteq> None)"
proof (intro conjI impI)
  assume "handle_run_query rdb ready identity parent query = Inr (pid, q)"
  then obtain pq where "translate_query pq = Inr q"
    by (auto simp: handle_run_query_def rbind_Inr_iff split: if_splits)
  then show "query_statement enc sa pid (query_collection_id q) q \<noteq> None" by (rule translated_query_built)
next
  assume "handle_run_aggregation_query rdb identity parent agg = Inr (pid', q', kind, alias)"
  then obtain a and pq :: proto_query where "translate_aggregation a = Inr kind" "translate_where (pq_where pq) = Inr (query_filter_of q')"
    by (rule aggregation_translated)
  then show "aggregation_statement enc sa pid' (query_collection_id q') q' kind \<noteq> None" by (rule aggregation_built)
qed

definition sample_request :: proto_query where
  "sample_request =
     \<lparr>pq_from = [(''posts'', False)],
      pq_where = Some (PFComposite (Some CopAnd)
        [PFField (Some ''likes'') (Some FopGreaterThan) (Some (PInteger 3)), PFUnary (Some ''title'') (Some UopIsNotNull)]),
      pq_order_by = [(Some ''likes'', Some DirDescending)], pq_limit = Some 10, pq_offset = 0,
      pq_start_at = Some ([PInteger 40], True), pq_end_at = None\<rparr>"

definition no_rules :: rules_db where
  "no_rules = \<lparr>access_rules = (\<lambda>_. None), write_access_rules = (\<lambda>_. None), group_access_rules = (\<lambda>_. None),
     access_rule_patterns = [], rule_histories = []\<rparr>"

theorem requests_reach_no_panic_witness:
  "\<exists>q. handle_run_query no_rules (\<lambda>_ _. True) None ''projects/demo/databases/(default)/documents'' (Some sample_request) =
     Inr (''demo'', q) \<and> query_statement (b64_encode example_env) False ''demo'' (query_collection_id q) q \<noteq> None"
proof -
  have "map_sum id fst (handle_run_query no_rules (\<lambda>_ _. True) None ''projects/demo/databases/(default)/documents''
     (Some sample_request)) = Inr ''demo''"
    by code_simp
  then obtain q where "handle_run_query no_rules (\<lambda>_ _. True) None ''projects/demo/databases/(default)/documents''
     (Some sample_request) = Inr (''demo'', q)"
    by (auto simp: map_sum_Inr_iff)
  then show ?thesis using requests_reach_no_panic by blast
qed

section \<open>Rules on queries\<close>

text \<open>The compliance check looks at the caller's id only.\<close>

lemma check_atoms_caller: "check_atoms as flt (query_caller au) u = check_atoms as flt au u"
proof (induction as arbitrary: u)
  case (Cons a as)
  have "unsatisfied_by a flt (query_caller au) = unsatisfied_by a flt au"
    by (cases a; cases au) (simp_all add: query_caller_def)
  then show ?case using Cons by simp
qed simp

lemma check_query_compliance_caller:
  "check_query_compliance c flt (query_caller au) = check_query_compliance c flt au"
  by (simp add: check_query_compliance_def check_atoms_caller split: sum.split undecidable.split)

text \<open>The rule that a query is checked against.\<close>

definition query_rule :: "rules_db \<Rightarrow> string \<Rightarrow> structured_query \<Rightarrow> string option" where
  "query_rule rdb pid q =
     (if all_descendants q then get_group_access_rule pid (query_collection_id q) rdb
      else get_access_rule pid (query_collection_id q) rdb)"

lemma check_rule_admits:
  "check_rule m source flt (query_caller au) = Inr u \<Longrightarrow>
     \<exists>c. parse_condition source = Inr c \<and> check_query_compliance c flt au = Admitted"
  by (auto simp: check_rule_def query_compliance_rejection_def check_query_compliance_caller
      split: sum.splits option.splits query_compliance_outcome.splits)

lemma checked_rules:
  assumes "check_query_rules rdb pid identity q = Inr u"
  shows "(all_descendants q \<longrightarrow> query_rule rdb pid q \<noteq> None) \<and>
    (\<forall>source. query_rule rdb pid q = Some source \<longrightarrow>
       (\<exists>c. parse_condition source = Inr c \<and> check_query_compliance c (query_filter_of q) identity = Admitted))"
  using assms check_rule_admits
  by (auto simp: check_query_rules_def query_rule_def split: if_splits option.splits)

section \<open>Index requirement\<close>

lemma set_push_unseen: "set (push_unseen xs seen) \<subseteq> set xs"
  by (induction xs seen rule: push_unseen.induct) auto

lemma push_unseen_fields: "fst ` set (push_unseen xs seen) = fst ` set xs - seen"
  by (induction xs seen rule: push_unseen.induct) auto

lemma push_unseen_distinct: "distinct (map fst (push_unseen xs seen))"
  by (induction xs seen rule: push_unseen.induct) (simp_all add: push_unseen_fields)

text \<open>
  The fields of the index that a refused query asks for are, without repetition, exactly the fields that
  its filter and its order name.
\<close>

theorem missing_index_fields_correct:
  "distinct (map fst (missing_index_fields q)) \<and>
   fst ` set (missing_index_fields q) =
     (case query_filter_of q of None \<Rightarrow> {} | Some f \<Rightarrow> fst ` set (collect_filter_fields f)) \<union>
     ob_field_path ` set (query_order_by q)"
  by (auto simp: missing_index_fields_def push_unseen_distinct push_unseen_fields image_Un image_image case_prod_unfold
      split: option.splits)

end
