(* ===== verification/Rules_Import.thy ===== *)
theory Rules_Import
  imports Rules_File
begin

text \<open>
  Properties of the rules-file import: bracket matching, the shape of the parsed match blocks, the
  round trip of stored pattern texts, that decomposition always returns on parsed input, and what
  the stored rows hold.
\<close>

section \<open>Bracket matching\<close>

text \<open>Openings minus closings.\<close>

fun nesting :: "char \<Rightarrow> char \<Rightarrow> string \<Rightarrow> int" where
  "nesting op cl [] = 0"
| "nesting op cl (c # cs) = (if c = op then 1 else if c = cl then -1 else 0) + nesting op cl cs"

lemma close_from_iff:
  "0 < d \<Longrightarrow> op \<noteq> cl \<Longrightarrow>
     close_from op cl d s = Some n \<longleftrightarrow>
       n < length s \<and> d + nesting op cl (take (Suc n) s) = 0 \<and>
       (\<forall>m \<le> n. 0 < d + nesting op cl (take m s))"
proof (induction s arbitrary: d n)
  case Nil
  then show ?case by simp
next
  case (Cons c cs)
  define e where "e = d + (if c = op then 1 else if c = cl then -1 else 0)"
  show ?case
  proof (cases "e = 0")
    case True
    then have c: "c = cl" "d = 1" using Cons.prems by (auto simp: e_def split: if_splits)
    show ?thesis
    proof (cases n)
      case 0
      then show ?thesis using c Cons.prems by simp
    next
      case (Suc k)
      then show ?thesis using c Cons.prems by (auto dest: spec [of _ "Suc 0"])
    qed
  next
    case False
    then have e: "0 < e" using Cons.prems by (auto simp: e_def)
    have step: "close_from op cl d (c # cs) = map_option Suc (close_from op cl e cs)"
      using False Cons.prems by (auto simp: e_def)
    show ?thesis
    proof (cases n)
      case 0
      then show ?thesis using step False by (auto simp: e_def)
    next
      case (Suc k)
      have "(\<forall>m \<le> Suc k. 0 < d + nesting op cl (take m (c # cs))) \<longleftrightarrow>
          0 < d \<and> (\<forall>m \<le> k. 0 < e + nesting op cl (take m cs))"
        by (auto simp: e_def All_less_Suc2 less_Suc_eq_le [symmetric] add.assoc)
      then show ?thesis
        using Suc step Cons.IH [OF e Cons.prems(2), of k] Cons.prems(1) by (auto simp: e_def add.assoc)
    qed
  qed
qed

text \<open>
  The brace scanner finds the matching brace: it returns position \<open>n\<close> exactly when the text starts
  with an opening brace, the braces up to and including \<open>n\<close> balance, and they balance at no earlier
  position. Every block boundary of the rules-file parser rests on this.
\<close>

theorem find_matching_close_correct:
  "find_matching_close s = Some n \<longleftrightarrow>
     starts_with ''{'' s \<and> n < length s \<and> nesting (CHR ''{'') (CHR ''}'') (take (Suc n) s) = 0 \<and>
     (\<forall>m \<in> {1..n}. 0 < nesting (CHR ''{'') (CHR ''}'') (take m s))"
proof (cases "starts_with ''{'' s")
  case True
  then obtain t where s: "s = CHR ''{'' # t" by (auto simp: starts_with_iff)
  show ?thesis
  proof (cases n)
    case 0
    then show ?thesis using s True by (auto simp: find_matching_close_def)
  next
    case (Suc k)
    have "(\<forall>m \<in> {1..Suc k}. 0 < nesting (CHR ''{'') (CHR ''}'') (take m s)) \<longleftrightarrow>
        (\<forall>m \<le> k. 0 < 1 + nesting (CHR ''{'') (CHR ''}'') (take m t))"
      unfolding s image_Suc_atMost [symmetric] by auto
    then show ?thesis
      using Suc s True close_from_iff [of 1 "CHR ''{''" "CHR ''}''" t k]
      by (auto simp: find_matching_close_def)
  qed
next
  case False
  then show ?thesis by (simp add: find_matching_close_def)
qed

theorem find_matching_close_correct_witness:
  "nesting (CHR ''{'') (CHR ''}'') (take 4 ''{{}}x'') = 0"
  using find_matching_close_correct [of "''{{}}x''" 3] by (simp add: find_matching_close_def)

section \<open>Segments\<close>

fun seg_ok :: "path_segment \<Rightarrow> bool" where
  "seg_ok (Literal s) \<longleftrightarrow> s \<noteq> [] \<and> CHR ''/'' \<notin> set s \<and> \<not> contains_str ''**'' s \<and>
     Option.bind (strip_prefix ''{'' s) (strip_suffix ''}'') = None"
| "seg_ok (Wildcard n) \<longleftrightarrow> n \<noteq> [] \<and> CHR ''/'' \<notin> set n \<and> \<not> ends_with ''=**'' n"
| "seg_ok RecursiveWildcard = True"

lemma parse_one_segment_ok:
  assumes "parse_one_segment seg pat = Inr ps" and "CHR ''/'' \<notin> set seg"
  shows "seg_ok ps"
  using assms
  by (auto simp: parse_one_segment_def strip_prefix_Some_iff strip_suffix_Some_iff
      split: option.splits if_splits bind_splits)

lemma parse_one_segment_render:
  "seg_ok ps \<Longrightarrow> render_segment ps = Some seg \<Longrightarrow> parse_one_segment seg pat = Inr ps"
  by (cases ps) (auto simp: parse_one_segment_def split: option.splits)

lemma split_char_parts: "x \<in> set (split_char d s) \<Longrightarrow> d \<notin> set x"
  by (induction s arbitrary: x) (auto split: list.splits if_splits)

lemma parse_path_segments_ok:
  assumes "parse_path_segments pat = Inr segs"
  shows "segs \<noteq> []" and "list_all seg_ok segs"
proof -
  obtain s where s: "map (\<lambda>seg. parse_one_segment seg pat) (split_char (CHR ''/'') s) = map Inr segs"
    using assms by (auto simp: parse_path_segments_def Let_def collect_results_Inr split: if_splits)
  then show "segs \<noteq> []" using split_char_ne [of "CHR ''/''" s] by auto
  have "seg_ok x" if "x \<in> set segs" for x
  proof -
    have "Inr x \<in> set (map (\<lambda>seg. parse_one_segment seg pat) (split_char (CHR ''/'') s))"
      unfolding s using that by simp
    then obtain seg where "parse_one_segment seg pat = Inr x" "seg \<in> set (split_char (CHR ''/'') s)"
      by (auto dest: sym)
    then show ?thesis using parse_one_segment_ok split_char_parts by blast
  qed
  then show "list_all seg_ok segs" by (simp add: list_all_iff)
qed

lemma render_segment_text:
  "seg_ok ps \<Longrightarrow> render_segment ps = Some seg \<Longrightarrow> seg \<noteq> [] \<and> CHR ''/'' \<notin> set seg"
  by (cases ps) auto

lemma those_map_Some: "those (map f xs) = Some ys \<longleftrightarrow> map f xs = map Some ys"
  by (induction xs arbitrary: ys) (auto split: option.splits simp: Cons_eq_map_conv)

lemma render_total: "RecursiveWildcard \<notin> set segs \<Longrightarrow> \<exists>text. render_ancestor_pattern segs = Some text"
proof (induction segs)
  case (Cons seg segs)
  then show ?case by (cases seg) (auto simp: render_ancestor_pattern_def)
qed (simp add: render_ancestor_pattern_def)

lemma parse_render:
  assumes "segs \<noteq> []" and "list_all seg_ok segs" and "render_ancestor_pattern segs = Some text"
  shows "parse_path_segments text = Inr segs"
proof -
  obtain parts where parts: "map render_segment segs = map Some parts" "text = join ''/'' parts"
    using assms(3) by (auto simp: render_ancestor_pattern_def those_map_Some)
  have len: "length parts = length segs" using parts(1) by (rule map_eq_imp_length_eq [symmetric])
  have nth: "render_segment (segs ! i) = Some (parts ! i)" "seg_ok (segs ! i)" if "i < length segs" for i
    using arg_cong [OF parts(1), of "\<lambda>l. l ! i"] that len assms(2) by (simp_all add: list_all_length)
  have plain: "\<forall>seg \<in> set parts. seg \<noteq> [] \<and> CHR ''/'' \<notin> set seg"
    using render_segment_text nth len by (metis in_set_conv_nth)
  have ne: "parts \<noteq> []" using parts(1) assms(1) by auto
  have split: "split_char (CHR ''/'') text = parts"
    unfolding parts(2) using ne plain by (intro split_char_join) auto
  have "strip_prefix ''/'' text = None" "text \<noteq> []"
    using ne plain parts(2) by (cases parts; cases "tl parts"; cases "hd parts"; auto)+
  moreover have "map (\<lambda>seg. parse_one_segment seg text) parts = map Inr segs"
    using nth len by (auto intro!: nth_equalityI parse_one_segment_render)
  ultimately show ?thesis
    by (simp add: parse_path_segments_def split collect_results_Inr)
qed

text \<open>
  Pattern texts round trip: whatever pattern was parsed from a rules file, rendering the part of
  it that is stored (any non-empty run of segments without the recursive wildcard) and parsing the
  stored text again, as the request router does, gives the same segments.
\<close>

theorem stored_pattern_roundtrip:
  assumes "parse_path_segments pat = Inr (xs @ segs @ ys)" and "segs \<noteq> []" and "RecursiveWildcard \<notin> set segs"
  shows "\<exists>text. render_ancestor_pattern segs = Some text \<and> parse_path_segments text = Inr segs"
proof -
  have ok: "list_all seg_ok segs" using parse_path_segments_ok(2) [OF assms(1)] by simp
  obtain t where "render_ancestor_pattern segs = Some t"
    using render_total assms(3) by blast
  then show ?thesis using parse_render [OF assms(2) ok] by blast
qed

theorem stored_pattern_roundtrip_witness:
  "\<exists>text. render_ancestor_pattern [Literal ''trips'', Wildcard ''t'', Literal ''notes''] = Some text \<and>
     parse_path_segments text = Inr [Literal ''trips'', Wildcard ''t'', Literal ''notes'']"
  by (rule stored_pattern_roundtrip [where pat = "''/trips/{t}/notes/{n=**}''" and xs = "[]" and ys = "[RecursiveWildcard]"])
     (code_simp, simp_all)

section \<open>Parsed blocks\<close>

definition block_ok :: "match_block \<Rightarrow> bool" where
  "block_ok b \<longleftrightarrow> segments b \<noteq> [] \<and> list_all seg_ok (segments b) \<and>
     allow_clauses b \<noteq> [] \<and> list_all (\<lambda>(verbs, _). verbs \<noteq> []) (allow_clauses b)"

lemma parse_allow_clauses_ok:
  assumes "parse_allow_clauses body pat fns = Inr clauses"
  shows "clauses \<noteq> [] \<and> list_all (\<lambda>(verbs, _). verbs \<noteq> []) clauses"
proof -
  obtain cs where cs: "map (\<lambda>clause. parse_allow_clause clause pat fns) cs = map Inr clauses" "clauses \<noteq> []"
    using assms by (auto simp: parse_allow_clauses_def rbind_Inr_iff collect_results_Inr split: if_splits)
  have "fst c \<noteq> []" if "parse_allow_clause clause pat fns = Inr c" for clause c
    using that by (auto simp: parse_allow_clause_def rbind_Inr_iff split: if_splits)
  moreover have "\<exists>clause. parse_allow_clause clause pat fns = Inr c" if "c \<in> set clauses" for c
  proof -
    have "Inr c \<in> set (map (\<lambda>clause. parse_allow_clause clause pat fns) cs)"
      unfolding cs(1) using that by simp
    then show ?thesis by (auto dest: sym)
  qed
  ultimately show ?thesis using cs(2) by (fastforce simp: list_all_iff)
qed

lemma finish_blocks_Inr [simp]: "finish_blocks bs off = Inr blocks \<longleftrightarrow> off = [] \<and> blocks = bs"
  by (auto simp: finish_blocks_def)

lemma parse_nested_ok:
  "parse_nested_match_blocks body ptext psegs fns blocks off = Inr result \<Longrightarrow>
     list_all seg_ok psegs \<Longrightarrow> list_all block_ok blocks \<Longrightarrow> list_all block_ok result"
  "parse_block_body bbody pat segs fns = Inr result \<Longrightarrow>
     segs \<noteq> [] \<Longrightarrow> list_all seg_ok segs \<Longrightarrow> list_all block_ok result"
proof (induction body ptext psegs fns blocks off and bbody pat segs fns arbitrary: result and result
    rule: parse_nested_match_blocks_parse_block_body.induct)
  case (1 body ptext psegs fns blocks off)
  show ?case
  proof (cases "trim_start body = []")
    case True
    then show ?thesis using "1.prems" by (simp add: parse_nested_match_blocks.simps)
  next
    case False
    then obtain lp bb resume where split: "split_match_block (trim_start body) = Inr (lp, bb, resume)"
      using "1.prems"(1) by (auto simp: parse_nested_match_blocks.simps rbind_Inr_iff)
    note unfolded = "1.prems"(1) [unfolded parse_nested_match_blocks.simps [of body]]
    note IH = "1.IH" [OF False split refl refl]
    show ?thesis
    proof (cases "parse_path_segments lp")
      case (Inl err)
      then show ?thesis using unfolded False split IH(1) [OF Inl] "1.prems"(2,3) by simp
    next
      case (Inr ls)
      then have ls: "psegs @ ls \<noteq> []" "list_all seg_ok (psegs @ ls)"
        using parse_path_segments_ok [OF Inr] "1.prems"(2) by auto
      show ?thesis
      proof (cases "parse_block_body bb (ptext @ lp) (psegs @ ls) fns")
        case body: (Inl err)
        then show ?thesis using unfolded False split Inr IH(3) [OF Inr body] "1.prems"(2,3) by simp
      next
        case body: (Inr nested)
        then have "list_all block_ok (blocks @ nested)"
          using IH(2) [OF Inr body ls] "1.prems"(3) by simp
        then show ?thesis using unfolded False split Inr body IH(4) [OF Inr body] "1.prems"(2) by simp
      qed
    qed
  qed
next
  case (2 bbody pat segs fns)
  show ?case
  proof (cases "starts_with_nested_match bbody")
    case True
    then show ?thesis using 2 by (simp add: parse_block_body.simps)
  next
    case False
    then show ?thesis
      using "2.prems" parse_allow_clauses_ok [of bbody pat fns]
      by (auto simp: parse_block_body.simps rbind_Inr_iff block_ok_def)
  qed
qed

lemma parse_rules_file_ok:
  "parse_rules_file source = Inr blocks \<Longrightarrow> blocks \<noteq> [] \<and> list_all block_ok blocks"
  by (auto simp: parse_rules_file_def rbind_Inr_iff parse_match_blocks_def
      dest!: parse_nested_ok(1) split: if_splits)

section \<open>The shape check\<close>

lemma validate_from_iff:
  "validate_from i segs pat = Inr () \<longleftrightarrow>
     (collections_literal i segs \<and> no_recursive segs) \<or>
     (\<exists>pre. segs = pre @ [RecursiveWildcard] \<and> even (i + length pre) \<and> collections_literal i pre \<and> no_recursive pre)"
proof (induction i segs pat rule: validate_from.induct)
  case (1 i pat)
  then show ?case by (simp add: no_recursive_def)
next
  case (2 i seg segs pat)
  show ?case
  proof (cases seg)
    case RecursiveWildcard
    then show ?thesis by (cases segs) (auto simp: no_recursive_def Cons_eq_append_conv)
  next
    case (Literal s)
    then show ?thesis using 2 by (auto simp: no_recursive_def Cons_eq_append_conv)
  next
    case (Wildcard n)
    then show ?thesis using 2 by (auto simp: no_recursive_def Cons_eq_append_conv)
  qed
qed

lemma shape_iff:
  "validate_segment_shape segs pat = Inr () \<longleftrightarrow>
     (collections_literal 0 segs \<and> no_recursive segs) \<or>
     (\<exists>pre. segs = pre @ [RecursiveWildcard] \<and> even (length pre) \<and> collections_literal 0 pre \<and> no_recursive pre)"
  unfolding validate_segment_shape_def validate_from_iff by simp

text \<open>
  The accepted pattern shapes: every collection position holds a literal, and a recursive
  wildcard occurs at most once, as the last segment, behind an even number of segments.
\<close>

theorem validate_segment_shape_iff:
  "validate_segment_shape segs pat = Inr () \<longleftrightarrow>
     (collections_literal 0 segs \<and> no_recursive segs) \<or>
     (\<exists>pre. segs = pre @ [RecursiveWildcard] \<and> even (length pre) \<and> collections_literal 0 pre \<and> no_recursive pre)"
  by (rule shape_iff)

section \<open>Rewriting and bucketing\<close>

lemma rewrite_from_total: "var \<noteq> [] \<Longrightarrow> \<exists>out. rewrite_from var prev s = Some out"
  by (induction var prev s rule: rewrite_from.induct) auto

lemma rewrite_all_total: "list_all (\<lambda>v. v \<noteq> []) vars \<Longrightarrow> \<exists>out. rewrite_all c vars = Some out"
proof (induction vars arbitrary: c)
  case (Cons v vars)
  then obtain c' where "rewrite_path_variable c v = Some c'"
    using rewrite_from_total [of v None c] by (auto simp: rewrite_path_variable_def)
  then show ?case using Cons by simp
qed simp

lemma bucket_clauses_total:
  "list_all (\<lambda>v. v \<noteq> []) names \<Longrightarrow> bucket_clauses pat names clauses b \<noteq> None"
proof (induction clauses arbitrary: b)
  case (Cons cl clauses)
  obtain verbs raw where cl: "cl = (verbs, raw)" by force
  obtain out where "rewrite_all raw names = Some out" using rewrite_all_total [OF Cons.prems] by blast
  then show ?case using Cons cl
    by (cases "parse_condition out"; cases "bucket_verbs pat out verbs b") auto
qed simp

lemma put_bucket_Inr: "put_bucket pat c b = Inr b' \<longleftrightarrow> b' = Some c \<and> (b = None \<or> b = Some c)"
  by (auto simp: put_bucket_def split: option.splits)

lemma bucket_verbs_Inr:
  "bucket_verbs pat c vs (r, w) = Inr (r', w') \<Longrightarrow>
     r' = (if \<exists>v \<in> set vs. is_read_verb v then Some c else r) \<and>
     w' = (if \<exists>v \<in> set vs. \<not> is_read_verb v then Some c else w) \<and>
     (r \<noteq> None \<longrightarrow> r' = r) \<and> (w \<noteq> None \<longrightarrow> w' = w)"
proof (induction vs arbitrary: r w)
  case (Cons v vs)
  show ?case
  proof (cases "is_read_verb v")
    case True
    then have "bucket_verbs pat c vs (Some c, w) = Inr (r', w')" "r = None \<or> r = Some c"
      using Cons.prems by (cases "put_bucket pat c r"; auto simp: put_bucket_Inr)+
    then show ?thesis using Cons.IH [of "Some c" w] True by (auto split: if_splits)
  next
    case False
    then have "bucket_verbs pat c vs (r, Some c) = Inr (r', w')" "w = None \<or> w = Some c"
      using Cons.prems by (cases "put_bucket pat c w"; auto simp: put_bucket_Inr)+
    then show ?thesis using Cons.IH [of r "Some c"] False by (auto split: if_splits)
  qed
qed simp

definition clause_stored :: "string list \<Rightarrow> buckets \<Rightarrow> verb list \<times> string \<Rightarrow> bool" where
  "clause_stored names b = (\<lambda>(verbs, raw).
     (\<exists>c. rewrite_all raw names = Some c \<and> is_ok (parse_condition c)) \<and>
     ((\<exists>v \<in> set verbs. is_read_verb v) \<longrightarrow> fst b = rewrite_all raw names) \<and>
     ((\<exists>v \<in> set verbs. \<not> is_read_verb v) \<longrightarrow> snd b = rewrite_all raw names))"

definition clause_verbs :: "(verb list \<times> string) list \<Rightarrow> verb set" where
  "clause_verbs clauses = (\<Union>(verbs, _) \<in> set clauses. set verbs)"

lemma clause_verbs_Cons: "clause_verbs ((vs, raw) # clauses) = set vs \<union> clause_verbs clauses"
  by (auto simp: clause_verbs_def)

lemma bucket_clauses_Inr:
  "bucket_clauses pat names clauses (r, w) = Some (Inr (r', w')) \<Longrightarrow>
     list_all (clause_stored names (r', w')) clauses \<and>
     (r \<noteq> None \<longrightarrow> r' = r) \<and> (w \<noteq> None \<longrightarrow> w' = w) \<and>
     (r = None \<longrightarrow> (r' = None \<longleftrightarrow> (\<forall>v \<in> clause_verbs clauses. \<not> is_read_verb v))) \<and>
     (w = None \<longrightarrow> (w' = None \<longleftrightarrow> (\<forall>v \<in> clause_verbs clauses. is_read_verb v)))"
proof (induction clauses arbitrary: r w)
  case Nil
  then show ?case by (simp add: clause_verbs_def)
next
  case (Cons cl clauses)
  obtain verbs raw where cl: "cl = (verbs, raw)" by force
  obtain c where c: "rewrite_all raw names = Some c"
    using Cons.prems cl by (auto simp: bind_eq_Some_conv)
  obtain p r1 w1 where "parse_condition c = Inr p" "bucket_verbs pat c verbs (r, w) = Inr (r1, w1)"
      "bucket_clauses pat names clauses (r1, w1) = Some (Inr (r', w'))"
    using Cons.prems cl c by (cases "parse_condition c") (auto simp: pbind_Inr_iff)
  note step = c this
  note b = bucket_verbs_Inr [OF step(3)] and IH = Cons.IH [OF step(4)]
  have "clause_stored names (r', w') cl"
    using cl step(1,2) b IH by (auto simp: clause_stored_def split: if_splits)
  then show ?case
    using b IH unfolding cl clause_verbs_Cons by (auto split: if_splits)
qed

section \<open>Decomposition\<close>

lemma segment_wildcards_append: "segment_wildcards (xs @ ys) = segment_wildcards xs @ segment_wildcards ys"
  by (induction xs rule: segment_wildcards.induct) auto

lemma segment_wildcards_ok: "list_all seg_ok segs \<Longrightarrow> list_all (\<lambda>v. v \<noteq> []) (segment_wildcards segs)"
  by (induction segs rule: segment_wildcards.induct) auto

lemma leaf_name_wildcards:
  "segment_wildcards [seg] = (case leaf_name (Some seg) of Some n \<Rightarrow> [n] | None \<Rightarrow> [])"
  by (cases seg) (simp_all add: leaf_name_def)

text \<open>The two cases of a block that passes the shape check.\<close>

lemma decompose_block_recursive:
  assumes "segments b = pre @ [RecursiveWildcard]" and "even (length pre)"
    and "collections_literal 0 pre" and "no_recursive pre"
  shows "decompose_block b =
    pbind (bucket_clauses (path_pattern b) (segment_wildcards (segments b)) (allow_clauses b) (None, None)) (\<lambda>(r, w).
      map_option (\<lambda>t. Inr (RecursiveWildcardPattern
         \<lparr>fixed_prefix_pattern = t, fixed_prefix_segment_count = word_of_nat (length pre),
          literal_skeleton_prefix = literal_skeleton pre,
          recursive_read_condition = r, recursive_write_condition = w\<rparr>))
        (render_ancestor_pattern pre))"
proof -
  have "validate_segment_shape (segments b) (path_pattern b) = Inr ()"
    unfolding shape_iff using assms by blast
  then show ?thesis
    using assms(1) by (simp add: decompose_block_def decompose_recursive_def segment_wildcards_append)
qed

lemma decompose_block_fixed:
  assumes "segments b = anc @ leaf" and "odd (length anc)" and "length leaf \<le> 1"
    and "collections_literal 0 (segments b)" and "no_recursive (segments b)"
  shows "decompose_block b =
    pbind (bucket_clauses (path_pattern b) (segment_wildcards (segments b)) (allow_clauses b) (None, None)) (\<lambda>bk.
      map_option Inr (fixed_depth_target anc (leaf_name (case leaf of [] \<Rightarrow> None | x # _ \<Rightarrow> Some x)) bk))"
proof -
  have v: "validate_segment_shape (segments b) (path_pattern b) = Inr ()"
    unfolding shape_iff using assms by blast
  have nr: "last (segments b) \<noteq> RecursiveWildcard" if "segments b \<noteq> []"
    using assms(5) that by (metis last_in_set no_recursive_def)
  show ?thesis
  proof (cases leaf)
    case Nil
    then show ?thesis
      using assms(1,2) v nr
      by (auto simp: decompose_block_def split_leaf_def leaf_name_def)
  next
    case (Cons x rest)
    then have leaf: "leaf = [x]" using assms(3) by simp
    then have "split_leaf (segments b) = Some (anc, Some x)"
      using assms(1,2) by (simp add: split_leaf_def)
    then show ?thesis
      using v nr assms(1) leaf leaf_name_wildcards [of x]
      by (simp add: decompose_block_def segment_wildcards_append)
  qed
qed

lemma valid_cases [consumes 2, case_names recursive fixed]:
  assumes "validate_segment_shape segs pat = Inr ()" and "segs \<noteq> []"
  obtains pre where "segs = pre @ [RecursiveWildcard]" "even (length pre)" "collections_literal 0 pre" "no_recursive pre"
  | anc leaf where "segs = anc @ leaf" "odd (length anc)" "length leaf \<le> 1"
      "collections_literal 0 segs" "no_recursive segs"
proof -
  have "\<exists>anc leaf. segs = anc @ leaf \<and> odd (length anc) \<and> length leaf \<le> 1"
  proof (cases "even (length segs)")
    case True
    then show ?thesis using assms(2)
      by (intro exI [of _ "butlast segs"] exI [of _ "[last segs]"]) simp
  next
    case False
    then show ?thesis by (intro exI [of _ segs] exI [of _ "[]"]) simp
  qed
  then show ?thesis using assms(1) that unfolding shape_iff by blast
qed

lemma collections_literal_append: "collections_literal i (xs @ ys) \<Longrightarrow> collections_literal i xs"
  by (induction xs arbitrary: i) auto

lemma fixed_depth_target_total:
  assumes "odd (length anc)" "collections_literal 0 anc" "no_recursive anc"
  shows "fixed_depth_target anc leaf bk \<noteq> None"
proof -
  obtain t where "render_ancestor_pattern anc = Some t"
    using render_total assms(3) by (auto simp: no_recursive_def)
  moreover obtain c rest where "anc = Literal c # rest"
    using assms(1,2) by (cases anc) auto
  ultimately show ?thesis by (cases bk) (simp add: fixed_depth_target_def)
qed

lemma decompose_block_total:
  assumes "block_ok b"
  shows "decompose_block b \<noteq> None"
proof (cases "validate_segment_shape (segments b) (path_pattern b)")
  case (Inl e)
  then show ?thesis by (simp add: decompose_block_def)
next
  case (Inr u)
  then have v: "validate_segment_shape (segments b) (path_pattern b) = Inr ()" by simp
  have ne: "segments b \<noteq> []" and names: "list_all (\<lambda>v. v \<noteq> []) (segment_wildcards (segments b))"
    using assms segment_wildcards_ok by (auto simp: block_ok_def)
  note total = bucket_clauses_total [OF names, of "path_pattern b" "allow_clauses b" "(None, None)"]
  from v ne show ?thesis
  proof (cases rule: valid_cases)
    case (recursive pre)
    then obtain t where "render_ancestor_pattern pre = Some t"
      using render_total by (auto simp: no_recursive_def)
    then show ?thesis using total by (auto simp: decompose_block_recursive [OF recursive] pbind_None_iff)
  next
    case (fixed anc leaf)
    then have "collections_literal 0 anc" "no_recursive anc"
      using collections_literal_append by (auto simp: no_recursive_def)
    then show ?thesis
      using total fixed_depth_target_total [OF fixed(2)]
      by (auto simp: decompose_block_fixed [OF fixed] pbind_None_iff)
  qed
qed

lemma decompose_from_eq:
  assumes "list_all (\<lambda>b. decompose_block b \<noteq> None) bs"
  shows "decompose_from bs targets off =
    (let errs = off @ concat (map (\<lambda>b. case decompose_block b of Some (Inl e) \<Rightarrow> offending_blocks e | _ \<Rightarrow> []) bs);
         oks = targets @ List.map_filter (\<lambda>b. case decompose_block b of Some (Inr t) \<Rightarrow> Some t | _ \<Rightarrow> None) bs
     in Some (if errs \<noteq> [] then Inl \<lparr>offending_blocks = errs, partial_blocks = []\<rparr> else Inr oks))"
  using assms
proof (induction bs arbitrary: targets off)
  case Nil
  then show ?case by (simp add: List.map_filter_simps)
next
  case (Cons b bs)
  then obtain r where "decompose_block b = Some r" by auto
  then show ?case using Cons by (cases r) (simp_all add: Let_def List.map_filter_simps)
qed

text \<open>
  The import always returns: on the blocks of any rules file that the scanner accepts, no
  \<open>unreachable!\<close> is reached, no slice is out of range and no rewriting loop runs forever.
\<close>

theorem import_returns:
  assumes "parse_rules_file source = Inr blocks"
  shows "\<exists>r. decompose blocks = Some r"
proof -
  have "list_all (\<lambda>b. decompose_block b \<noteq> None) blocks"
    using parse_rules_file_ok [OF assms] decompose_block_total by (auto simp: list_all_iff)
  then show ?thesis using decompose_from_eq [of blocks "[]" "[]"] by (simp add: decompose_def Let_def)
qed

definition tiny_rules :: string where
  "tiny_rules = ''service cloud.firestore { match /databases/{database}/documents { match /a/{b}/c/{d} { allow get: if b == d; } } }''"

definition tiny_blocks :: "match_block list" where
  "tiny_blocks = [\<lparr>path_pattern = ''/a/{b}/c/{d}'',
     segments = [Literal ''a'', Wildcard ''b'', Literal ''c'', Wildcard ''d''],
     allow_clauses = [([Get], ''b == d'')]\<rparr>]"

lemma parse_tiny_rules: "parse_rules_file tiny_rules = Inr tiny_blocks"
  by code_simp

theorem import_returns_witness: "\<exists>r. decompose tiny_blocks = Some r"
  by (rule import_returns [OF parse_tiny_rules])

subsection \<open>What the stored rows hold\<close>

fun target_buckets :: "decomposed_target \<Rightarrow> buckets" where
  "target_buckets (SingleCollection r) = (rule_read_condition r, rule_write_condition r)"
| "target_buckets (MultiSegmentPattern p) = (pattern_read_condition p, pattern_write_condition p)"
| "target_buckets (RecursiveWildcardPattern p) = (recursive_read_condition p, recursive_write_condition p)"

text \<open>The conditions: every clause is stored, rewritten, in the bucket of each of its verbs, it parses,
  and a bucket is empty exactly when no clause names one of its verbs.\<close>

definition stored_conditions :: "match_block \<Rightarrow> decomposed_target \<Rightarrow> bool" where
  "stored_conditions b t \<longleftrightarrow>
     list_all (clause_stored (segment_wildcards (segments b)) (target_buckets t)) (allow_clauses b) \<and>
     (fst (target_buckets t) = None \<longleftrightarrow> (\<forall>v \<in> clause_verbs (allow_clauses b). \<not> is_read_verb v)) \<and>
     (snd (target_buckets t) = None \<longleftrightarrow> (\<forall>v \<in> clause_verbs (allow_clauses b). is_read_verb v))"

text \<open>The patterns: the stored text parses back to the ancestor (or the fixed prefix) of the block, whose
  collection positions are literal, and the stored index key is that of the ancestor.\<close>

fun stored_pattern :: "match_block \<Rightarrow> decomposed_target \<Rightarrow> bool" where
  "stored_pattern b (SingleCollection r) \<longleftrightarrow>
     (\<exists>leaf. segments b = Literal (rule_collection_path r) # leaf \<and> length leaf \<le> 1)"
| "stored_pattern b (MultiSegmentPattern p) \<longleftrightarrow>
     (\<exists>anc leaf. segments b = anc @ leaf \<and> odd (length anc) \<and> 1 < length anc \<and> length leaf \<le> 1 \<and>
        parse_path_segments (collection_path_pattern p) = Inr anc \<and> collections_literal 0 anc \<and>
        pattern_literal_skeleton p = literal_skeleton anc \<and>
        ancestor_segment_count p = word_of_nat (length anc) \<and>
        (\<forall>n. leaf_variable p = Some n \<longleftrightarrow> leaf = [Wildcard n]))"
| "stored_pattern b (RecursiveWildcardPattern p) \<longleftrightarrow>
     (\<exists>pre. segments b = pre @ [RecursiveWildcard] \<and> even (length pre) \<and>
        (if pre = [] then fixed_prefix_pattern p = []
         else parse_path_segments (fixed_prefix_pattern p) = Inr pre) \<and> collections_literal 0 pre \<and>
        literal_skeleton_prefix p = literal_skeleton pre \<and>
        fixed_prefix_segment_count p = word_of_nat (length pre))"

lemma fixed_depth_target_buckets:
  "fixed_depth_target anc leaf bk = Some t \<Longrightarrow> target_buckets t = bk"
  by (cases bk) (auto simp: fixed_depth_target_def split: if_splits path_segment.splits)

lemma bucket_clauses_stored:
  assumes "bucket_clauses pat (segment_wildcards (segments b)) (allow_clauses b) (None, None) = Some (Inr bk)"
    and "target_buckets t = bk"
  shows "stored_conditions b t"
  using bucket_clauses_Inr [of pat _ _ None None "fst bk" "snd bk"] assms
  by (simp add: stored_conditions_def)

lemma fixed_depth_pattern:
  assumes "fixed_depth_target anc (leaf_name (case leaf of [] \<Rightarrow> None | x # _ \<Rightarrow> Some x)) bk = Some t"
    and "segments b = anc @ leaf" "odd (length anc)" "length leaf \<le> 1" "collections_literal 0 anc"
    and "list_all seg_ok anc"
  shows "stored_pattern b t"
proof (cases "length anc = 1")
  case True
  then obtain c where "anc = [Literal c]" using assms(5) by (cases anc) auto
  then show ?thesis using assms(1,2,4) by (cases bk) (auto simp: fixed_depth_target_def)
next
  case False
  then have len: "1 < length anc" using assms(3) by (cases anc) auto
  obtain r w where bk: "bk = (r, w)" by force
  obtain tx where tx: "render_ancestor_pattern anc = Some tx"
      "t = MultiSegmentPattern \<lparr>collection_path_pattern = tx, ancestor_segment_count = word_of_nat (length anc),
        pattern_literal_skeleton = literal_skeleton anc,
        leaf_variable = leaf_name (case leaf of [] \<Rightarrow> None | x # _ \<Rightarrow> Some x),
        pattern_read_condition = r, pattern_write_condition = w\<rparr>"
    using assms(1) False bk by (auto simp: fixed_depth_target_def)
  have "parse_path_segments tx = Inr anc" using parse_render [OF _ assms(6) tx(1)] len by force
  moreover have "leaf_name (case leaf of [] \<Rightarrow> None | x # _ \<Rightarrow> Some x) = Some n \<longleftrightarrow> leaf = [Wildcard n]" for n
    using assms(4) by (cases leaf) (auto simp: leaf_name_def split: path_segment.splits)
  ultimately show ?thesis using assms(2-5) len tx(2) by auto
qed

lemma recursive_pattern_text:
  assumes "list_all seg_ok pre" and "render_ancestor_pattern pre = Some tx"
  shows "if pre = [] then tx = [] else parse_path_segments tx = Inr pre"
  using assms parse_render [OF _ assms] by (auto simp: render_ancestor_pattern_def)

lemma decompose_block_stored:
  assumes "block_ok b" and "decompose_block b = Some (Inr t)"
  shows "stored_conditions b t \<and> stored_pattern b t"
proof -
  have v: "validate_segment_shape (segments b) (path_pattern b) = Inr ()"
    using assms(2) by (auto simp: decompose_block_def pbind_Inr_iff)
  have ne: "segments b \<noteq> []" and ok: "list_all seg_ok (segments b)" using assms(1) by (auto simp: block_ok_def)
  from v ne show ?thesis
  proof (cases rule: valid_cases)
    case (recursive pre)
    then obtain r w tx where
      bk: "bucket_clauses (path_pattern b) (segment_wildcards (segments b)) (allow_clauses b) (None, None) = Some (Inr (r, w))"
      and tx: "render_ancestor_pattern pre = Some tx"
      and t: "t = RecursiveWildcardPattern \<lparr>fixed_prefix_pattern = tx, fixed_prefix_segment_count = word_of_nat (length pre),
          literal_skeleton_prefix = literal_skeleton pre,
          recursive_read_condition = r, recursive_write_condition = w\<rparr>"
      using assms(2) by (auto simp: decompose_block_recursive [OF recursive] pbind_Inr_iff)
    have "list_all seg_ok pre" using ok recursive(1) by simp
    from recursive_pattern_text [OF this tx] recursive show ?thesis
      using bucket_clauses_stored [OF bk, of t] t by auto
  next
    case (fixed anc leaf)
    then obtain bk where bk:
      "bucket_clauses (path_pattern b) (segment_wildcards (segments b)) (allow_clauses b) (None, None) = Some (Inr bk)"
      "fixed_depth_target anc (leaf_name (case leaf of [] \<Rightarrow> None | x # _ \<Rightarrow> Some x)) bk = Some t"
      using assms(2) by (auto simp: decompose_block_fixed [OF fixed] pbind_Inr_iff)
    have "collections_literal 0 anc" "list_all seg_ok anc"
      using fixed(1,4) ok collections_literal_append [of 0 anc leaf] by simp_all
    then show ?thesis
      using fixed_depth_pattern [OF bk(2) fixed(1-3)] bucket_clauses_stored [OF bk(1)]
        fixed_depth_target_buckets [OF bk(2)] by blast
  qed
qed

lemma decompose_total:
  assumes "parse_rules_file source = Inr blocks"
  shows "list_all (\<lambda>b. decompose_block b \<noteq> None) blocks"
  using parse_rules_file_ok [OF assms] decompose_block_total by (auto simp: list_all_iff)

text \<open>Every error names at least one block.\<close>

lemma single_error_nonempty [simp]: "offending_blocks (single_error p c d) \<noteq> []"
  by (simp add: single_error_def)

lemma validate_from_nonempty: "validate_from i segs pat = Inl e \<Longrightarrow> offending_blocks e \<noteq> []"
  by (induction i segs pat rule: validate_from.induct) (auto split: if_splits)

lemma put_bucket_nonempty: "put_bucket pat c bk = Inl e \<Longrightarrow> offending_blocks e \<noteq> []"
  by (auto simp: put_bucket_def split: option.splits if_splits)

lemma bucket_verbs_nonempty: "bucket_verbs pat c vs bk = Inl e \<Longrightarrow> offending_blocks e \<noteq> []"
proof (induction pat c vs bk rule: bucket_verbs.induct)
  case (2 pat c v vs r w)
  then show ?case
    by (cases "put_bucket pat c r"; cases "put_bucket pat c w")
       (auto dest: put_bucket_nonempty split: if_splits)
qed simp

lemma bucket_clauses_nonempty: "bucket_clauses pat names cls bk = Some (Inl e) \<Longrightarrow> offending_blocks e \<noteq> []"
proof (induction pat names cls bk rule: bucket_clauses.induct)
  case (2 pat names vs raw cls bk)
  then obtain c where c: "rewrite_all raw names = Some c" by (auto simp: bind_eq_Some_conv)
  show ?case
  proof (cases "parse_condition c")
    case (Inl pe)
    then show ?thesis using 2 c by auto
  next
    case (Inr p)
    then show ?thesis using 2 c bucket_verbs_nonempty by (cases "bucket_verbs pat c vs bk") auto
  qed
qed simp

lemma offending_nonempty: "decompose_block b = Some (Inl e) \<Longrightarrow> offending_blocks e \<noteq> []"
  by (auto simp: decompose_block_def decompose_recursive_def validate_segment_shape_def Let_def
      pbind_Inl_iff bind_eq_Some_conv split: if_splits prod.splits
      dest: validate_from_nonempty bucket_clauses_nonempty)

lemma decomposed_blocks:
  assumes "parse_rules_file source = Inr blocks" and "decompose blocks = Some (Inr targets)"
  shows "list_all2 (\<lambda>b t. stored_conditions b t \<and> stored_pattern b t) blocks targets"
proof -
  have ok: "list_all block_ok blocks" using parse_rules_file_ok [OF assms(1)] by simp
  have "decompose_from bs ts off = Some (Inr targets) \<Longrightarrow> list_all block_ok bs \<Longrightarrow>
      \<exists>us. targets = ts @ us \<and> list_all2 (\<lambda>b t. stored_conditions b t \<and> stored_pattern b t) bs us \<and> off = []" for bs ts off
  proof (induction bs ts off rule: decompose_from.induct)
    case (2 b bs ts off)
    then obtain r where r: "decompose_block b = Some r" by (cases "decompose_block b") auto
    show ?case
    proof (cases r)
      case (Inl e)
      then show ?thesis using 2 r offending_nonempty [of b e] by auto
    next
      case (Inr t)
      then show ?thesis using 2 r decompose_block_stored [of b t] by force
    qed
  qed (auto split: if_splits)
  then show ?thesis using assms(2) ok by (force simp: decompose_def)
qed

text \<open>
  \<open>C30\<close>. What an import stores. When a rules file is accepted, there is one row per match block, in
  order, and each row is right for its block: every allow clause is stored in the read bucket, the
  write bucket or both, according to its verbs, with the path variables of the block rewritten, and
  the stored text is a condition that parses; the stored pattern text parses back to the block's
  ancestor path or fixed prefix, its collection positions are literals and the index key belongs to it.
\<close>

theorem import_correct:
  assumes "parse_rules_file source = Inr blocks" and "decompose blocks = Some (Inr targets)"
  shows "list_all2 (\<lambda>b t. stored_conditions b t \<and> stored_pattern b t) blocks targets"
  using assms by (rule decomposed_blocks)

theorem import_correct_witness:
  "\<exists>targets. decompose tiny_blocks = Some (Inr targets) \<and>
     list_all2 (\<lambda>b t. stored_conditions b t \<and> stored_pattern b t) tiny_blocks targets"
proof -
  have "decompose tiny_blocks = Some (Inr [MultiSegmentPattern
     \<lparr>collection_path_pattern = ''a/{b}/c'', ancestor_segment_count = 3, pattern_literal_skeleton = ''a/c'',
      leaf_variable = Some ''d'', pattern_read_condition = Some ''request.path.b == request.path.d'',
      pattern_write_condition = None\<rparr>])" by code_simp
  from this import_correct [OF parse_tiny_rules this] show ?thesis by blast
qed

text \<open>
  Rejection is complete: an import is refused exactly when some block is, and then the report is
  the concatenation of the reports of all the refused blocks, in file order; none is dropped.
\<close>

theorem decompose_reports_all:
  assumes "parse_rules_file source = Inr blocks"
  shows "((\<exists>err. decompose blocks = Some (Inl err)) \<longleftrightarrow> (\<exists>b \<in> set blocks. \<exists>e. decompose_block b = Some (Inl e))) \<and>
    (\<forall>err. decompose blocks = Some (Inl err) \<longrightarrow>
       offending_blocks err =
         concat (map (\<lambda>b. case decompose_block b of Some (Inl e) \<Rightarrow> offending_blocks e | _ \<Rightarrow> []) blocks))"
proof -
  note eq = decompose_from_eq [OF decompose_total [OF assms], of "[]" "[]", folded decompose_def]
  have "(\<forall>b \<in> set blocks. (case decompose_block b of Some (Inl e) \<Rightarrow> offending_blocks e | _ \<Rightarrow> []) = []) \<longleftrightarrow>
      \<not> (\<exists>b \<in> set blocks. \<exists>e. decompose_block b = Some (Inl e))"
    using offending_nonempty by (fastforce split: option.splits sum.splits)
  then show ?thesis unfolding eq Let_def by (auto split: if_splits)
qed

definition conflicting_rules :: string where
  "conflicting_rules = ''service cloud.firestore { match /databases/{database}/documents { match /a { allow get: if true; allow list: if false; } match /b { allow get: if true; } match /{c}/{d} { allow get: if true; } } }''"

definition conflicting_blocks :: "match_block list" where
  "conflicting_blocks =
     [\<lparr>path_pattern = ''/a'', segments = [Literal ''a''], allow_clauses = [([Get], ''true''), ([List], ''false'')]\<rparr>,
      \<lparr>path_pattern = ''/b'', segments = [Literal ''b''], allow_clauses = [([Get], ''true'')]\<rparr>,
      \<lparr>path_pattern = ''/{c}/{d}'', segments = [Wildcard ''c'', Wildcard ''d''], allow_clauses = [([Get], ''true'')]\<rparr>]"

theorem decompose_reports_all_witness:
  "\<exists>err. decompose conflicting_blocks = Some (Inl err) \<and>
     map (\<lambda>x. (offending_path_pattern x, offending_construct x)) (offending_blocks err) =
       [(''/a'', ''CONFLICTING_VERB_CONDITIONS''), (''/{c}/{d}'', ''NESTED_PATH'')]"
proof -
  have parse: "parse_rules_file conflicting_rules = Inr conflicting_blocks" by code_simp
  have a: "decompose_block (conflicting_blocks ! 0) = Some (Inl (single_error ''/a'' ''CONFLICTING_VERB_CONDITIONS''
      ''differing conditions for the same read/write bucket are not supported''))" by code_simp
  have b: "\<exists>t. decompose_block (conflicting_blocks ! 1) = Some (Inr t)"
    by (rule exI [of _ "SingleCollection \<lparr>rule_collection_path = ''b'', rule_read_condition = Some ''true'',
        rule_write_condition = None\<rparr>"]) code_simp
  have c: "decompose_block (conflicting_blocks ! 2) = Some (Inl (single_error ''/{c}/{d}'' ''NESTED_PATH''
      ''a collection-name position must be a literal segment, never a wildcard''))" by code_simp
  have blocks: "conflicting_blocks = [conflicting_blocks ! 0, conflicting_blocks ! 1, conflicting_blocks ! 2]"
    by (simp add: conflicting_blocks_def)
  have in_set: "conflicting_blocks ! 0 \<in> set conflicting_blocks" by (simp add: conflicting_blocks_def)
  note all = decompose_reports_all [OF parse]
  obtain err where err: "decompose conflicting_blocks = Some (Inl err)" using all in_set a by blast
  then have "offending_blocks err = concat (map (\<lambda>b. case decompose_block b of Some (Inl e) \<Rightarrow> offending_blocks e | _ \<Rightarrow> [])
      [conflicting_blocks ! 0, conflicting_blocks ! 1, conflicting_blocks ! 2])"
    using all blocks by metis
  then show ?thesis using err a b c by (auto simp: single_error_def)
qed

section \<open>Nested match blocks\<close>

text \<open>The path pattern a clause is parsed under only shows in error reports.\<close>

lemma expand_ident_pat: "expand_ident fns pat ident rest = Inr r \<Longrightarrow> expand_ident fns pat' ident rest = Inr r"
  by (auto simp: expand_ident_def Let_def rbind_Inr_iff ok_or_def split: option.splits if_splits)

lemma expand_from_pat: "expand_from fns pat q s = Inr out \<Longrightarrow> expand_from fns pat' q s = Inr out"
proof (induction fns pat q s arbitrary: out rule: expand_from.induct)
  case (2 fns pat q c cs)
  show ?case
  proof (cases q)
    case (Some a)
    then show ?thesis using "2.prems" "2.IH"(4) [OF Some] by (auto simp: map_sum_Inr_iff)
  next
    case None
    consider "quote_char c" | "\<not> quote_char c" "is_word_start c" | "\<not> quote_char c" "\<not> is_word_start c" by blast
    then show ?thesis
    proof cases
      case 2
      then show ?thesis
        using None "2.prems" "2.IH"(2) [OF None] expand_ident_pat [of fns pat _ _ _ pat']
        by (force simp: map_sum_Inr_iff rbind_Inr_iff Let_def)
    qed (use None 2 in \<open>auto simp: map_sum_Inr_iff\<close>)
  qed
qed simp

lemma collect_results_map_mono:
  assumes "collect_results (map f xs) = Inr ys" and "\<And>x y. x \<in> set xs \<Longrightarrow> f x = Inr y \<Longrightarrow> g x = Inr y"
  shows "collect_results (map g xs) = Inr ys"
  using assms by (induction xs arbitrary: ys) (force simp: rbind_Inr_iff)+

lemma parse_verb_pat: "parse_verb v pat = Inr r \<Longrightarrow> parse_verb v pat' = Inr r"
  by (auto simp: parse_verb_def split: if_splits)

lemma parse_allow_clause_pat:
  assumes "parse_allow_clause clause pat fns = Inr r"
  shows "parse_allow_clause clause pat' fns = Inr r"
proof -
  obtain aa colon verbs ct ex where steps:
    "map_option trim_start (strip_keyword ''allow'' clause) = Some aa"
    "find_index (\<lambda>c. c = CHR '':'') aa = Some colon"
    "collect_results (map (\<lambda>v. parse_verb (trim v) pat) (split_char (CHR '','') (take colon aa))) = Inr verbs"
    "verbs \<noteq> []" "condition_after_if (drop (colon + 1) aa) = Some ct" "ct \<noteq> []"
    "expand_function_calls ct fns pat = Inr ex" "r = (verbs, ex)"
    using assms by (auto simp: parse_allow_clause_def rbind_Inr_iff ok_or_Inr_iff split: if_splits)
  have "collect_results (map (\<lambda>v. parse_verb (trim v) pat') (split_char (CHR '','') (take colon aa))) = Inr verbs"
    by (rule collect_results_map_mono [OF steps(3)]) (erule parse_verb_pat)
  moreover have "expand_function_calls ct fns pat' = Inr ex"
    using steps(7) unfolding expand_function_calls_def by (rule expand_from_pat)
  ultimately show ?thesis using steps by (auto simp: parse_allow_clause_def)
qed

lemma parse_allow_clauses_pat:
  assumes "parse_allow_clauses body pat fns = Inr r"
  shows "parse_allow_clauses body pat' fns = Inr r"
proof -
  define cls where "cls = filter (\<lambda>clause. clause \<noteq> []) (map trim (split_char (CHR '';'') body))"
  have r: "collect_results (map (\<lambda>c. parse_allow_clause c pat fns) cls) = Inr r" "r \<noteq> []"
    using assms by (auto simp: parse_allow_clauses_def rbind_Inr_iff cls_def split: if_splits)
  have "collect_results (map (\<lambda>c. parse_allow_clause c pat' fns) cls) = Inr r"
    by (rule collect_results_map_mono [OF r(1)]) (erule parse_allow_clause_pat)
  then show ?thesis using r(2) unfolding parse_allow_clauses_def cls_def [symmetric] by simp
qed

lemma expand_ident_nonempty: "expand_ident fns pat ident rest = Inl e \<Longrightarrow> offending_blocks e \<noteq> []"
  by (auto simp: expand_ident_def Let_def rbind_Inl_iff ok_or_Inl_iff split: option.splits if_splits)

lemma expand_from_nonempty: "expand_from fns pat q s = Inl e \<Longrightarrow> offending_blocks e \<noteq> []"
proof (induction fns pat q s rule: expand_from.induct)
  case (2 fns pat q c cs)
  show ?case
  proof (cases q)
    case (Some a)
    then show ?thesis using "2.prems" "2.IH"(4) [OF Some] by (auto simp: map_sum_Inl_iff)
  next
    case None
    consider "quote_char c" | "\<not> quote_char c" "is_word_start c" | "\<not> quote_char c" "\<not> is_word_start c" by blast
    then show ?thesis
    proof cases
      case 2
      then show ?thesis
        using None "2.prems" "2.IH"(2) [OF None] expand_ident_nonempty [of fns pat]
        by (force simp: map_sum_Inl_iff rbind_Inl_iff Let_def)
    qed (use None 2 in \<open>auto simp: map_sum_Inl_iff\<close>)
  qed
qed simp

lemma parse_allow_clause_nonempty:
  assumes "parse_allow_clause clause pat fns = Inl e"
  shows "offending_blocks e \<noteq> []"
proof -
  have "offending_blocks e \<noteq> []" if "collect_results (map (\<lambda>v. parse_verb (trim v) pat) vs) = Inl e" for vs
    using that by (induction vs) (auto simp: rbind_Inl_iff parse_verb_def split: if_splits)
  then show ?thesis
    using assms expand_from_nonempty
    by (auto simp: parse_allow_clause_def rbind_Inl_iff ok_or_Inl_iff expand_function_calls_def split: if_splits)
qed

lemma parse_allow_clauses_nonempty:
  assumes "parse_allow_clauses body pat fns = Inl e"
  shows "offending_blocks e \<noteq> []"
proof -
  have "offending_blocks e \<noteq> []" if "collect_results (map (\<lambda>c. parse_allow_clause c pat fns) cs) = Inl e" for cs
    using that by (induction cs) (auto simp: rbind_Inl_iff dest: parse_allow_clause_nonempty)
  then show ?thesis using assms by (auto simp: parse_allow_clauses_def rbind_Inl_iff split: if_splits)
qed

definition add_parent :: "string \<Rightarrow> path_segment list \<Rightarrow> match_block \<Rightarrow> match_block" where
  "add_parent p q b = b\<lparr>path_pattern := p @ path_pattern b, segments := q @ segments b\<rparr>"

text \<open>Two results that agree up to the parent path.\<close>

definition same_blocks ::
  "string \<Rightarrow> path_segment list \<Rightarrow> (rules_file_error, match_block list) result \<Rightarrow>
     (rules_file_error, match_block list) result \<Rightarrow> bool" where
  "same_blocks p q r r' \<longleftrightarrow>
     (case (r, r') of
        (Inr bs, Inr bs') \<Rightarrow> bs' = map (add_parent p q) bs
      | (Inl e, Inl e') \<Rightarrow> (offending_blocks e = []) = (offending_blocks e' = [])
      | _ \<Rightarrow> False)"

lemma parse_nested_parent:
  "(off = []) = (off' = []) \<Longrightarrow>
   same_blocks p q (parse_nested_match_blocks body ptext psegs fns blocks off)
     (parse_nested_match_blocks body (p @ ptext) (q @ psegs) fns (map (add_parent p q) blocks) off')"
  "same_blocks p q (parse_block_body bbody pat segs fns) (parse_block_body bbody (p @ pat) (q @ segs) fns)"
proof (induction body ptext psegs fns blocks off and bbody pat segs fns arbitrary: off' and
    rule: parse_nested_match_blocks_parse_block_body.induct)
  case (1 body ptext psegs fns blocks off)
  show ?case
  proof (cases "trim_start body = []")
    case True
    then show ?thesis
      using "1.prems" by (auto simp: parse_nested_match_blocks.simps [of body] finish_blocks_def same_blocks_def)
  next
    case False
    note unf = parse_nested_match_blocks.simps [of body]
    show ?thesis
    proof (cases "split_match_block (trim_start body)")
      case (Inl e)
      then show ?thesis using False by (simp add: unf same_blocks_def)
    next
      case (Inr x)
      obtain lp bb resume where x: "x = (lp, bb, resume)" by (metis prod_cases3)
      note IH = "1.IH" [OF False Inr x [symmetric] refl]
      show ?thesis
      proof (cases "parse_path_segments lp")
        case seg: (Inl e)
        then show ?thesis
          using IH(1) [OF seg, of "off' @ offending_blocks e"] False Inr x "1.prems" by (simp add: unf)
      next
        case seg: (Inr ls)
        show ?thesis
        proof (cases "parse_block_body bb (ptext @ lp) (psegs @ ls) fns")
          case body: (Inl e)
          then obtain e' where e': "parse_block_body bb (p @ ptext @ lp) (q @ psegs @ ls) fns = Inl e'"
              "(offending_blocks e = []) = (offending_blocks e' = [])"
            using IH(2) [OF seg] by (auto simp: same_blocks_def split: sum.splits)
          then show ?thesis
            using IH(3) [OF seg body, of "off' @ offending_blocks e'"] False Inr x seg body "1.prems"
            by (simp add: unf)
        next
          case body: (Inr nested)
          then have "parse_block_body bb (p @ ptext @ lp) (q @ psegs @ ls) fns = Inr (map (add_parent p q) nested)"
            using IH(2) [OF seg] by (auto simp: same_blocks_def split: sum.splits)
          then show ?thesis
            using IH(4) [OF seg body "1.prems"] False Inr x seg body by (simp add: unf)
        qed
      qed
    qed
  qed
next
  case (2 bbody pat segs fns)
  show ?case
  proof (cases "starts_with_nested_match bbody")
    case True
    then show ?thesis using "2.IH" [OF True, of "[]"] by (simp add: parse_block_body.simps)
  next
    case False
    show ?thesis
    proof (cases "parse_allow_clauses bbody pat fns")
      case (Inl e)
      obtain e' where e': "parse_allow_clauses bbody (p @ pat) fns = Inl e'"
        using Inl parse_allow_clauses_pat [of bbody "p @ pat" fns _ pat]
        by (cases "parse_allow_clauses bbody (p @ pat) fns") auto
      then show ?thesis
        using Inl False by (simp add: parse_block_body.simps same_blocks_def parse_allow_clauses_nonempty)
    next
      case (Inr cs)
      then show ?thesis
        using False parse_allow_clauses_pat [OF Inr, of "p @ pat"]
        by (simp add: parse_block_body.simps same_blocks_def add_parent_def)
    qed
  qed
qed

text \<open>
  Nesting is prefixing: parsing the body of a match block inside a parent block accepts exactly
  what it accepts on its own, and yields the same blocks with the parent's path text and segments in
  front. So a nested file means the same as the flat one with the paths written out.
\<close>

theorem nested_blocks_prefix:
  "parse_nested_match_blocks body p q fns [] [] = Inr blocks \<longleftrightarrow>
     (\<exists>bs. parse_nested_match_blocks body [] [] fns [] [] = Inr bs \<and> blocks = map (add_parent p q) bs)"
  using parse_nested_parent(1) [of "[]" "[]" p q body "[]" "[]" fns "[]"]
  by (auto simp: same_blocks_def split: sum.splits)

section \<open>Rewriting path variables\<close>

lemma rewrite_from_absent:
  "var \<noteq> [] \<Longrightarrow> \<not> contains_str var s \<Longrightarrow> rewrite_from var prev s = Some s"
proof (induction var prev s rule: rewrite_from.induct)
  case (2 var prev c cs)
  then show ?case by simp
qed simp

text \<open>
  The rewriting of a path variable works on the text: it is the identity where the name does not
  occur, but a field of that name is rewritten too, so that the stored rule asks for the field
  \<open>request.path.userId\<close> of the document instead of \<open>userId\<close>.
\<close>

theorem rewrite_hits_field_names:
  "(\<forall>c var. var \<noteq> [] \<longrightarrow> \<not> contains_str var c \<longrightarrow> rewrite_path_variable c var = Some c) \<and>
   rewrite_path_variable ''resource.data.userId == request.auth.uid'' ''userId'' =
     Some ''resource.data.request.path.userId == request.auth.uid'' \<and>
   parse_condition ''resource.data.request.path.userId == request.auth.uid'' =
     Inr (Compare (ResourceField ''request.path.userId'') Eq AuthUid)"
proof (intro conjI)
  show "rewrite_path_variable ''resource.data.userId == request.auth.uid'' ''userId'' =
     Some ''resource.data.request.path.userId == request.auth.uid''" by code_simp
  show "parse_condition ''resource.data.request.path.userId == request.auth.uid'' =
     Inr (Compare (ResourceField ''request.path.userId'') Eq AuthUid)" by code_simp
qed (simp add: rewrite_path_variable_def rewrite_from_absent)

theorem rewrite_hits_field_names_witness:
  "rewrite_path_variable ''true'' ''userId'' = Some ''true''"
  using rewrite_hits_field_names by simp

end
