(* ===== verification/Rule_Routing.thy ===== *)
theory Rule_Routing
  imports Rules_Db Rules_Import Resource_Names
begin

text \<open>
  Storing imported rules and routing requests to them: \<open>check_pattern_overlap\<close> and \<open>import_rules_file\<close> of
  \<open>embyr-server/src/admin/handlers/access_rules.rs\<close>, and \<open>resolve_access_rule_pattern\<close> of
  \<open>grpc/handler.rs\<close>. The import keeps the stored patterns unambiguous, and on unambiguous patterns the
  router finds the one rule that a request path belongs to.
\<close>

section \<open>Routing\<close>

fun match_candidates ::
  "path_segment list \<Rightarrow> pattern_row list \<Rightarrow> (pattern_row \<times> string btree_map) option \<Rightarrow>
     (status, (pattern_row \<times> string btree_map) option) result" where
  "match_candidates conc [] matched = Inr matched"
| "match_candidates conc (r # rs) matched =
     (case parse_path_segments (row_pattern r) of
        Inl e \<Rightarrow> Inl (Status CInternal ''stored pattern failed to re-parse: '')
      | Inr pat \<Rightarrow>
          (case bind_ancestor pat conc of
             None \<Rightarrow> match_candidates conc rs matched
           | Some bindings \<Rightarrow>
               if matched \<noteq> None then Inl (Status CPermissionDenied ''access denied: routing invariant violated'')
               else match_candidates conc rs (Some (r, bindings))))"

definition recursive_prefix_of :: "string \<Rightarrow> (rules_file_error, path_segment list) result" where
  "recursive_prefix_of pat = (if pat = [] then Inr [] else parse_path_segments pat)"

fun best_recursive ::
  "path_segment list \<Rightarrow> pattern_row list \<Rightarrow> (pattern_row \<times> string btree_map \<times> nat) option \<Rightarrow>
     (status, (pattern_row \<times> string btree_map \<times> nat) option) result" where
  "best_recursive full [] best = Inr best"
| "best_recursive full (r # rs) best =
     (case recursive_prefix_of (row_pattern r) of
        Inl e \<Rightarrow> Inl (Status CInternal ''stored recursive pattern failed to re-parse: '')
      | Inr prefix \<Rightarrow>
          (case bind_recursive_prefix prefix full of
             None \<Rightarrow> best_recursive full rs best
           | Some (bindings, _) \<Rightarrow>
               (case best of
                  None \<Rightarrow> best_recursive full rs (Some (r, bindings, length prefix))
                | Some (_, _, best_len) \<Rightarrow>
                    if length prefix < best_len then best_recursive full rs best
                    else if best_len = length prefix then
                      Inl (Status CPermissionDenied ''access denied: routing invariant violated'')
                    else best_recursive full rs (Some (r, bindings, length prefix)))))"

definition resolve_access_rule_pattern ::
  "string \<Rightarrow> string \<Rightarrow> string option \<Rightarrow> rules_db \<Rightarrow> (status, (pattern_row \<times> string btree_map) option) result" where
  "resolve_access_rule_pattern pid cpath did db =
     (case parse_path_segments cpath of
        Inl e \<Rightarrow> Inl (Status CInternal ''failed to parse the request's own ancestor path: '')
      | Inr conc \<Rightarrow>
          rbind (match_candidates conc
              (list_access_rule_patterns_by_skeleton pid (word_of_nat (length conc)) (literal_skeleton conc) db) None)
            (\<lambda>matched.
              if matched \<noteq> None then Inr matched
              else case did of
                None \<Rightarrow> Inr None
              | Some d \<Rightarrow>
                  let full = conc @ [Literal d] in
                  map_sum id (map_option (\<lambda>(r, b, _). (r, b)))
                    (best_recursive full
                       (list_recursive_access_rule_patterns_up_to pid (word_of_nat (length full)) db) None)))"

section \<open>Import\<close>

definition overlap_offending_block :: "string \<Rightarrow> string \<Rightarrow> offending_block" where
  "overlap_offending_block pat other =
     \<lparr>offending_path_pattern = pat, offending_construct = ''PATTERN_OVERLAP'',
      offending_detail = ''structurally overlaps pattern '' @ [squote] @ other @ [squote]\<rparr>"

definition overlap_rejection :: "string \<Rightarrow> string \<Rightarrow> rules_file_error" where
  "overlap_rejection a b =
     \<lparr>offending_blocks = [overlap_offending_block a b, overlap_offending_block b a], partial_blocks = []\<rparr>"

text \<open>The nested loops: the first pair of a list, and of two lists, that satisfies a test. The tests parse
  stored patterns with \<open>expect\<close>; a panic is \<^const>\<open>None\<close>.\<close>

fun find_row :: "('a \<Rightarrow> bool option) \<Rightarrow> 'a list \<Rightarrow> 'a option option" where
  "find_row P [] = Some None"
| "find_row P (x # xs) =
     (case P x of None \<Rightarrow> None | Some True \<Rightarrow> Some (Some x) | Some False \<Rightarrow> find_row P xs)"

fun first_pair :: "('a \<Rightarrow> 'a \<Rightarrow> bool) \<Rightarrow> 'a list \<Rightarrow> ('a \<times> 'a) option" where
  "first_pair P [] = None"
| "first_pair P (x # xs) =
     (case find (P x) xs of Some y \<Rightarrow> Some (x, y) | None \<Rightarrow> first_pair P xs)"

fun first_cross :: "('a \<Rightarrow> 'b \<Rightarrow> bool) \<Rightarrow> 'a list \<Rightarrow> 'b list \<Rightarrow> ('a \<times> 'b) option" where
  "first_cross P [] ys = None"
| "first_cross P (x # xs) ys =
     (case find (P x) ys of Some y \<Rightarrow> Some (x, y) | None \<Rightarrow> first_cross P xs ys)"

fun first_stored :: "('a \<Rightarrow> 'b \<Rightarrow> bool option) \<Rightarrow> ('a \<Rightarrow> 'b list) \<Rightarrow> 'a list \<Rightarrow> ('a \<times> 'b) option option" where
  "first_stored P rows [] = Some None"
| "first_stored P rows (x # xs) =
     (case find_row (P x) (rows x) of
        None \<Rightarrow> None
      | Some (Some r) \<Rightarrow> Some (Some (x, r))
      | Some None \<Rightarrow> first_stored P rows xs)"

definition ok_segments :: "('e, path_segment list) result \<Rightarrow> path_segment list option" where
  "ok_segments r = (case r of Inr segs \<Rightarrow> Some segs | Inl _ \<Rightarrow> None)"

definition multi_patterns :: "decomposed_target list \<Rightarrow> decomposed_pattern_rule list" where
  "multi_patterns ts = List.map_filter (\<lambda>t. case t of MultiSegmentPattern p \<Rightarrow> Some p | _ \<Rightarrow> None) ts"

definition recursive_patterns :: "decomposed_target list \<Rightarrow> decomposed_recursive_pattern list" where
  "recursive_patterns ts = List.map_filter (\<lambda>t. case t of RecursiveWildcardPattern p \<Rightarrow> Some p | _ \<Rightarrow> None) ts"

definition ambiguous :: "path_segment list \<Rightarrow> path_segment list \<Rightarrow> bool" where
  "ambiguous a b \<longleftrightarrow> classify_prefix_relation a b = AmbiguousOverlap"

definition stored_reach :: "pattern_row \<Rightarrow> path_segment list option" where
  "stored_reach r =
     (if row_is_recursive r then ok_segments (recursive_prefix_of (row_pattern r))
      else map_option fixed_depth_full_reach (ok_segments (parse_path_segments (row_pattern r))))"

definition or_else :: "'e option option \<Rightarrow> 'e option option \<Rightarrow> 'e option option" where
  "or_else a b = (case a of Some None \<Rightarrow> b | _ \<Rightarrow> a)"

definition check_pattern_overlap ::
  "string \<Rightarrow> decomposed_target list \<Rightarrow> rules_db \<Rightarrow> rules_file_error option option" where
  "check_pattern_overlap pid decomposed db =
     (let ps = multi_patterns decomposed; rs = recursive_patterns decomposed in
      if ps = [] \<and> rs = [] then Some None
      else
        Option.bind (those (map (\<lambda>p. map_option (Pair p) (ok_segments (parse_path_segments (collection_path_pattern p)))) ps)) (\<lambda>pas.
        Option.bind (those (map (\<lambda>r. map_option (Pair r) (ok_segments (recursive_prefix_of (fixed_prefix_pattern r)))) rs)) (\<lambda>rps.
          or_else (Some (map_option (\<lambda>(x, y). overlap_rejection (collection_path_pattern (fst x)) (collection_path_pattern (fst y)))
            (first_pair (\<lambda>x y. structurally_overlap (snd x) (snd y)) pas)))
          (or_else (Some (map_option (\<lambda>(x, y). overlap_rejection (fixed_prefix_pattern (fst x)) (fixed_prefix_pattern (fst y)))
            (first_pair (\<lambda>x y. ambiguous (snd x) (snd y)) rps)))
          (or_else (Some (map_option (\<lambda>(x, y). overlap_rejection (fixed_prefix_pattern (fst x)) (collection_path_pattern (fst y)))
            (first_cross (\<lambda>x y. ambiguous (snd x) (fixed_depth_full_reach (snd y))) rps pas)))
          (or_else (map_option (map_option (\<lambda>(x, r). overlap_rejection (collection_path_pattern (fst x)) (row_pattern r)))
            (first_stored (\<lambda>x r. if row_pattern r = collection_path_pattern (fst x) then Some False
                else map_option (structurally_overlap (snd x)) (ok_segments (parse_path_segments (row_pattern r))))
              (\<lambda>x. list_access_rule_patterns_by_skeleton pid (ancestor_segment_count (fst x)) (pattern_literal_skeleton (fst x)) db) pas))
          (or_else (map_option (map_option (\<lambda>(x, r). overlap_rejection (fixed_prefix_pattern (fst x)) (row_pattern r)))
            (first_stored (\<lambda>x r. if row_is_recursive r \<and> row_pattern r = fixed_prefix_pattern (fst x) then Some False
                else map_option (ambiguous (snd x)) (stored_reach r))
              (\<lambda>_. list_all_access_rule_patterns pid db) rps))
          (map_option (map_option (\<lambda>(x, r). overlap_rejection (collection_path_pattern (fst x)) (row_pattern r)))
            (first_stored (\<lambda>x r. if \<not> row_is_recursive r then Some False
                else map_option (ambiguous (fixed_depth_full_reach (snd x))) (ok_segments (recursive_prefix_of (row_pattern r))))
              (\<lambda>_. list_all_access_rule_patterns pid db) pas)))))))))"

fun store_target :: "string \<Rightarrow> string \<Rightarrow> decomposed_target \<Rightarrow> rules_db \<Rightarrow> rules_db" where
  "store_target pid actor (SingleCollection rule) db =
     (let cp = rule_collection_path rule;
          db1 = (case rule_read_condition rule of
             Some c \<Rightarrow> if get_access_rule pid cp db = Some c then db else upsert_access_rule pid cp c actor db
           | None \<Rightarrow> db)
      in case rule_write_condition rule of
           Some c \<Rightarrow> if get_write_access_rule pid cp db1 = Some c then db1 else upsert_write_access_rule pid cp c actor db1
         | None \<Rightarrow> db1)"
| "store_target pid actor (MultiSegmentPattern p) db =
     (if (case get_access_rule_pattern pid (collection_path_pattern p) db of
            Some r \<Rightarrow> row_leaf_variable r = leaf_variable p \<and> row_read_condition r = pattern_read_condition p \<and>
              row_write_condition r = pattern_write_condition p
          | None \<Rightarrow> False)
      then db
      else upsert_access_rule_pattern
        \<lparr>row_project = pid, row_pattern = collection_path_pattern p, row_segment_count = ancestor_segment_count p,
         row_skeleton = pattern_literal_skeleton p, row_leaf_variable = leaf_variable p,
         row_read_condition = pattern_read_condition p, row_write_condition = pattern_write_condition p,
         row_is_recursive = False\<rparr> actor db)"
| "store_target pid actor (RecursiveWildcardPattern p) db =
     (if (case get_access_rule_pattern pid (fixed_prefix_pattern p) db of
            Some r \<Rightarrow> row_read_condition r = recursive_read_condition p \<and> row_write_condition r = recursive_write_condition p
          | None \<Rightarrow> False)
      then db
      else upsert_access_rule_pattern
        \<lparr>row_project = pid, row_pattern = fixed_prefix_pattern p, row_segment_count = fixed_prefix_segment_count p,
         row_skeleton = literal_skeleton_prefix p, row_leaf_variable = None,
         row_read_condition = recursive_read_condition p, row_write_condition = recursive_write_condition p,
         row_is_recursive = True\<rparr> actor db)"

datatype import_result = Forbidden | NoSuchProject | Imported "decomposed_target list" | ImportRejected "offending_block list"

text \<open>The handler, after the session's role and the project's owner have been looked up; \<^const>\<open>None\<close> is a
  panic.\<close>

definition import_rules_file ::
  "bool \<Rightarrow> bool \<Rightarrow> string \<Rightarrow> string \<Rightarrow> string \<Rightarrow> rules_db \<Rightarrow> (import_result \<times> rules_db) option" where
  "import_rules_file is_admin owns pid actor source db =
     (if \<not> is_admin then Some (Forbidden, db)
      else if \<not> owns then Some (NoSuchProject, db)
      else case (case parse_rules_file source of
             Inr blocks \<Rightarrow> Inr (blocks, [])
           | Inl e \<Rightarrow> if partial_blocks e \<noteq> [] then Inr (partial_blocks e, offending_blocks e) else Inl e) of
        Inl e \<Rightarrow> Some (ImportRejected (offending_blocks e), db)
      | Inr (blocks, offending) \<Rightarrow>
          Option.bind (decompose blocks) (\<lambda>d.
            case d of
              Inl e \<Rightarrow> Some (ImportRejected (offending @ offending_blocks e), db)
            | Inr targets \<Rightarrow>
                if offending \<noteq> [] then Some (ImportRejected offending, db)
                else Option.bind (check_pattern_overlap pid targets db) (\<lambda>rej.
                  case rej of
                    Some e \<Rightarrow> Some (ImportRejected (offending_blocks e), db)
                  | None \<Rightarrow> Some (Imported targets, fold (store_target pid actor) targets db))))"

end
