(* ===== verification/Document_Requests.thy ===== *)
theory Document_Requests
  imports Rule_Routing Proto_Values Transactions Evaluation
begin

text \<open>
  The document handlers of \<open>embyr-server/src/grpc/handler.rs\<close>: how a request is read, which access rule
  governs it, what the rule is evaluated on, and which operation of the storage adapter runs when the rule
  allows it. Authentication, rate limiting and counters come before what is modelled here; the caller's
  verified identity is an argument, as are the clock readings and generated ids. The state is the project's
  database; the rules database is only read.
\<close>

section \<open>Evaluating a stored rule\<close>

fun fetch_cross_reads ::
  "store_env \<Rightarrow> string \<Rightarrow> database \<Rightarrow> string list \<Rightarrow> firestore_document option btree_map \<Rightarrow>
     (status, firestore_document option btree_map) result" where
  "fetch_cross_reads env pid db [] acc = Inr acc"
| "fetch_cross_reads env pid db (p # ps) acc =
     (case rsplit_once (CHR ''/'') p of
        None \<Rightarrow> fetch_cross_reads env pid db ps (bt_insert p None acc)
      | Some (cp, did) \<Rightarrow>
          rbind (map_sum core_error_to_status id
              (read_document env \<lparr>project_id = pid, collection_path = cp, document_id = did\<rparr> db)) (\<lambda>d.
            fetch_cross_reads env pid db ps (bt_insert p d acc)))"

definition fetch_cross_document_reads ::
  "store_env \<Rightarrow> string \<Rightarrow> database \<Rightarrow> string set \<Rightarrow> (status, firestore_document option btree_map) result" where
  "fetch_cross_document_reads env pid db paths = fetch_cross_reads env pid db (sorted_list_of_set paths) []"

text \<open>\<open>parse_condition\<close> of the stored source, \<open>evaluate\<close>, and the refusal on \<^const>\<open>Deny\<close>.\<close>

definition decide ::
  "string \<Rightarrow> string \<Rightarrow> string \<Rightarrow> (condition \<Rightarrow> (status, eval_context) result) \<Rightarrow> (status, unit) result" where
  "decide reparse denied source context =
     (case parse_condition source of
        Inl _ \<Rightarrow> Inl (Status CInternal reparse)
      | Inr c \<Rightarrow>
          rbind (context c) (\<lambda>ctx.
            if evaluate c ctx = Allow then Inr () else Inl (Status CPermissionDenied denied)))"

definition clock_field :: "date_time \<Rightarrow> field_value" where
  "clock_field t = FTimestamp (fst t) (snd t)"

definition stored_fields :: "firestore_document option \<Rightarrow> fields" where
  "stored_fields d = (case d of None \<Rightarrow> [] | Some x \<Rightarrow> doc_fields x)"

definition rule_context ::
  "auth_context option \<Rightarrow> fields \<Rightarrow> fields \<Rightarrow> string option \<Rightarrow> string btree_map \<Rightarrow> date_time option \<Rightarrow>
     firestore_document option btree_map \<Rightarrow> eval_context" where
  "rule_context au res req did anc t reads =
     \<lparr>auth = au, resource_fields = res, request_resource_fields = req, path_variable_value = did,
      ancestor_path_variable_values = anc, request_time = map_option clock_field t, cross_document_reads = reads\<rparr>"

text \<open>The context of a rule whose cross-document paths are discovered and read first.\<close>

definition reading_context ::
  "store_env \<Rightarrow> database \<Rightarrow> document_path \<Rightarrow> auth_context option \<Rightarrow> fields \<Rightarrow> fields \<Rightarrow> string btree_map \<Rightarrow> date_time \<Rightarrow>
     condition \<Rightarrow> (status, eval_context) result" where
  "reading_context env db p au res req anc t c =
     map_sum id (rule_context au res req (Some (document_id p)) anc (Some t))
       (fetch_cross_document_reads env (project_id p) db
          (discover_cross_document_paths c au (Some (document_id p)) anc))"

section \<open>GetDocument\<close>

text \<open>The rule that governs reads of a document: the rule of its collection, or else the read condition of the
  pattern that the router finds.\<close>

definition enforce_read_rule ::
  "store_env \<Rightarrow> rules_db \<Rightarrow> database \<Rightarrow> auth_context option \<Rightarrow> date_time \<Rightarrow> string \<Rightarrow> document_path \<Rightarrow>
     firestore_document option \<Rightarrow> (status, unit) result" where
  "enforce_read_rule env rdb db au t pid p doc =
     (case get_access_rule pid (collection_path p) rdb of
        Some source \<Rightarrow>
          decide ''stored access rule failed to re-parse: '' ''access denied by rule'' source
            (reading_context env db p au (stored_fields doc) [] [] t)
      | None \<Rightarrow>
          rbind (resolve_access_rule_pattern pid (collection_path p) (Some (document_id p)) rdb) (\<lambda>routed.
            case routed of
              None \<Rightarrow> Inr ()
            | Some (row, anc) \<Rightarrow>
                (case row_read_condition row of
                   None \<Rightarrow> Inr ()
                 | Some source \<Rightarrow>
                     decide ''stored access rule pattern failed to re-parse: '' ''access denied by rule'' source
                       (reading_context env db p au (stored_fields doc) [] anc t))))"

definition handle_get_document ::
  "store_env \<Rightarrow> rules_db \<Rightarrow> auth_context option \<Rightarrow> date_time \<Rightarrow> date_time \<Rightarrow> string \<Rightarrow> u8 list option \<Rightarrow> database \<Rightarrow>
     (status, proto_document) result \<times> database" where
  "handle_get_document env rdb au now t name txn db =
     (case rbind (extract_project_id name) (\<lambda>pid. map_sum id (Pair pid) (parse_document_path name)) of
        Inl e \<Rightarrow> (Inl e, db)
      | Inr (pid, p) \<Rightarrow>
          (case get_document env now p txn db of
             (Inl e, db') \<Rightarrow> (Inl (core_error_to_status e), db')
           | (Inr doc, db') \<Rightarrow>
               (rbind (enforce_read_rule env rdb db' au t pid p doc) (\<lambda>_.
                  ok_or (Status CNotFound (name @ '' not found'')) (map_option document_to_proto doc)), db')))"

section \<open>Writes of single documents\<close>

definition write_denied :: string where
  "write_denied = ''access denied by write rule''"

definition enforce_write_rule ::
  "rules_db \<Rightarrow> string \<Rightarrow> document_path \<Rightarrow> (condition \<Rightarrow> (status, eval_context) result) \<Rightarrow>
     (string btree_map \<Rightarrow> (status, eval_context) result) \<Rightarrow> (status, unit) result" where
  "enforce_write_rule rdb pid p exact pattern =
     (case get_write_access_rule pid (collection_path p) rdb of
        Some source \<Rightarrow> decide ''stored write rule failed to re-parse: '' write_denied source exact
      | None \<Rightarrow>
          rbind (resolve_access_rule_pattern pid (collection_path p) (Some (document_id p)) rdb) (\<lambda>routed.
            case routed of
              None \<Rightarrow> Inr ()
            | Some (row, anc) \<Rightarrow>
                (case row_write_condition row of
                   None \<Rightarrow> Inr ()
                 | Some source \<Rightarrow>
                     decide (''stored access rule pattern'' @ [squote] @ ''s write condition failed to re-parse: '') write_denied
                       source (\<lambda>_. pattern anc))))"

text \<open>\<open>get_document\<close> outside a transaction, as the handlers call it before a rule.\<close>

definition current_document :: "store_env \<Rightarrow> database \<Rightarrow> document_path \<Rightarrow> (status, firestore_document option) result" where
  "current_document env db p = map_sum core_error_to_status id (read_document env p db)"

definition build_document_response ::
  "document_path \<Rightarrow> fields \<Rightarrow> i64 \<times> i32 \<Rightarrow> i64 \<times> i32 \<Rightarrow> proto_document" where
  "build_document_response p fs ct ut =
     \<lparr>proto_name = document_name p, proto_fields = fields_to_proto fs, proto_create_time = Some ct, proto_update_time = Some ut\<rparr>"

definition write_response :: "document_path \<Rightarrow> fields \<Rightarrow> write_result \<Rightarrow> proto_document" where
  "write_response p fs w =
     build_document_response p fs
       (case wr_create_time w of Some c \<Rightarrow> c | None \<Rightarrow> wr_update_time w) (wr_update_time w)"

text \<open>An adapter call behind a check: nothing happens when the check fails.\<close>

definition guarded ::
  "(status, unit) result \<Rightarrow> ('a \<Rightarrow> 'b) \<Rightarrow> (core_error, 'a) result \<times> database \<Rightarrow> database \<Rightarrow> (status, 'b) result \<times> database" where
  "guarded check respond call db =
     (case check of
        Inl e \<Rightarrow> (Inl e, db)
      | Inr _ \<Rightarrow> (map_sum core_error_to_status respond (fst call), snd call))"

definition create_target ::
  "string \<Rightarrow> string \<Rightarrow> string \<Rightarrow> string \<Rightarrow> (string \<times> proto_value) list option \<Rightarrow> (status, string \<times> document_path \<times> fields) result" where
  "create_target fresh parent cid did document =
     rbind (extract_project_id parent) (\<lambda>pid.
     rbind (map_sum invalid_status id (project_id_new pid)) (\<lambda>p.
     rbind (case document of
              None \<Rightarrow> Inr []
            | Some fs \<Rightarrow> ok_or (Status CInvalidArgument ''invalid field value'') (proto_fields_to_domain fs)) (\<lambda>fs.
       Inr (pid, \<lparr>project_id = p, collection_path = cid, document_id = (if did = [] then fresh else did)\<rparr>, fs))))"

definition handle_create_document ::
  "store_env \<Rightarrow> rules_db \<Rightarrow> auth_context option \<Rightarrow> date_time \<Rightarrow> date_time \<Rightarrow> string \<Rightarrow> string \<Rightarrow> string \<Rightarrow> string \<Rightarrow>
     (string \<times> proto_value) list option \<Rightarrow> database \<Rightarrow> (status, proto_document) result \<times> database" where
  "handle_create_document env rdb au t now fresh parent cid did document db =
     (case create_target fresh parent cid did document of
        Inl e \<Rightarrow> (Inl e, db)
      | Inr (pid, p, fs) \<Rightarrow>
          guarded (enforce_write_rule rdb pid p
              (reading_context env db p au [] fs [] t)
              (\<lambda>anc. Inr (rule_context au [] fs (Some (document_id p)) anc (Some t) [])))
            (write_response p fs) (create_document env now p fs db) db)"

definition update_target :: "(string \<times> (string \<times> proto_value) list) option \<Rightarrow> (status, document_path \<times> fields) result" where
  "update_target document =
     rbind (ok_or (Status CInvalidArgument ''document is required'') document) (\<lambda>(name, fs).
     rbind (parse_document_path name) (\<lambda>p.
       map_sum id (Pair p) (ok_or (Status CInvalidArgument ''invalid field value'') (proto_fields_to_domain fs))))"

definition handle_update_document ::
  "store_env \<Rightarrow> rules_db \<Rightarrow> auth_context option \<Rightarrow> date_time \<Rightarrow> date_time \<Rightarrow> (string \<times> (string \<times> proto_value) list) option \<Rightarrow>
     proto_precondition option \<Rightarrow> database \<Rightarrow> (status, proto_document) result \<times> database" where
  "handle_update_document env rdb au t now document precondition db =
     (case update_target document of
        Inl e \<Rightarrow> (Inl e, db)
      | Inr (p, fs) \<Rightarrow>
          guarded (enforce_write_rule rdb (project_id p) p
              (\<lambda>c. rbind (current_document env db p) (\<lambda>doc. reading_context env db p au (stored_fields doc) fs [] t c))
              (\<lambda>anc. map_sum id (\<lambda>doc. rule_context au (stored_fields doc) fs (Some (document_id p)) anc (Some t) [])
                 (current_document env db p)))
            (write_response p fs) (update_document env now p fs (convert_precondition precondition) db) db)"

definition handle_delete_document ::
  "store_env \<Rightarrow> rules_db \<Rightarrow> auth_context option \<Rightarrow> date_time \<Rightarrow> string \<Rightarrow> proto_precondition option \<Rightarrow> database \<Rightarrow>
     (status, unit) result \<times> database" where
  "handle_delete_document env rdb au now name precondition db =
     (case parse_document_path name of
        Inl e \<Rightarrow> (Inl e, db)
      | Inr p \<Rightarrow>
          let context = (\<lambda>anc. map_sum id (\<lambda>doc. rule_context au (stored_fields doc) [] (Some (document_id p)) anc None [])
                 (current_document env db p))
          in guarded (enforce_write_rule rdb (project_id p) p (\<lambda>_. context []) context)
               id (delete_document env now p (convert_precondition precondition) db) db)"

section \<open>Commit, batch writes and transactions\<close>

datatype proto_operation =
    OUpdate string "(string \<times> proto_value) list"
  | ODelete string
  | OTransform string "(string \<times> transform_type) list"

record proto_write =
  pw_operation :: "proto_operation option"
  pw_current_document :: "proto_precondition option"
  pw_update_transforms :: "(string \<times> transform_type) list"

definition evaluate_write_rule_for_commit ::
  "store_env \<Rightarrow> rules_db \<Rightarrow> database \<Rightarrow> auth_context option \<Rightarrow> date_time \<Rightarrow> string \<Rightarrow> document_path \<Rightarrow> fields option \<Rightarrow>
     (status, unit) result" where
  "evaluate_write_rule_for_commit env rdb db au t pid p request =
     (case get_write_access_rule pid (collection_path p) rdb of
        None \<Rightarrow> Inr ()
      | Some source \<Rightarrow>
          decide ''stored write rule failed to re-parse: '' write_denied source (\<lambda>_.
            map_sum id (\<lambda>doc.
              let res = stored_fields doc in
              rule_context au res (case request of Some fs \<Rightarrow> fs | None \<Rightarrow> res) (Some (document_id p)) [] (Some t) [])
              (current_document env db p)))"

definition translate_one_write_for_commit ::
  "store_env \<Rightarrow> rules_db \<Rightarrow> database \<Rightarrow> auth_context option \<Rightarrow> date_time \<Rightarrow> string \<Rightarrow> proto_write \<Rightarrow>
     (status, db_write option) result" where
  "translate_one_write_for_commit env rdb db au t pid w =
     (let precondition = convert_precondition (pw_current_document w) in
      case pw_operation w of
        Some (OUpdate name fs) \<Rightarrow>
          rbind (parse_document_path name) (\<lambda>p.
          rbind (ok_or (Status CInvalidArgument ''invalid field value in write'') (proto_fields_to_domain fs)) (\<lambda>fields.
          rbind (translate_field_transforms (pw_update_transforms w)) (\<lambda>ts.
          rbind (evaluate_write_rule_for_commit env rdb db au t pid p (Some fields)) (\<lambda>_.
            Inr (Some (WUpdate p fields None precondition ts))))))
      | Some (ODelete name) \<Rightarrow>
          rbind (parse_document_path name) (\<lambda>p.
          rbind (evaluate_write_rule_for_commit env rdb db au t pid p (Some [])) (\<lambda>_.
            Inr (Some (WDelete p None precondition))))
      | Some (OTransform name fts) \<Rightarrow>
          rbind (parse_document_path name) (\<lambda>p.
          rbind (translate_field_transforms fts) (\<lambda>ts.
          rbind (evaluate_write_rule_for_commit env rdb db au t pid p None) (\<lambda>_.
            Inr (Some (WTransform p ts)))))
      | None \<Rightarrow> Inr None)"

text \<open>The times are the clock readings of the rule evaluations, one per write.\<close>

fun translate_writes_for_commit ::
  "store_env \<Rightarrow> rules_db \<Rightarrow> database \<Rightarrow> auth_context option \<Rightarrow> string \<Rightarrow> (date_time \<times> proto_write) list \<Rightarrow>
     (status, db_write list) result" where
  "translate_writes_for_commit env rdb db au pid [] = Inr []"
| "translate_writes_for_commit env rdb db au pid ((t, w) # ws) =
     rbind (translate_one_write_for_commit env rdb db au t pid w) (\<lambda>dw.
     rbind (translate_writes_for_commit env rdb db au pid ws) (\<lambda>dws.
       Inr (case dw of None \<Rightarrow> dws | Some x \<Rightarrow> x # dws)))"

definition translate_writes_catching ::
  "store_env \<Rightarrow> rules_db \<Rightarrow> database \<Rightarrow> auth_context option \<Rightarrow> string \<Rightarrow> (date_time \<times> proto_write) list \<Rightarrow>
     (status, db_write) result list" where
  "translate_writes_catching env rdb db au pid ws =
     map (\<lambda>(t, w). rbind (translate_one_write_for_commit env rdb db au t pid w)
       (ok_or (Status CInvalidArgument ''write has no operation set''))) ws"

record proto_write_result =
  pr_update_time :: "(i64 \<times> i32) option"
  pr_transform_results :: "proto_value list"

definition result_to_proto :: "write_result \<Rightarrow> proto_write_result" where
  "result_to_proto w =
     \<lparr>pr_update_time = Some (wr_update_time w), pr_transform_results = map field_value_to_proto (transform_results w)\<rparr>"

text \<open>\<open>handle_commit\<close> without the commit time of the response, which is one more reading of the clock;
  \<open>now\<close> and \<open>now'\<close> are those of \<open>commit_transaction\<close>.\<close>

definition handle_commit ::
  "store_env \<Rightarrow> rules_db \<Rightarrow> auth_context option \<Rightarrow> date_time \<Rightarrow> date_time \<Rightarrow> string \<Rightarrow> u8 list \<Rightarrow> (date_time \<times> proto_write) list \<Rightarrow>
     database \<Rightarrow> ((status, proto_write_result list) result \<times> database) option" where
  "handle_commit env rdb au now now' database tid ws db =
     (case rbind (extract_project_id database) (\<lambda>pid.
           rbind (map_sum invalid_status id (project_id_new pid)) (\<lambda>p.
             map_sum id (Pair p) (translate_writes_for_commit env rdb db au pid ws))) of
        Inl e \<Rightarrow> Some (Inl e, db)
      | Inr (p, dws) \<Rightarrow>
          map_option (\<lambda>(r, db'). (map_sum core_error_to_status (map result_to_proto) r, db'))
            (commit_transaction env now now' p tid dws db))"

text \<open>One write of a batch: its own transaction, with the generated id and the clock readings of
  \<open>begin_transaction\<close> and \<open>commit_transaction\<close>.\<close>

record batch_step =
  step_id :: "u8 list"
  step_begin :: date_time
  step_commit :: date_time
  step_apply :: date_time

definition failed_write :: "status \<Rightarrow> proto_write_result \<times> status option" where
  "failed_write st = (\<lparr>pr_update_time = None, pr_transform_results = []\<rparr>, Some st)"

definition batch_one ::
  "store_env \<Rightarrow> string \<Rightarrow> batch_step \<Rightarrow> (status, db_write) result \<Rightarrow> database \<Rightarrow>
     ((proto_write_result \<times> status option) \<times> database) option" where
  "batch_one env pid s translation db =
     (case translation of
        Inl st \<Rightarrow> Some (failed_write st, db)
      | Inr w \<Rightarrow>
          (case begin_transaction (step_begin s) (step_id s) pid db of
             (Inl e, db') \<Rightarrow> Some (failed_write (core_error_to_status e), db')
           | (Inr tid, db') \<Rightarrow>
               map_option (\<lambda>(r, db'').
                   (case r of
                      Inl e \<Rightarrow> failed_write (core_error_to_status e)
                    | Inr rs \<Rightarrow>
                        (result_to_proto (if rs = [] then \<lparr>wr_update_time = (0, 0), wr_create_time = None, transform_results = []\<rparr>
                           else last rs), None), db''))
                 (commit_transaction env (step_commit s) (step_apply s) pid tid [w] db')))"

fun batch_loop ::
  "store_env \<Rightarrow> string \<Rightarrow> (batch_step \<times> (status, db_write) result) list \<Rightarrow> database \<Rightarrow>
     ((proto_write_result \<times> status option) list \<times> database) option" where
  "batch_loop env pid [] db = Some ([], db)"
| "batch_loop env pid ((s, tr) # rest) db =
     Option.bind (batch_one env pid s tr db) (\<lambda>(r, db').
       map_option (\<lambda>(rs, db''). (r # rs, db'')) (batch_loop env pid rest db'))"

text \<open>A status that is \<^const>\<open>None\<close> is the status with code 0 and no message.\<close>

definition handle_batch_write ::
  "store_env \<Rightarrow> rules_db \<Rightarrow> auth_context option \<Rightarrow> string \<Rightarrow> (batch_step \<times> date_time \<times> proto_write) list \<Rightarrow> database \<Rightarrow>
     ((status, (proto_write_result \<times> status option) list) result \<times> database) option" where
  "handle_batch_write env rdb au database ws db =
     (case extract_project_id database of
        Inl e \<Rightarrow> Some (Inl e, db)
      | Inr pid \<Rightarrow>
          if ws = [] then Some (Inr [], db)
          else if 500 < length ws then Some (Inl (Status CInvalidArgument ''writes must not exceed 500 per call''), db)
          else (case map_sum invalid_status id (project_id_new pid) of
             Inl e \<Rightarrow> Some (Inl e, db)
           | Inr p \<Rightarrow>
               map_option (\<lambda>(rs, db'). (Inr rs, db'))
                 (batch_loop env p (zip (map fst ws) (translate_writes_catching env rdb db au pid (map snd ws))) db)))"

definition project_of :: "string \<Rightarrow> (status, string) result" where
  "project_of name = rbind (extract_project_id name) (\<lambda>pid. map_sum invalid_status id (project_id_new pid))"

definition handle_begin_transaction ::
  "date_time \<Rightarrow> u8 list \<Rightarrow> string \<Rightarrow> database \<Rightarrow> (status, u8 list) result \<times> database" where
  "handle_begin_transaction now u database db =
     (case project_of database of
        Inl e \<Rightarrow> (Inl e, db)
      | Inr p \<Rightarrow> map_prod (map_sum core_error_to_status id) id (begin_transaction now u p db))"

definition handle_rollback :: "string \<Rightarrow> u8 list \<Rightarrow> database \<Rightarrow> (status, unit) result \<times> database" where
  "handle_rollback database tid db =
     (case project_of database of
        Inl e \<Rightarrow> (Inl e, db)
      | Inr p \<Rightarrow> map_prod (map_sum core_error_to_status id) id (rollback_transaction p tid db))"

section \<open>BatchGetDocuments\<close>

datatype batch_item = BFound proto_document | BMissing string

definition batch_decision ::
  "rules_db \<Rightarrow> auth_context option \<Rightarrow> string \<Rightarrow> document_path \<Rightarrow> string \<Rightarrow> firestore_document option \<Rightarrow> (status, batch_item) result" where
  "batch_decision rdb au pid p name doc =
     (let item = (case doc of None \<Rightarrow> BMissing name | Some d \<Rightarrow> BFound (document_to_proto d)) in
      case get_access_rule pid (collection_path p) rdb of
        None \<Rightarrow> Inr item
      | Some source \<Rightarrow>
          (case parse_condition source of
             Inl _ \<Rightarrow> Inl (Status CInternal ''stored access rule failed to re-parse: '')
           | Inr c \<Rightarrow>
               if evaluate c (rule_context au (stored_fields doc) [] None [] None []) = Allow then Inr item
               else Inr (BMissing name)))"

fun batch_get_loop ::
  "store_env \<Rightarrow> rules_db \<Rightarrow> auth_context option \<Rightarrow> string \<Rightarrow> u8 list option \<Rightarrow> (date_time \<times> string) list \<Rightarrow> database \<Rightarrow>
     (status, batch_item list) result \<times> database" where
  "batch_get_loop env rdb au pid txn [] db = (Inr [], db)"
| "batch_get_loop env rdb au pid txn ((now, name) # rest) db =
     (case parse_document_path name of
        Inl e \<Rightarrow> (Inl e, db)
      | Inr p \<Rightarrow>
          (case get_document env now p txn db of
             (Inl e, db') \<Rightarrow> (Inl (core_error_to_status e), db')
           | (Inr doc, db') \<Rightarrow>
               (case batch_decision rdb au pid p name doc of
                  Inl e \<Rightarrow> (Inl e, db')
                | Inr item \<Rightarrow> map_prod (map_sum id (Cons item)) id (batch_get_loop env rdb au pid txn rest db'))))"

fun check_projects :: "string \<Rightarrow> string list \<Rightarrow> (status, unit) result" where
  "check_projects pid [] = Inr ()"
| "check_projects pid (name # names) =
     rbind (extract_project_id name) (\<lambda>q.
       if q \<noteq> pid then Inl (Status CInvalidArgument ''all documents must belong to the same project as database'')
       else check_projects pid names)"

text \<open>The rule cache of the handler holds what \<open>get_access_rule\<close> returns: the rules do not change while it runs.\<close>

definition handle_batch_get_documents ::
  "store_env \<Rightarrow> rules_db \<Rightarrow> auth_context option \<Rightarrow> string \<Rightarrow> u8 list option \<Rightarrow> (date_time \<times> string) list \<Rightarrow> database \<Rightarrow>
     (status, batch_item list) result \<times> database" where
  "handle_batch_get_documents env rdb au database txn names db =
     (case rbind (extract_project_id database) (\<lambda>pid.
           if names = [] then Inl (Status CInvalidArgument ''documents must not be empty'')
           else if 1000 < length names then Inl (Status CInvalidArgument ''documents must not exceed 1000 per call'')
           else map_sum id (\<lambda>_. pid) (check_projects pid (map snd names))) of
        Inl e \<Rightarrow> (Inl e, db)
      | Inr pid \<Rightarrow> batch_get_loop env rdb au pid txn names db)"

end
