(* ===== verification/Routing_Safety.thy ===== *)
theory Routing_Safety
  imports Rule_Routing
begin

text \<open>
  Unambiguous patterns. The invariant \<open>patterns_ok\<close> of the pattern table says that every stored text parses to
  a well-shaped pattern with the right index key and that no two patterns of a project clash. The import
  keeps it, and under it the router never fails and finds the pattern a path belongs to.
\<close>

section \<open>The invariant\<close>

definition row_parse :: "pattern_row \<Rightarrow> (rules_file_error, path_segment list) result" where
  "row_parse r = (if row_is_recursive r then recursive_prefix_of (row_pattern r) else parse_path_segments (row_pattern r))"

definition row_segs :: "pattern_row \<Rightarrow> path_segment list" where
  "row_segs r = (case row_parse r of Inr segs \<Rightarrow> segs | Inl _ \<Rightarrow> [])"

definition row_ok :: "pattern_row \<Rightarrow> bool" where
  "row_ok r \<longleftrightarrow> row_parse r = Inr (row_segs r) \<and> no_recursive (row_segs r) \<and> collections_literal 0 (row_segs r) \<and>
     row_segment_count r = word_of_nat (length (row_segs r)) \<and> row_skeleton r = literal_skeleton (row_segs r) \<and>
     row_is_recursive r = even (length (row_segs r))"

definition row_reach :: "pattern_row \<Rightarrow> path_segment list" where
  "row_reach r = (if row_is_recursive r then row_segs r else fixed_depth_full_reach (row_segs r))"

definition rows_clash :: "pattern_row \<Rightarrow> pattern_row \<Rightarrow> bool" where
  "rows_clash r r' \<longleftrightarrow>
     (if row_is_recursive r \<or> row_is_recursive r' then ambiguous (row_reach r) (row_reach r')
      else structurally_overlap (row_segs r) (row_segs r'))"

definition compatible_rows :: "pattern_row set \<Rightarrow> bool" where
  "compatible_rows R \<longleftrightarrow> (\<forall>r \<in> R. row_ok r) \<and>
     (\<forall>r \<in> R. \<forall>r' \<in> R. row_project r = row_project r' \<longrightarrow> row_pattern r \<noteq> row_pattern r' \<longrightarrow> \<not> rows_clash r r')"

definition patterns_ok :: "rules_db \<Rightarrow> bool" where
  "patterns_ok db \<longleftrightarrow> distinct (map row_key (access_rule_patterns db)) \<and> compatible_rows (set (access_rule_patterns db))"

lemma positions_compatible_sym: "positions_compatible a b = positions_compatible b a"
  by (cases a; cases b) auto

lemma all_compatible_sym:
  "list_all (\<lambda>(x, y). positions_compatible x y) (zip a b) = list_all (\<lambda>(x, y). positions_compatible x y) (zip b a)"
proof (induction a arbitrary: b)
  case (Cons x a)
  then show ?case by (cases b) (auto simp: positions_compatible_sym)
qed simp

lemma structurally_overlap_sym: "structurally_overlap a b = structurally_overlap b a"
  unfolding structurally_overlap_def using all_compatible_sym [of a b] by auto

lemma ambiguous_sym: "ambiguous a b = ambiguous b a"
proof -
  consider "length a < length b" | "length b < length a" | "length a = length b" by linarith
  then show ?thesis
  proof cases
    case 3
    then show ?thesis
      using structurally_overlap_sym [of a b] by (simp add: ambiguous_def classify_prefix_relation_def)
  qed (simp_all add: ambiguous_def classify_shorter)
qed

lemma rows_clash_sym: "rows_clash r r' = rows_clash r' r"
  using ambiguous_sym structurally_overlap_sym by (auto simp: rows_clash_def)

section \<open>Loops without a result\<close>

lemma find_row_none: "find_row P xs = Some None \<Longrightarrow> x \<in> set xs \<Longrightarrow> P x = Some False"
  by (induction xs) (auto split: option.splits bool.splits)

lemma first_pair_none:
  assumes "first_pair P xs = None" and "\<And>x y. P x y = P y x" and "x \<in> set xs" "y \<in> set xs" "x \<noteq> y"
  shows "\<not> P x y"
  using assms(1,3-) assms(2) by (induction xs) (auto simp: find_None_iff split: option.splits)

lemma first_cross_none: "first_cross P xs ys = None \<Longrightarrow> x \<in> set xs \<Longrightarrow> y \<in> set ys \<Longrightarrow> \<not> P x y"
  by (induction xs) (auto simp: find_None_iff split: option.splits)

lemma first_stored_none:
  "first_stored P rows xs = Some None \<Longrightarrow> x \<in> set xs \<Longrightarrow> r \<in> set (rows x) \<Longrightarrow> P x r = Some False"
  by (induction xs) (auto split: option.splits dest: find_row_none)

lemma or_else_none [simp]: "or_else a b = Some None \<longleftrightarrow> a = Some None \<and> b = Some None"
  by (simp add: or_else_def split: option.splits)

lemma ok_segments_Some [simp]: "ok_segments r = Some s \<longleftrightarrow> r = Inr s"
  by (simp add: ok_segments_def split: sum.splits)

section \<open>Import\<close>

fun target_row :: "string \<Rightarrow> decomposed_target \<Rightarrow> pattern_row option" where
  "target_row pid (SingleCollection r) = None"
| "target_row pid (MultiSegmentPattern p) = Some
     \<lparr>row_project = pid, row_pattern = collection_path_pattern p, row_segment_count = ancestor_segment_count p,
      row_skeleton = pattern_literal_skeleton p, row_leaf_variable = leaf_variable p,
      row_read_condition = pattern_read_condition p, row_write_condition = pattern_write_condition p,
      row_is_recursive = False\<rparr>"
| "target_row pid (RecursiveWildcardPattern p) = Some
     \<lparr>row_project = pid, row_pattern = fixed_prefix_pattern p, row_segment_count = fixed_prefix_segment_count p,
      row_skeleton = literal_skeleton_prefix p, row_leaf_variable = None,
      row_read_condition = recursive_read_condition p, row_write_condition = recursive_write_condition p,
      row_is_recursive = True\<rparr>"

lemma collections_literal_snoc:
  "collections_literal i (xs @ [seg]) \<longleftrightarrow> collections_literal i xs \<and> (even (i + length xs) \<longrightarrow> (\<exists>s. seg = Literal s))"
  by (induction xs arbitrary: i) (simp_all, blast)

lemma parse_empty: "parse_path_segments [] = Inr s \<longleftrightarrow> False"
  by (simp add: parse_path_segments_def)

lemma target_row_ok:
  assumes "block_ok b" and "decompose_block b = Some (Inr t)" and "target_row pid t = Some r"
  shows "row_ok r"
proof -
  have v: "validate_segment_shape (segments b) (path_pattern b) = Inr ()"
    using assms(2) by (auto simp: decompose_block_def pbind_Inr_iff)
  have sp: "stored_pattern b t" using decompose_block_stored [OF assms(1,2)] by simp
  show ?thesis
  proof (cases t)
    case (MultiSegmentPattern p)
    then obtain anc leaf where a: "segments b = anc @ leaf" "odd (length anc)" "length leaf \<le> 1"
      "parse_path_segments (collection_path_pattern p) = Inr anc" "collections_literal 0 anc"
      "pattern_literal_skeleton p = literal_skeleton anc" "ancestor_segment_count p = word_of_nat (length anc)"
      using sp by auto
    have "no_recursive anc"
      using v a(1,2,3,5) unfolding shape_iff no_recursive_def
      by (cases leaf) (auto simp: append_eq_append_conv2 Cons_eq_append_conv collections_literal_snoc)
    then show ?thesis
      using a assms(3) MultiSegmentPattern by (auto simp: row_ok_def row_segs_def row_parse_def)
  next
    case (RecursiveWildcardPattern p)
    then obtain pre where a: "segments b = pre @ [RecursiveWildcard]" "even (length pre)"
      "recursive_prefix_of (fixed_prefix_pattern p) = Inr pre" "collections_literal 0 pre"
      "literal_skeleton_prefix p = literal_skeleton pre" "fixed_prefix_segment_count p = word_of_nat (length pre)"
      using sp RecursiveWildcardPattern by (fastforce simp: recursive_prefix_of_def parse_empty split: if_splits)
    have "no_recursive pre"
      using v a(1) unfolding shape_iff by (auto simp: no_recursive_def)
    then show ?thesis
      using a assms(3) RecursiveWildcardPattern by (auto simp: row_ok_def row_segs_def row_parse_def)
  qed (use assms(3) in simp)
qed

section \<open>The import keeps the patterns unambiguous\<close>

lemma store_target_rows:
  assumes "distinct (map row_key (access_rule_patterns db))"
  shows "distinct (map row_key (access_rule_patterns (store_target pid actor t db))) \<and>
    set (access_rule_patterns (store_target pid actor t db)) \<subseteq>
      set (access_rule_patterns db) \<union> set_option (target_row pid t)"
proof (cases t)
  case (SingleCollection r)
  then show ?thesis
    using assms by (auto simp: Let_def upsert_access_rule_def upsert_write_access_rule_def split: option.splits)
qed (use assms in \<open>auto simp: upsert_access_rule_pattern_def distinct_put_pattern dest!: set_put_pattern\<close>)

lemma fold_store_rows:
  assumes "distinct (map row_key (access_rule_patterns db))"
  shows "distinct (map row_key (access_rule_patterns (fold (store_target pid actor) ts db))) \<and>
    set (access_rule_patterns (fold (store_target pid actor) ts db)) \<subseteq>
      set (access_rule_patterns db) \<union> (\<Union>t \<in> set ts. set_option (target_row pid t))"
  using assms
proof (induction ts arbitrary: db)
  case (Cons t ts)
  then show ?case
    using store_target_rows [OF Cons.prems, of pid actor t] Cons.IH [of "store_target pid actor t db"] by auto
qed simp

lemma overlap_same_key:
  assumes "structurally_overlap a b" and "no_recursive b" and "collections_literal 0 a" and "collections_literal 0 b"
  shows "length a = length b \<and> literal_skeleton a = literal_skeleton b"
proof -
  have len: "length a = length b" using assms(1) by (simp add: structurally_overlap_def)
  obtain ss where "instance_of b ss" "instance_of a (take (length a) ss)"
    using common_instance_iff [of a b] assms(1,2) len by (auto simp: structurally_overlap_def)
  moreover from this have "take (length a) ss = ss"
    using len by (simp add: instance_of_def list_all2_lengthD)
  ultimately show ?thesis
    using len even_literals_instance [of a ss 0] even_literals_instance [of b ss 0] assms(3,4)
    by (simp add: literal_skeleton_def)
qed

lemma those_map_pair:
  "those (map (\<lambda>p. map_option (Pair p) (f p)) ps) = Some qs \<Longrightarrow> p \<in> set ps \<Longrightarrow> \<exists>s. f p = Some s \<and> (p, s) \<in> set qs"
  by (induction ps arbitrary: qs) (auto split: option.splits)

lemma multi_patterns_mem: "p \<in> set (multi_patterns ts) \<longleftrightarrow> MultiSegmentPattern p \<in> set ts"
  by (induction ts) (auto simp: multi_patterns_def List.map_filter_simps split: decomposed_target.splits)

lemma recursive_patterns_mem: "p \<in> set (recursive_patterns ts) \<longleftrightarrow> RecursiveWildcardPattern p \<in> set ts"
  by (induction ts) (auto simp: recursive_patterns_def List.map_filter_simps split: decomposed_target.splits)

text \<open>What an accepted check says about the new rows.\<close>

lemma checked_patterns:
  assumes "check_pattern_overlap pid ts db = Some None"
  obtains pas rps where
    "\<And>p. MultiSegmentPattern p \<in> set ts \<Longrightarrow> \<exists>s. parse_path_segments (collection_path_pattern p) = Inr s \<and> (p, s) \<in> set pas"
    "\<And>p. RecursiveWildcardPattern p \<in> set ts \<Longrightarrow> \<exists>s. recursive_prefix_of (fixed_prefix_pattern p) = Inr s \<and> (p, s) \<in> set rps"
    "\<And>x y. x \<in> set pas \<Longrightarrow> y \<in> set pas \<Longrightarrow> x \<noteq> y \<Longrightarrow> \<not> structurally_overlap (snd x) (snd y)"
    "\<And>x y. x \<in> set rps \<Longrightarrow> y \<in> set rps \<Longrightarrow> x \<noteq> y \<Longrightarrow> \<not> ambiguous (snd x) (snd y)"
    "\<And>x y. x \<in> set rps \<Longrightarrow> y \<in> set pas \<Longrightarrow> \<not> ambiguous (snd x) (fixed_depth_full_reach (snd y))"
    "\<And>x r. x \<in> set pas \<Longrightarrow>
       r \<in> set (list_access_rule_patterns_by_skeleton pid (ancestor_segment_count (fst x)) (pattern_literal_skeleton (fst x)) db) \<Longrightarrow>
       row_pattern r \<noteq> collection_path_pattern (fst x) \<Longrightarrow>
       \<exists>s. parse_path_segments (row_pattern r) = Inr s \<and> \<not> structurally_overlap (snd x) s"
    "\<And>x r. x \<in> set rps \<Longrightarrow> r \<in> set (list_all_access_rule_patterns pid db) \<Longrightarrow>
       \<not> (row_is_recursive r \<and> row_pattern r = fixed_prefix_pattern (fst x)) \<Longrightarrow>
       \<exists>s. stored_reach r = Some s \<and> \<not> ambiguous (snd x) s"
    "\<And>x r. x \<in> set pas \<Longrightarrow> r \<in> set (list_all_access_rule_patterns pid db) \<Longrightarrow> row_is_recursive r \<Longrightarrow>
       \<exists>s. recursive_prefix_of (row_pattern r) = Inr s \<and> \<not> ambiguous (fixed_depth_full_reach (snd x)) s"
proof (cases "multi_patterns ts = [] \<and> recursive_patterns ts = []")
  case True
  then have "MultiSegmentPattern p \<notin> set ts" "RecursiveWildcardPattern q \<notin> set ts" for p q
    using multi_patterns_mem [of p ts] recursive_patterns_mem [of q ts] by auto
  then show ?thesis using that [of "[]" "[]"] by simp
next
  case False
  let ?mp = "\<lambda>p. ok_segments (parse_path_segments (collection_path_pattern p))"
  let ?rp = "\<lambda>p. ok_segments (recursive_prefix_of (fixed_prefix_pattern p))"
  obtain pas rps where
    pas: "those (map (\<lambda>p. map_option (Pair p) (?mp p)) (multi_patterns ts)) = Some pas" and
    rps: "those (map (\<lambda>p. map_option (Pair p) (?rp p)) (recursive_patterns ts)) = Some rps" and
    loops: "first_pair (\<lambda>x y. structurally_overlap (snd x) (snd y)) pas = None"
      "first_pair (\<lambda>x y. ambiguous (snd x) (snd y)) rps = None"
      "first_cross (\<lambda>x y. ambiguous (snd x) (fixed_depth_full_reach (snd y))) rps pas = None"
      "first_stored (\<lambda>x r. if row_pattern r = collection_path_pattern (fst x) then Some False
         else map_option (structurally_overlap (snd x)) (ok_segments (parse_path_segments (row_pattern r))))
       (\<lambda>x. list_access_rule_patterns_by_skeleton pid (ancestor_segment_count (fst x)) (pattern_literal_skeleton (fst x)) db) pas = Some None"
      "first_stored (\<lambda>x r. if row_is_recursive r \<and> row_pattern r = fixed_prefix_pattern (fst x) then Some False
         else map_option (ambiguous (snd x)) (stored_reach r)) (\<lambda>_. list_all_access_rule_patterns pid db) rps = Some None"
      "first_stored (\<lambda>x r. if \<not> row_is_recursive r then Some False
         else map_option (ambiguous (fixed_depth_full_reach (snd x))) (ok_segments (recursive_prefix_of (row_pattern r))))
       (\<lambda>_. list_all_access_rule_patterns pid db) pas = Some None"
    using assms False
    by (auto simp: check_pattern_overlap_def Let_def Option.bind_eq_Some_conv)
  show ?thesis
  proof (rule that)
    fix p
    show "MultiSegmentPattern p \<in> set ts \<Longrightarrow> \<exists>s. parse_path_segments (collection_path_pattern p) = Inr s \<and> (p, s) \<in> set pas"
      using those_map_pair [OF pas, of p] by (simp add: multi_patterns_mem)
  next
    fix p
    show "RecursiveWildcardPattern p \<in> set ts \<Longrightarrow> \<exists>s. recursive_prefix_of (fixed_prefix_pattern p) = Inr s \<and> (p, s) \<in> set rps"
      using those_map_pair [OF rps, of p] by (simp add: recursive_patterns_mem)
  next
    fix x y
    show "x \<in> set pas \<Longrightarrow> y \<in> set pas \<Longrightarrow> x \<noteq> y \<Longrightarrow> \<not> structurally_overlap (snd x) (snd y)"
      using first_pair_none [OF loops(1)] structurally_overlap_sym by blast
  next
    fix x y
    show "x \<in> set rps \<Longrightarrow> y \<in> set rps \<Longrightarrow> x \<noteq> y \<Longrightarrow> \<not> ambiguous (snd x) (snd y)"
      using first_pair_none [OF loops(2)] ambiguous_sym by blast
  next
    fix x y
    show "x \<in> set rps \<Longrightarrow> y \<in> set pas \<Longrightarrow> \<not> ambiguous (snd x) (fixed_depth_full_reach (snd y))"
      by (rule first_cross_none [OF loops(3)])
  next
    fix x r
    assume "x \<in> set pas" "row_pattern r \<noteq> collection_path_pattern (fst x)"
      "r \<in> set (list_access_rule_patterns_by_skeleton pid (ancestor_segment_count (fst x)) (pattern_literal_skeleton (fst x)) db)"
    then show "\<exists>s. parse_path_segments (row_pattern r) = Inr s \<and> \<not> structurally_overlap (snd x) s"
      using first_stored_none [OF loops(4), of x r] by auto
  next
    fix x r
    assume "x \<in> set rps" "r \<in> set (list_all_access_rule_patterns pid db)"
      "\<not> (row_is_recursive r \<and> row_pattern r = fixed_prefix_pattern (fst x))"
    then show "\<exists>s. stored_reach r = Some s \<and> \<not> ambiguous (snd x) s"
      using first_stored_none [OF loops(5), of x r] by (auto split: if_splits)
  next
    fix x r
    assume "x \<in> set pas" "r \<in> set (list_all_access_rule_patterns pid db)" "row_is_recursive r"
    then show "\<exists>s. recursive_prefix_of (row_pattern r) = Inr s \<and> \<not> ambiguous (fixed_depth_full_reach (snd x)) s"
      using first_stored_none [OF loops(6), of x r] by auto
  qed
qed

lemma row_segs_parse: "row_parse r = Inr s \<Longrightarrow> row_segs r = s"
  by (simp add: row_segs_def)

lemma stored_reach_row: "row_ok r \<Longrightarrow> stored_reach r = Some (row_reach r)"
  by (auto simp: row_ok_def stored_reach_def row_reach_def row_parse_def ok_segments_def)

lemma new_row_no_clash:
  assumes chk: "check_pattern_overlap pid ts db = Some None"
    and new: "t \<in> set ts" "target_row pid t = Some n" "row_ok n"
    and old: "r \<in> set (access_rule_patterns db)" "row_ok r" "row_project r = pid" "row_pattern r \<noteq> row_pattern n"
  shows "\<not> rows_clash n r"
  using chk
proof (rule checked_patterns)
  fix pas rps
  assume chk: "\<And>p. MultiSegmentPattern p \<in> set ts \<Longrightarrow> \<exists>s. parse_path_segments (collection_path_pattern p) = Inr s \<and> (p, s) \<in> set pas"
    "\<And>p. RecursiveWildcardPattern p \<in> set ts \<Longrightarrow> \<exists>s. recursive_prefix_of (fixed_prefix_pattern p) = Inr s \<and> (p, s) \<in> set rps"
    "\<And>x r. x \<in> set pas \<Longrightarrow>
       r \<in> set (list_access_rule_patterns_by_skeleton pid (ancestor_segment_count (fst x)) (pattern_literal_skeleton (fst x)) db) \<Longrightarrow>
       row_pattern r \<noteq> collection_path_pattern (fst x) \<Longrightarrow>
       \<exists>s. parse_path_segments (row_pattern r) = Inr s \<and> \<not> structurally_overlap (snd x) s"
    "\<And>x r. x \<in> set rps \<Longrightarrow> r \<in> set (list_all_access_rule_patterns pid db) \<Longrightarrow>
       \<not> (row_is_recursive r \<and> row_pattern r = fixed_prefix_pattern (fst x)) \<Longrightarrow>
       \<exists>s. stored_reach r = Some s \<and> \<not> ambiguous (snd x) s"
    "\<And>x r. x \<in> set pas \<Longrightarrow> r \<in> set (list_all_access_rule_patterns pid db) \<Longrightarrow> row_is_recursive r \<Longrightarrow>
       \<exists>s. recursive_prefix_of (row_pattern r) = Inr s \<and> \<not> ambiguous (fixed_depth_full_reach (snd x)) s"
  have listed: "r \<in> set (list_all_access_rule_patterns pid db)"
    using old by (simp add: list_all_access_rule_patterns_def)
  show ?thesis
  proof (cases t)
    case (MultiSegmentPattern p)
    then obtain s where s: "parse_path_segments (collection_path_pattern p) = Inr s" "(p, s) \<in> set pas"
      using chk(1) new(1) by blast
    have n: "row_pattern n = collection_path_pattern p" "\<not> row_is_recursive n"
      "row_segment_count n = ancestor_segment_count p" "row_skeleton n = pattern_literal_skeleton p" "row_segs n = s"
      using new(2) MultiSegmentPattern s(1) by (auto simp: row_segs_def row_parse_def)
    show ?thesis
    proof (cases "row_is_recursive r")
      case True
      then show ?thesis
        using chk(5) [OF s(2) listed True] n by (auto simp: rows_clash_def row_reach_def row_segs_def row_parse_def)
    next
      case False
      have "\<not> structurally_overlap s (row_segs r)"
      proof
        assume ov: "structurally_overlap s (row_segs r)"
        then have "length s = length (row_segs r) \<and> literal_skeleton s = literal_skeleton (row_segs r)"
          using overlap_same_key new(3) old(2) n(5) unfolding row_ok_def by blast
        then have "r \<in> set (list_access_rule_patterns_by_skeleton pid (ancestor_segment_count p) (pattern_literal_skeleton p) db)"
          using new(3) old False n by (simp add: list_access_rule_patterns_by_skeleton_def row_ok_def)
        then show False
          using chk(3) [OF s(2), of r] old(4) n(1) ov False by (auto simp: row_segs_def row_parse_def)
      qed
      then show ?thesis using n False by (simp add: rows_clash_def)
    qed
  next
    case (RecursiveWildcardPattern p)
    then obtain s where s: "recursive_prefix_of (fixed_prefix_pattern p) = Inr s" "(p, s) \<in> set rps"
      using chk(2) new(1) by blast
    have n: "row_pattern n = fixed_prefix_pattern p" "row_is_recursive n" "row_segs n = s"
      using new(2) RecursiveWildcardPattern s(1) by (auto simp: row_segs_def row_parse_def)
    then show ?thesis
      using chk(4) [OF s(2) listed] old stored_reach_row [OF old(2)] by (auto simp: rows_clash_def row_reach_def)
  qed (use new(2) in simp)
qed

lemma new_rows_no_clash:
  assumes chk: "check_pattern_overlap pid ts db = Some None"
    and "t \<in> set ts" "target_row pid t = Some n" and "t' \<in> set ts" "target_row pid t' = Some n'"
    and "row_pattern n \<noteq> row_pattern n'"
  shows "\<not> rows_clash n n'"
  using chk
proof (rule checked_patterns)
  fix pas rps
  assume chk: "\<And>p. MultiSegmentPattern p \<in> set ts \<Longrightarrow> \<exists>s. parse_path_segments (collection_path_pattern p) = Inr s \<and> (p, s) \<in> set pas"
    "\<And>p. RecursiveWildcardPattern p \<in> set ts \<Longrightarrow> \<exists>s. recursive_prefix_of (fixed_prefix_pattern p) = Inr s \<and> (p, s) \<in> set rps"
    "\<And>x y. x \<in> set pas \<Longrightarrow> y \<in> set pas \<Longrightarrow> x \<noteq> y \<Longrightarrow> \<not> structurally_overlap (snd x) (snd y)"
    "\<And>x y. x \<in> set rps \<Longrightarrow> y \<in> set rps \<Longrightarrow> x \<noteq> y \<Longrightarrow> \<not> ambiguous (snd x) (snd y)"
    "\<And>x y. x \<in> set rps \<Longrightarrow> y \<in> set pas \<Longrightarrow> \<not> ambiguous (snd x) (fixed_depth_full_reach (snd y))"
  have entry: "(\<exists>p. t = MultiSegmentPattern p \<and> row_pattern n = collection_path_pattern p \<and> \<not> row_is_recursive n \<and> (p, row_segs n) \<in> set pas) \<or>
      (\<exists>p. t = RecursiveWildcardPattern p \<and> row_pattern n = fixed_prefix_pattern p \<and> row_is_recursive n \<and> (p, row_segs n) \<in> set rps)"
    if "t \<in> set ts" "target_row pid t = Some n" for t n
    using chk(1,2) that by (cases t) (fastforce simp: row_segs_def row_parse_def)+
  note n = entry [OF assms(2,3)] and n' = entry [OF assms(4,5)]
  show ?thesis
  proof (cases "row_is_recursive n"; cases "row_is_recursive n'")
    assume k: "row_is_recursive n" "row_is_recursive n'"
    then show ?thesis using n n' chk(4) assms(6) by (fastforce simp: rows_clash_def row_reach_def)
  next
    assume k: "row_is_recursive n" "\<not> row_is_recursive n'"
    then show ?thesis using n n' chk(5) by (fastforce simp: rows_clash_def row_reach_def)
  next
    assume k: "\<not> row_is_recursive n" "row_is_recursive n'"
    then have "\<not> ambiguous (row_reach n') (row_reach n)" using n n' chk(5) by (fastforce simp: row_reach_def)
    then show ?thesis using k ambiguous_sym by (simp add: rows_clash_def)
  next
    assume k: "\<not> row_is_recursive n" "\<not> row_is_recursive n'"
    then show ?thesis using n n' chk(3) assms(6) by (fastforce simp: rows_clash_def)
  qed
qed

lemma compatible_rows_mono: "compatible_rows R \<Longrightarrow> R' \<subseteq> R \<Longrightarrow> compatible_rows R'"
  unfolding compatible_rows_def by (meson subsetD)

lemma import_compatible:
  assumes "patterns_ok db" and "check_pattern_overlap pid ts db = Some None"
    and "\<And>t n. t \<in> set ts \<Longrightarrow> target_row pid t = Some n \<Longrightarrow> row_ok n"
  shows "patterns_ok (fold (store_target pid actor) ts db)"
proof -
  let ?new = "\<Union>t \<in> set ts. set_option (target_row pid t)"
  let ?R = "set (access_rule_patterns db) \<union> ?new"
  have pid: "row_project n = pid" if "target_row pid t = Some n" for t n using that by (cases t) auto
  have old: "compatible_rows (set (access_rule_patterns db))" using assms(1) by (simp add: patterns_ok_def)
  have "\<not> rows_clash r r'" if rr: "r \<in> ?R" "r' \<in> ?R" "row_project r = row_project r'" "row_pattern r \<noteq> row_pattern r'" for r r'
  proof -
    have mixed: "\<not> rows_clash n o'" if "n \<in> ?new" "o' \<in> set (access_rule_patterns db)" "row_project n = row_project o'" "row_pattern n \<noteq> row_pattern o'" for n o'
      using that new_row_no_clash [OF assms(2)] assms(3) old pid by (fastforce simp: compatible_rows_def)
    have both: "\<not> rows_clash n n'" if "n \<in> ?new" "n' \<in> ?new" "row_pattern n \<noteq> row_pattern n'" for n n'
      using that new_rows_no_clash [OF assms(2)] by fastforce
    show ?thesis
      using rr mixed [of r r'] mixed [of r' r] both [of r r'] old rows_clash_sym [of r r'] unfolding compatible_rows_def by force
  qed
  moreover have "\<forall>r \<in> ?R. row_ok r" using old assms(3) by (auto simp: compatible_rows_def)
  ultimately have "compatible_rows ?R" by (simp add: compatible_rows_def)
  moreover have d: "distinct (map row_key (access_rule_patterns db))" using assms(1) by (simp add: patterns_ok_def)
  note rows = fold_store_rows [OF d, of pid actor ts]
  ultimately have "compatible_rows (set (access_rule_patterns (fold (store_target pid actor) ts db)))"
    using rows compatible_rows_mono by blast
  then show ?thesis using rows by (simp add: patterns_ok_def)
qed

lemma decomposed_rows_ok:
  assumes "parse_rules_file source = Inr blocks" and "decompose blocks = Some (Inr ts)"
    and "t \<in> set ts" "target_row pid t = Some n"
  shows "row_ok n"
proof -
  have "\<exists>b \<in> set bs. decompose_block b = Some (Inr t)"
    if "decompose_from bs us off = Some (Inr vs)" "t \<in> set vs" "t \<notin> set us" for bs us off vs
    using that
  proof (induction bs us off rule: decompose_from.induct)
    case (2 b bs us off)
    then obtain r where r: "decompose_block b = Some r" by (cases "decompose_block b") auto
    then show ?case using 2 by (cases r; cases "r = Inr t") auto
  qed (auto split: if_splits)
  then obtain b where "b \<in> set blocks" "decompose_block b = Some (Inr t)"
    using assms(2,3) by (fastforce simp: decompose_def)
  moreover have "block_ok b" if "b \<in> set blocks" for b
    using parse_rules_file_ok [OF assms(1)] that by (auto simp: list_all_iff)
  ultimately show ?thesis using target_row_ok assms(4) by blast
qed

text \<open>A file that is not accepted names at least one offending block.\<close>

lemma shell_error_nonempty [simp]: "offending_blocks (shell_syntax_error d) \<noteq> []"
  by (simp add: shell_syntax_error_def)

lemma function_head_nonempty: "function_head s = Inl e \<Longrightarrow> offending_blocks e \<noteq> []"
  by (auto simp: function_head_def rbind_Inl_iff ok_or_Inl_iff Let_def split: if_splits)

lemma function_expr_nonempty: "function_expr name s = Inl e \<Longrightarrow> offending_blocks e \<noteq> []"
  by (auto simp: function_expr_def rbind_Inl_iff ok_or_Inl_iff Let_def split: if_splits option.splits sum.splits)

lemma function_blocks_nonempty: "parse_function_blocks s fns = Inl e \<Longrightarrow> offending_blocks e \<noteq> []"
proof (induction s fns rule: parse_function_blocks.induct)
  case (1 s fns)
  show ?case
  proof (cases "strip_keyword ''function'' (trim_start s)")
    case None
    then show ?thesis using "1.prems" by (simp add: parse_function_blocks.simps [of s] Let_def)
  next
    case (Some rest)
    have "offending_blocks e \<noteq> []" if "parse_function_block (trim_start rest) fns = Inl e"
      using that
      by (auto simp: parse_function_block_def rbind_Inl_iff ok_or_Inl_iff
          dest!: function_head_nonempty function_expr_nonempty split: if_splits)
    then show ?thesis
      using "1.IH" [OF refl Some] "1.prems" Some
      by (fastforce simp: parse_function_blocks.simps [of s] Let_def rbind_Inl_iff)
  qed
qed

lemma nested_nonempty:
  "parse_nested_match_blocks body ptext psegs fns blocks off = Inl e \<Longrightarrow> offending_blocks e \<noteq> []"
  "parse_block_body bbody pat segs fns = r \<Longrightarrow> True"
proof (induction body ptext psegs fns blocks off and bbody pat segs fns
    rule: parse_nested_match_blocks_parse_block_body.induct)
  case (1 body ptext psegs fns blocks off)
  note unf = parse_nested_match_blocks.simps [of body]
  show ?case
  proof (cases "trim_start body = []")
    case True
    then show ?thesis using "1.prems" by (auto simp: unf finish_blocks_def split: if_splits)
  next
    case False
    show ?thesis
    proof (cases "split_match_block (trim_start body)")
      case (Inl e')
      then have "offending_blocks e' \<noteq> []"
        by (auto simp: split_match_block_def rbind_Inl_iff ok_or_Inl_iff Let_def split: if_splits)
      then show ?thesis using "1.prems" False Inl by (simp add: unf)
    next
      case (Inr x)
      obtain lp bb resume where x: "x = (lp, bb, resume)" by (metis prod_cases3)
      note IH = "1.IH" [OF False Inr x [symmetric] refl]
      show ?thesis
        using "1.prems" IH(1,3,4) False Inr x by (auto simp: unf split: sum.splits)
    qed
  qed
qed simp

lemma strip_shell_nonempty:
  "strip_shell kw s (shell_syntax_error a) (shell_syntax_error b) (shell_syntax_error c) = Inl e \<Longrightarrow> offending_blocks e \<noteq> []"
  by (auto simp: strip_shell_def rbind_Inl_iff ok_or_Inl_iff split: if_splits)

lemma parse_match_blocks_nonempty: "parse_match_blocks body fns = Inl e \<Longrightarrow> offending_blocks e \<noteq> []"
  by (auto simp: parse_match_blocks_def rbind_Inl_iff dest!: nested_nonempty(1) split: if_splits)

lemma parse_rules_file_nonempty: "parse_rules_file source = Inl e \<Longrightarrow> offending_blocks e \<noteq> []"
  unfolding parse_rules_file_def rbind_Inl_iff
  using strip_shell_nonempty function_blocks_nonempty parse_match_blocks_nonempty
  by (auto simp: rbind_Inl_iff split: prod.splits)

lemma import_cases:
  assumes "import_rules_file is_admin owns pid actor source db = Some (res, db')"
  obtains "db' = db" | ts blocks where "is_admin" "owns" "res = Imported ts" "parse_rules_file source = Inr blocks"
      "decompose blocks = Some (Inr ts)" "check_pattern_overlap pid ts db = Some None"
      "db' = fold (store_target pid actor) ts db"
proof (cases "is_admin \<and> owns")
  case True
  note go = assms [unfolded import_rules_file_def] True
  show ?thesis
  proof (cases "parse_rules_file source")
    case (Inl e)
    then have "db' = db"
      using go parse_rules_file_nonempty [OF Inl]
      by (cases "decompose (partial_blocks e)") (auto split: if_splits sum.splits option.splits)
    then show ?thesis by (rule that(1))
  next
    case parse: (Inr blocks)
    then obtain d where d: "decompose blocks = Some d" using go by (cases "decompose blocks") auto
    show ?thesis
    proof (cases d)
      case (Inl e)
      then have "db' = db" using go parse d by simp
      then show ?thesis by (rule that(1))
    next
      case (Inr ts)
      have "Option.bind (check_pattern_overlap pid ts db) (case_option
            (Some (Imported ts, fold (store_target pid actor) ts db)) (\<lambda>e. Some (ImportRejected (offending_blocks e), db))) =
          Some (res, db')"
        using go parse d Inr by simp
      then obtain rej where rej: "check_pattern_overlap pid ts db = Some rej"
        "(case rej of None \<Rightarrow> Some (Imported ts, fold (store_target pid actor) ts db)
          | Some e \<Rightarrow> Some (ImportRejected (offending_blocks e), db)) = Some (res, db')"
        by (auto simp: Option.bind_eq_Some_conv)
      show ?thesis
      proof (cases rej)
        case None
        show ?thesis by (rule that(2)) (use rej None True parse d Inr in auto)
      next
        case (Some e)
        then have "db' = db" using rej(2) by simp
        then show ?thesis by (rule that(1))
      qed
    qed
  qed
next
  case False
  then have "db' = db" using assms by (auto simp: import_rules_file_def split: if_splits)
  then show ?thesis by (rule that(1))
qed

text \<open>
  C8: the import keeps the stored patterns unambiguous. Whatever is imported, and whether the import is
  accepted, rejected or forbidden, a pattern table whose rows are well-shaped and free of clashes stays so;
  the table that starts empty is. An import that is not accepted changes nothing.
\<close>

theorem import_keeps_unambiguous:
  assumes "patterns_ok db" and "import_rules_file is_admin owns pid actor source db = Some (res, db')"
  shows "patterns_ok db' \<and> (db' = db \<or> (is_admin \<and> owns \<and> (\<exists>ts. res = Imported ts)))"
proof -
  consider "db' = db" | ts blocks where "is_admin" "owns" "res = Imported ts" "parse_rules_file source = Inr blocks"
      "decompose blocks = Some (Inr ts)" "check_pattern_overlap pid ts db = Some None"
      "db' = fold (store_target pid actor) ts db"
    using assms(2) by (rule import_cases)
  then show ?thesis
  proof cases
    case 1
    then show ?thesis using assms(1) by simp
  next
    case 2
    then show ?thesis using import_compatible [OF assms(1) 2(6)] decomposed_rows_ok [OF 2(4,5)] by blast
  qed
qed

section \<open>Routing finds the rule\<close>

text \<open>Segments that a request path may have so that they are read as themselves.\<close>

definition plain_segments :: "string list \<Rightarrow> bool" where
  "plain_segments cs \<longleftrightarrow> cs \<noteq> [] \<and> list_all (\<lambda>s. seg_ok (Literal s)) cs"

lemma parse_plain_path: "plain_segments cs \<Longrightarrow> parse_path_segments (join ''/'' cs) = Inr (lits cs)"
proof (rule parse_render)
  assume cs: "plain_segments cs"
  then show "lits cs \<noteq> []" by (cases cs) (auto simp: plain_segments_def)
  show "list_all seg_ok (lits cs)" using cs by (simp add: plain_segments_def lits_def list_all_iff)
  have "map render_segment (lits cs) = map Some cs" by (simp add: lits_def)
  then show "render_ancestor_pattern (lits cs) = Some (join ''/'' cs)"
    unfolding render_ancestor_pattern_def using those_map_Some [of render_segment "lits cs" cs] by simp
qed

definition fixed_matches :: "string \<Rightarrow> string list \<Rightarrow> pattern_row \<Rightarrow> bool" where
  "fixed_matches pid cs r \<longleftrightarrow> row_project r = pid \<and> \<not> row_is_recursive r \<and> instance_of (row_segs r) cs"

definition recursive_matches :: "string \<Rightarrow> string list \<Rightarrow> pattern_row \<Rightarrow> bool" where
  "recursive_matches pid ss r \<longleftrightarrow> row_project r = pid \<and> row_is_recursive r \<and> ss \<in> reach (row_segs r)"

lemma same_text_same_row:
  assumes "patterns_ok db" and "r \<in> set (access_rule_patterns db)" "r' \<in> set (access_rule_patterns db)"
    and "row_project r = row_project r'" "row_pattern r = row_pattern r'" "row_is_recursive r = row_is_recursive r'"
  shows "r = r'"
  using assms by (auto simp: patterns_ok_def distinct_map inj_on_def row_key_def)

lemma row_ok_fixed: "row_ok r \<Longrightarrow> \<not> row_is_recursive r \<Longrightarrow> parse_path_segments (row_pattern r) = Inr (row_segs r)"
  by (simp add: row_ok_def row_parse_def)

lemma row_ok_recursive: "row_ok r \<Longrightarrow> row_is_recursive r \<Longrightarrow> recursive_prefix_of (row_pattern r) = Inr (row_segs r)"
  by (simp add: row_ok_def row_parse_def)

lemma row_ok_no_recursive: "row_ok r \<Longrightarrow> no_recursive (row_segs r)"
  by (simp add: row_ok_def)

lemma patterns_row_ok: "patterns_ok db \<Longrightarrow> r \<in> set (access_rule_patterns db) \<Longrightarrow> row_ok r"
  by (simp add: patterns_ok_def compatible_rows_def)

lemma patterns_no_clash:
  "patterns_ok db \<Longrightarrow> r \<in> set (access_rule_patterns db) \<Longrightarrow> r' \<in> set (access_rule_patterns db) \<Longrightarrow>
     row_project r = row_project r' \<Longrightarrow> row_pattern r \<noteq> row_pattern r' \<Longrightarrow> \<not> rows_clash r r'"
  by (simp add: patterns_ok_def compatible_rows_def)

lemma fixed_match_unique:
  assumes "patterns_ok db" and "r \<in> set (access_rule_patterns db)" "r' \<in> set (access_rule_patterns db)"
    and "fixed_matches pid cs r" "fixed_matches pid cs r'"
  shows "r = r'"
proof (rule ccontr)
  assume "r \<noteq> r'"
  then have "row_pattern r \<noteq> row_pattern r'"
    using same_text_same_row [OF assms(1-3)] assms(4,5) by (auto simp: fixed_matches_def)
  then have "\<not> structurally_overlap (row_segs r) (row_segs r')" and nr: "no_recursive (row_segs r')"
    using patterns_no_clash [OF assms(1-3)] patterns_row_ok [OF assms(1,3)] assms(4,5)
    by (auto simp: rows_clash_def fixed_matches_def row_ok_no_recursive)
  moreover have "length (row_segs r) = length cs" "length (row_segs r') = length cs"
    using assms(4,5) by (auto simp: fixed_matches_def instance_of_def dest: list_all2_lengthD)
  ultimately show False
    using common_instance_iff [of "row_segs r" "row_segs r'"] assms(4,5)
    by (auto simp: structurally_overlap_def fixed_matches_def)
qed

lemma recursive_match_unique:
  assumes "patterns_ok db" and "r \<in> set (access_rule_patterns db)" "r' \<in> set (access_rule_patterns db)"
    and "recursive_matches pid ss r" "recursive_matches pid ss r'" "length (row_segs r) = length (row_segs r')"
  shows "r = r'"
proof (rule ccontr)
  assume "r \<noteq> r'"
  then have "row_pattern r \<noteq> row_pattern r'"
    using same_text_same_row [OF assms(1-3)] assms(4,5) by (auto simp: recursive_matches_def)
  then have "\<not> ambiguous (row_segs r) (row_segs r')" and nr: "no_recursive (row_segs r')"
    using patterns_no_clash [OF assms(1-3)] patterns_row_ok [OF assms(1,3)] assms(4,5)
    by (auto simp: rows_clash_def recursive_matches_def row_ok_no_recursive row_reach_def)
  then show False
    using classify_reach_same [OF assms(6)] assms(4,5) by (auto simp: ambiguous_def recursive_matches_def split: if_splits)
qed

lemma match_candidates_keeps:
  "\<forall>r \<in> set rows. row_ok r \<and> \<not> row_is_recursive r \<and> \<not> instance_of (row_segs r) cs \<Longrightarrow>
     match_candidates (lits cs) rows m = Inr m"
proof (induction rows)
  case (Cons r rows)
  then have "parse_path_segments (row_pattern r) = Inr (row_segs r)" "bind_ancestor (row_segs r) (lits cs) = None"
    using bind_ancestor_Some_iff [of "row_segs r" cs] by (auto simp: row_ok_fixed)
  then show ?case using Cons by simp
qed simp

lemma match_candidates_spec:
  assumes "\<forall>r \<in> set rows. row_ok r \<and> \<not> row_is_recursive r" and "distinct rows"
    and "\<And>r r'. r \<in> set rows \<Longrightarrow> r' \<in> set rows \<Longrightarrow> instance_of (row_segs r) cs \<Longrightarrow> instance_of (row_segs r') cs \<Longrightarrow> r = r'"
  shows "match_candidates (lits cs) rows None =
    Inr (map_option (\<lambda>r. (r, the (bind_ancestor (row_segs r) (lits cs)))) (find (\<lambda>r. instance_of (row_segs r) cs) rows))"
  using assms
proof (induction rows)
  case (Cons r rows)
  have p: "parse_path_segments (row_pattern r) = Inr (row_segs r)" using Cons.prems(1) by (simp add: row_ok_fixed)
  show ?case
  proof (cases "instance_of (row_segs r) cs")
    case True
    then obtain b where "bind_ancestor (row_segs r) (lits cs) = Some b" using bind_ancestor_Some_iff by blast
    moreover have "\<not> instance_of (row_segs x) cs" if "x \<in> set rows" for x
      using Cons.prems(3) [of x r] Cons.prems(2) that True by auto
    then have "match_candidates (lits cs) rows (Some (r, b)) = Inr (Some (r, b))"
      using Cons.prems(1) by (intro match_candidates_keeps) simp
    ultimately show ?thesis using p True by simp
  next
    case False
    then have "bind_ancestor (row_segs r) (lits cs) = None" using bind_ancestor_Some_iff [of "row_segs r" cs] by auto
    then show ?thesis using p False Cons by simp
  qed
qed simp

lemma bind_recursive_iff: "(\<exists>b n. bind_recursive_prefix pre (lits ss) = Some (b, n)) \<longleftrightarrow> ss \<in> reach pre"
  using bind_positions_Some_iff [of pre ss "[]"]
  by (auto simp: bind_recursive_prefix_def reach_iff split: option.splits)

text \<open>The scan over the recursive candidates keeps the longest match.\<close>

definition longest :: "string list \<Rightarrow> pattern_row list \<Rightarrow> (pattern_row \<times> string btree_map \<times> nat) option \<Rightarrow> bool" where
  "longest ss rows best \<longleftrightarrow>
     (case best of
        None \<Rightarrow> \<forall>r \<in> set rows. ss \<notin> reach (row_segs r)
      | Some (r, b, n) \<Rightarrow> r \<in> set rows \<and> n = length (row_segs r) \<and>
          (\<exists>m. bind_recursive_prefix (row_segs r) (lits ss) = Some (b, m)) \<and>
          (\<forall>r' \<in> set rows. ss \<in> reach (row_segs r') \<longrightarrow> r' = r \<or> length (row_segs r') < n))"

definition one_per_length :: "string list \<Rightarrow> pattern_row set \<Rightarrow> bool" where
  "one_per_length ss R \<longleftrightarrow> (\<forall>r \<in> R. \<forall>r' \<in> R. ss \<in> reach (row_segs r) \<longrightarrow> ss \<in> reach (row_segs r') \<longrightarrow>
     length (row_segs r) = length (row_segs r') \<longrightarrow> r = r')"

lemma best_recursive_spec:
  assumes "\<forall>r \<in> set (done @ rows). row_ok r \<and> row_is_recursive r" and "distinct (done @ rows)"
    and "one_per_length ss (set (done @ rows))"
    and "longest ss done best"
  shows "\<exists>res. best_recursive (lits ss) rows best = Inr res \<and> longest ss (done @ rows) res"
  using assms
proof (induction rows arbitrary: "done" best)
  case (Cons r rows)
  have p: "recursive_prefix_of (row_pattern r) = Inr (row_segs r)"
    using Cons.prems(1) by (simp add: row_ok_recursive)
  have step: "\<exists>res. best_recursive (lits ss) rows best' = Inr res \<and> longest ss (done @ r # rows) res"
    if "longest ss (done @ [r]) best'" for best'
    using Cons.IH [of "done @ [r]" best'] Cons.prems(1-3) that by simp
  show ?case
  proof (cases "bind_recursive_prefix (row_segs r) (lits ss)")
    case None
    then have "ss \<notin> reach (row_segs r)" using bind_recursive_iff [of "row_segs r" ss] by auto
    then have "longest ss (done @ [r]) best" using Cons.prems(4) by (auto simp: longest_def split: option.splits)
    then show ?thesis using step p None by simp
  next
    case (Some bm)
    then obtain b m where bm: "bind_recursive_prefix (row_segs r) (lits ss) = Some (b, m)" by (cases bm) auto
    then have hit: "ss \<in> reach (row_segs r)" using bind_recursive_iff [of "row_segs r" ss] by blast
    have here: "longest ss (done @ [r]) (Some (r, b, length (row_segs r)))"
      if "\<forall>r' \<in> set done. ss \<in> reach (row_segs r') \<longrightarrow> length (row_segs r') < length (row_segs r)"
      using that bm by (auto simp: longest_def)
    show ?thesis
    proof (cases best)
      case None
      then show ?thesis using step [OF here] Cons.prems(4) p bm by (simp add: longest_def)
    next
      case (Some x)
      obtain q c n where x: "x = (q, c, n)" by (metis prod_cases3)
      have q: "q \<in> set done" "n = length (row_segs q)" "ss \<in> reach (row_segs q)"
        "\<forall>r' \<in> set done. ss \<in> reach (row_segs r') \<longrightarrow> r' = q \<or> length (row_segs r') < n"
        using Cons.prems(4) Some x bind_recursive_iff [of "row_segs q" ss] by (auto simp: longest_def)
      have ne: "length (row_segs r) \<noteq> n"
        using Cons.prems(2,3) q hit unfolding one_per_length_def by fastforce
      show ?thesis
      proof (cases "length (row_segs r) < n")
        case True
        then have "longest ss (done @ [r]) best"
          using Cons.prems(4) Some x by (auto simp: longest_def)
        then show ?thesis using step p bm Some x True by simp
      next
        case False
        then have "\<forall>r' \<in> set done. ss \<in> reach (row_segs r') \<longrightarrow> length (row_segs r') < length (row_segs r)"
          using q ne by force
        then show ?thesis using step [OF here] p bm Some x False ne by simp
      qed
    qed
  qed
qed simp

lemma listed_recursive:
  assumes "row_ok r" "recursive_matches pid ss r" "r \<in> set (access_rule_patterns db)" "length ss < 2 ^ 15"
  shows "r \<in> set (list_recursive_access_rule_patterns_up_to pid (word_of_nat (length ss)) db)"
proof -
  have le: "length (row_segs r) \<le> length ss" using assms(2) by (simp add: recursive_matches_def reach_iff)
  have small: "sint (word_of_nat n :: i16) = int n" if "n < 2 ^ 15" for n
    using that by (simp add: signed_of_nat signed_take_bit_int_eq_self)
  show ?thesis
    using assms le small [of "length ss"] small [of "length (row_segs r)"]
    by (simp add: list_recursive_access_rule_patterns_up_to_def recursive_matches_def row_ok_def)
qed

lemma fixed_candidates:
  assumes "patterns_ok db"
  shows "\<exists>m. match_candidates (lits cs)
      (list_access_rule_patterns_by_skeleton pid (word_of_nat (length cs)) (literal_skeleton (lits cs)) db) None = Inr m \<and>
    (case m of
       None \<Rightarrow> \<forall>r \<in> set (access_rule_patterns db). \<not> fixed_matches pid cs r
     | Some (r, b) \<Rightarrow> r \<in> set (access_rule_patterns db) \<and> fixed_matches pid cs r \<and> bind_ancestor (row_segs r) (lits cs) = Some b)"
proof -
  let ?rows = "access_rule_patterns db"
  let ?fixed = "list_access_rule_patterns_by_skeleton pid (word_of_nat (length cs)) (literal_skeleton (lits cs)) db"
  have fixed: "set ?fixed \<subseteq> {r \<in> set ?rows. row_project r = pid \<and> \<not> row_is_recursive r}" "distinct ?fixed"
    using assms(1) by (auto simp: list_access_rule_patterns_by_skeleton_def patterns_ok_def distinct_map)
  have listed: "r \<in> set ?fixed" if "r \<in> set ?rows" "fixed_matches pid cs r" for r
  proof -
    have "length (row_segs r) = length cs" "literal_skeleton (row_segs r) = literal_skeleton (lits cs)"
      using that patterns_row_ok [OF assms(1) that(1)] even_literals_instance [of "row_segs r" cs 0]
      by (auto simp: fixed_matches_def row_ok_def literal_skeleton_def instance_of_def dest: list_all2_lengthD)
    then show ?thesis
      using that patterns_row_ok [OF assms(1) that(1)]
      by (simp add: list_access_rule_patterns_by_skeleton_def row_ok_def fixed_matches_def)
  qed
  have hits: "fixed_matches pid cs r" if "r \<in> set ?fixed" "instance_of (row_segs r) cs" for r
    using that fixed(1) by (auto simp: fixed_matches_def)
  have cand: "match_candidates (lits cs) ?fixed None =
      Inr (map_option (\<lambda>r. (r, the (bind_ancestor (row_segs r) (lits cs)))) (find (\<lambda>r. instance_of (row_segs r) cs) ?fixed))"
    using fixed patterns_row_ok [OF assms(1)] fixed_match_unique [OF assms(1)] hits
    by (intro match_candidates_spec) blast+
  show ?thesis
  proof (cases "find (\<lambda>r. instance_of (row_segs r) cs) ?fixed")
    case None
    then have "\<forall>r \<in> set ?rows. \<not> fixed_matches pid cs r" using listed by (auto simp: find_None_iff fixed_matches_def)
    then show ?thesis using cand None by simp
  next
    case (Some r)
    then have r: "r \<in> set ?fixed" "instance_of (row_segs r) cs" by (auto simp: find_Some_iff in_set_conv_nth)
    then obtain b where b: "bind_ancestor (row_segs r) (lits cs) = Some b" using bind_ancestor_Some_iff by blast
    then show ?thesis using cand Some hits [OF r] r(1) fixed(1) by auto
  qed
qed

lemma recursive_candidates:
  assumes "patterns_ok db" and "length ss < 2 ^ 15"
  shows "\<exists>best. best_recursive (lits ss) (list_recursive_access_rule_patterns_up_to pid (word_of_nat (length ss)) db) None = Inr best \<and>
    (case best of
       None \<Rightarrow> \<forall>r \<in> set (access_rule_patterns db). \<not> recursive_matches pid ss r
     | Some (r, b, n) \<Rightarrow> r \<in> set (access_rule_patterns db) \<and> recursive_matches pid ss r \<and>
         (\<exists>m. bind_recursive_prefix (row_segs r) (lits ss) = Some (b, m)) \<and>
         (\<forall>r' \<in> set (access_rule_patterns db). recursive_matches pid ss r' \<longrightarrow> r' = r \<or> length (row_segs r') < length (row_segs r)))"
proof -
  let ?rows = "access_rule_patterns db"
  let ?rec = "list_recursive_access_rule_patterns_up_to pid (word_of_nat (length ss)) db"
  have rec: "set ?rec \<subseteq> {r \<in> set ?rows. row_project r = pid \<and> row_is_recursive r}" "distinct ?rec"
    using assms(1) by (auto simp: list_recursive_access_rule_patterns_up_to_def patterns_ok_def distinct_map)
  have listed: "r \<in> set ?rec" if "r \<in> set ?rows" "recursive_matches pid ss r" for r
    using listed_recursive [OF patterns_row_ok [OF assms(1) that(1)] that(2,1) assms(2)] .
  have "one_per_length ss (set ?rec)"
    using rec(1) recursive_match_unique [OF assms(1)] unfolding one_per_length_def recursive_matches_def by blast
  moreover have "\<forall>r \<in> set ?rec. row_ok r \<and> row_is_recursive r" using rec(1) patterns_row_ok [OF assms(1)] by blast
  ultimately obtain best where best: "best_recursive (lits ss) ?rec None = Inr best" "longest ss ?rec best"
    using best_recursive_spec [of "[]" ?rec ss None] rec(2) by (auto simp: longest_def)
  show ?thesis
  proof (cases best)
    case None
    then show ?thesis using best listed by (auto simp: longest_def recursive_matches_def)
  next
    case (Some x)
    obtain r b n where x: "x = (r, b, n)" by (metis prod_cases3)
    have "ss \<in> reach (row_segs r)"
      using best(2) Some x bind_recursive_iff [of "row_segs r" ss] by (auto simp: longest_def)
    then show ?thesis
      using best listed rec(1) Some x by (auto simp: longest_def recursive_matches_def)
  qed
qed

lemma routing_result:
  assumes "patterns_ok db" and "plain_segments cs" and "length cs + 1 < 2 ^ 15"
  shows "\<exists>res. resolve_access_rule_pattern pid (join ''/'' cs) did db = Inr res \<and>
    (case res of
       None \<Rightarrow> (\<forall>r \<in> set (access_rule_patterns db). \<not> fixed_matches pid cs r \<and>
         (\<forall>d. did = Some d \<longrightarrow> \<not> recursive_matches pid (cs @ [d]) r))
     | Some (r, b) \<Rightarrow> r \<in> set (access_rule_patterns db) \<and>
         (if \<not> row_is_recursive r then
            fixed_matches pid cs r \<and> bind_ancestor (row_segs r) (lits cs) = Some b \<and>
            (\<forall>r' \<in> set (access_rule_patterns db). fixed_matches pid cs r' \<longrightarrow> r' = r)
          else \<exists>d m. did = Some d \<and> recursive_matches pid (cs @ [d]) r \<and>
            bind_recursive_prefix (row_segs r) (lits (cs @ [d])) = Some (b, m) \<and>
            (\<forall>r' \<in> set (access_rule_patterns db). \<not> fixed_matches pid cs r' \<and>
               (recursive_matches pid (cs @ [d]) r' \<longrightarrow> r' = r \<or> length (row_segs r') < length (row_segs r)))))"
proof -
  have parse: "parse_path_segments (join ''/'' cs) = Inr (lits cs)" using parse_plain_path [OF assms(2)] .
  obtain m where m: "match_candidates (lits cs)
      (list_access_rule_patterns_by_skeleton pid (word_of_nat (length cs)) (literal_skeleton (lits cs)) db) None = Inr m"
    "case m of None \<Rightarrow> \<forall>r \<in> set (access_rule_patterns db). \<not> fixed_matches pid cs r
     | Some (r, b) \<Rightarrow> r \<in> set (access_rule_patterns db) \<and> fixed_matches pid cs r \<and> bind_ancestor (row_segs r) (lits cs) = Some b"
    using fixed_candidates [OF assms(1)] by blast
  show ?thesis
  proof (cases m)
    case (Some x)
    then show ?thesis
      using m fixed_match_unique [OF assms(1)]
      by (cases x) (auto simp: resolve_access_rule_pattern_def parse fixed_matches_def)
  next
    case None
    show ?thesis
    proof (cases did)
      case (Some d)
      obtain best where best: "best_recursive (lits (cs @ [d]))
          (list_recursive_access_rule_patterns_up_to pid (word_of_nat (length (cs @ [d]))) db) None = Inr best"
        "case best of None \<Rightarrow> \<forall>r \<in> set (access_rule_patterns db). \<not> recursive_matches pid (cs @ [d]) r
         | Some (r, b, n) \<Rightarrow> r \<in> set (access_rule_patterns db) \<and> recursive_matches pid (cs @ [d]) r \<and>
             (\<exists>m. bind_recursive_prefix (row_segs r) (lits (cs @ [d])) = Some (b, m)) \<and>
             (\<forall>r' \<in> set (access_rule_patterns db). recursive_matches pid (cs @ [d]) r' \<longrightarrow>
                r' = r \<or> length (row_segs r') < length (row_segs r))"
        using recursive_candidates [OF assms(1), of "cs @ [d]" pid] assms(3) by auto
      have "resolve_access_rule_pattern pid (join ''/'' cs) did db = Inr (map_option (\<lambda>(r, b, _). (r, b)) best)"
        using m None Some best(1) by (simp add: resolve_access_rule_pattern_def parse lits_def)
      then show ?thesis
        using best(2) m(2) None Some by (cases best) (auto simp: recursive_matches_def)
    qed (use m None in \<open>simp add: resolve_access_rule_pattern_def parse\<close>)
  qed
qed

text \<open>
  C7: the router finds the rule. On unambiguous patterns, for a request path of plain segments, fewer than
  32768 of them, routing never fails. A pattern of fixed depth that matches the collection is unique and
  wins; otherwise the recursive pattern with the longest matching prefix is chosen, which is unique too; and
  no pattern is chosen only when none of the project matches.
\<close>

theorem routing_finds_rule:
  assumes "patterns_ok db" and "plain_segments cs" and "length cs + 1 < 2 ^ 15"
  shows "\<exists>res. resolve_access_rule_pattern pid (join ''/'' cs) did db = Inr res \<and>
    (case res of
       None \<Rightarrow> (\<forall>r \<in> set (access_rule_patterns db). \<not> fixed_matches pid cs r \<and>
         (\<forall>d. did = Some d \<longrightarrow> \<not> recursive_matches pid (cs @ [d]) r))
     | Some (r, b) \<Rightarrow> r \<in> set (access_rule_patterns db) \<and>
         (if \<not> row_is_recursive r then
            fixed_matches pid cs r \<and> bind_ancestor (row_segs r) (lits cs) = Some b \<and>
            (\<forall>r' \<in> set (access_rule_patterns db). fixed_matches pid cs r' \<longrightarrow> r' = r)
          else \<exists>d m. did = Some d \<and> recursive_matches pid (cs @ [d]) r \<and>
            bind_recursive_prefix (row_segs r) (lits (cs @ [d])) = Some (b, m) \<and>
            (\<forall>r' \<in> set (access_rule_patterns db). \<not> fixed_matches pid cs r' \<and>
               (recursive_matches pid (cs @ [d]) r' \<longrightarrow> r' = r \<or> length (row_segs r') < length (row_segs r)))))"
  using routing_result [OF assms] .

text \<open>The pattern table after importing \<open>match /a/{b}/c/{d}\<close> and the project-wide \<open>match /{all=**}\<close>.\<close>

definition example_rules :: rules_db where
  "example_rules = \<lparr>access_rules = (\<lambda>_. None), write_access_rules = (\<lambda>_. None), group_access_rules = (\<lambda>_. None),
     access_rule_patterns =
       [\<lparr>row_project = ''app'', row_pattern = ''a/{b}/c'', row_segment_count = 3, row_skeleton = ''a/c'',
         row_leaf_variable = Some ''d'', row_read_condition = Some ''request.auth != null'', row_write_condition = None,
         row_is_recursive = False\<rparr>,
        \<lparr>row_project = ''app'', row_pattern = [], row_segment_count = 0, row_skeleton = [],
         row_leaf_variable = None, row_read_condition = Some ''false'', row_write_condition = None,
         row_is_recursive = True\<rparr>],
     rule_histories = []\<rparr>"

lemma example_segments: "parse_path_segments ''a/{b}/c'' = Inr [Literal ''a'', Wildcard ''b'', Literal ''c'']"
  by code_simp

lemma example_rules_ok: "patterns_ok example_rules"
  by (auto simp: patterns_ok_def compatible_rows_def example_rules_def row_key_def row_ok_def row_segs_def row_parse_def
      example_segments recursive_prefix_of_def no_recursive_def literal_skeleton_def rows_clash_def row_reach_def
      ambiguous_def classify_prefix_relation_def fixed_depth_full_reach_def)

theorem import_keeps_unambiguous_witness:
  "\<exists>ts db'. import_rules_file True True ''app'' ''admin'' tiny_rules example_rules = Some (Imported ts, db') \<and> patterns_ok db'"
proof -
  let ?ts = "[MultiSegmentPattern
     \<lparr>collection_path_pattern = ''a/{b}/c'', ancestor_segment_count = 3, pattern_literal_skeleton = ''a/c'',
      leaf_variable = Some ''d'', pattern_read_condition = Some ''request.path.b == request.path.d'',
      pattern_write_condition = None\<rparr>]"
  have "map_option fst (import_rules_file True True ''app'' ''admin'' tiny_rules example_rules) = Some (Imported ?ts)"
    by code_simp
  then obtain db' where "import_rules_file True True ''app'' ''admin'' tiny_rules example_rules = Some (Imported ?ts, db')"
    by auto
  then show ?thesis using import_keeps_unambiguous [OF example_rules_ok] by blast
qed

theorem routing_finds_rule_witness:
  "\<exists>res. resolve_access_rule_pattern ''app'' (join ''/'' [''a'', ''x'', ''c'']) (Some ''y'') example_rules = Inr res \<and> res \<noteq> None"
proof -
  let ?r = "access_rule_patterns example_rules ! 0"
  have "plain_segments [''a'', ''x'', ''c'']" by (simp add: plain_segments_def)
  moreover have "fixed_matches ''app'' [''a'', ''x'', ''c''] ?r" "?r \<in> set (access_rule_patterns example_rules)"
    by (simp_all add: fixed_matches_def example_rules_def row_segs_def row_parse_def example_segments instance_of_def)
  ultimately show ?thesis
    using routing_finds_rule [OF example_rules_ok, of "[''a'', ''x'', ''c'']" "''app''" "Some ''y''"]
    by (fastforce split: option.splits)
qed

text \<open>
  Segments that look like patterns escape the rules. A request path is parsed with the parser of
  patterns, so a segment that contains \<open>**\<close>, or has the form \<open>{name=**}\<close>, becomes a recursive wildcard,
  which no stored pattern accepts. For a collection path with such a segment no pattern of fixed depth
  matches, and a recursive one only when its prefix ends before the segment: a rule that covers a whole
  collection does not cover what is below its document \<open>a**\<close>.
\<close>

theorem starred_segment_unmatched:
  assumes "parse_path_segments cpath = Inr (xs @ RecursiveWildcard # ys)"
  shows "bind_ancestor pat (xs @ RecursiveWildcard # ys) = None \<and>
    (length xs < length pre \<longrightarrow> bind_recursive_prefix pre (xs @ RecursiveWildcard # ys @ [Literal d]) = None)"
proof -
  have miss: "bind_positions (zip pat (xs @ RecursiveWildcard # zs)) b = None" if "length xs < length pat" for pat zs b
    using that
  proof (induction xs arbitrary: pat b)
    case Nil
    then obtain p ps where "pat = p # ps" by (cases pat) auto
    then show ?case by (cases p) auto
  next
    case (Cons x xs)
    then obtain p ps where "pat = p # ps" by (cases pat) auto
    then show ?case using Cons by (cases p; cases x) auto
  qed
  show ?thesis using miss [of pat ys "[]"] miss [of pre "ys @ [Literal d]" "[]"]
    by (auto simp: bind_ancestor_def bind_recursive_prefix_def)
qed

theorem starred_segment_unmatched_witness:
  "parse_path_segments ''users/a**/posts'' = Inr [Literal ''users'', RecursiveWildcard, Literal ''posts''] \<and>
   bind_ancestor [Literal ''users'', Wildcard ''u'', Literal ''posts''] [Literal ''users'', RecursiveWildcard, Literal ''posts''] = None"
proof -
  have p: "parse_path_segments ''users/a**/posts'' = Inr ([Literal ''users''] @ RecursiveWildcard # [Literal ''posts''])"
    by code_simp
  show ?thesis
    using p starred_segment_unmatched [OF p, of "[Literal ''users'', Wildcard ''u'', Literal ''posts'']" "[]"] by simp
qed

end
