(* ===== verification/Enforcement.thy ===== *)
theory Enforcement
  imports Document_Requests Routing_Safety Transaction_Safety
begin

text \<open>
  What the document handlers guarantee under access rules: no document is returned, created, changed or
  deleted unless the rule that governs it allows this caller to do so, the rule being evaluated on the
  stored document.
\<close>

section \<open>Decisions\<close>

lemma decide_Inr:
  "decide r d source context = Inr u \<longleftrightarrow>
     (\<exists>c ctx. parse_condition source = Inr c \<and> context c = Inr ctx \<and> evaluate c ctx = Allow)"
  by (auto simp: decide_def rbind_Inr_iff split: sum.splits if_splits)

text \<open>The document at a cross-document path.\<close>

definition document_at :: "store_env \<Rightarrow> string \<Rightarrow> database \<Rightarrow> string \<Rightarrow> firestore_document option" where
  "document_at env pid db q =
     (case rsplit_once (CHR ''/'') q of
        None \<Rightarrow> None
      | Some (cp, did) \<Rightarrow>
          (case read_document env \<lparr>project_id = pid, collection_path = cp, document_id = did\<rparr> db of
             Inr d \<Rightarrow> d
           | Inl _ \<Rightarrow> None))"

lemma fetch_cross_reads_get:
  "fetch_cross_reads env pid db ps acc = Inr reads \<Longrightarrow>
     bt_get reads q = (if q \<in> set ps then Some (document_at env pid db q) else bt_get acc q)"
proof (induction ps arbitrary: acc)
  case (Cons p ps)
  show ?case
  proof (cases "rsplit_once (CHR ''/'') p")
    case None
    then show ?thesis using Cons by (auto simp: bt_get_insert document_at_def)
  next
    case (Some x)
    obtain cp did where x: "x = (cp, did)" by (cases x)
    then obtain d where "read_document env \<lparr>project_id = pid, collection_path = cp, document_id = did\<rparr> db = Inr d"
      "fetch_cross_reads env pid db ps (bt_insert p d acc) = Inr reads"
      using Cons.prems Some
      by (cases "read_document env \<lparr>project_id = pid, collection_path = cp, document_id = did\<rparr> db") auto
    then show ?thesis using Cons.IH Some x by (auto simp: bt_get_insert document_at_def)
  qed
qed simp

lemma finite_walk_operand:
  "finite paths \<Longrightarrow> finite (walk_operand e au pvv anc paths)"
  "finite paths \<Longrightarrow> finite (walk_operands es au pvv anc paths)"
  by (induction e au pvv anc paths and es au pvv anc paths rule: walk_operand_walk_operands.induct) (auto split: sum.splits)

lemma finite_discovered: "finite (discover_cross_document_paths c au pvv anc)"
proof -
  have "finite (walk_condition c au pvv anc paths)" if "finite paths" for paths
    using that by (induction c arbitrary: paths) (auto simp: finite_walk_operand)
  then show ?thesis by (simp add: discover_cross_document_paths_def)
qed

text \<open>What a rule sees: the caller, the stored fields, the fields of the request, the path variables, the time,
  and the stored documents at the paths it names.\<close>

definition sees ::
  "store_env \<Rightarrow> database \<Rightarrow> document_path \<Rightarrow> auth_context option \<Rightarrow> fields \<Rightarrow> fields \<Rightarrow> string btree_map \<Rightarrow> condition \<Rightarrow> eval_context \<Rightarrow> bool" where
  "sees env db p au res req anc c ctx \<longleftrightarrow>
     auth ctx = au \<and> resource_fields ctx = res \<and> request_resource_fields ctx = req \<and>
     path_variable_value ctx = Some (document_id p) \<and> ancestor_path_variable_values ctx = anc \<and>
     (\<forall>q \<in> discover_cross_document_paths c au (Some (document_id p)) anc.
        bt_get (cross_document_reads ctx) q = Some (document_at env (project_id p) db q))"

lemma reading_context_sees:
  assumes "reading_context env db p au res req anc t c = Inr ctx"
  shows "sees env db p au res req anc c ctx \<and> request_time ctx = Some (clock_field t)"
proof -
  obtain reads where "fetch_cross_document_reads env (project_id p) db
      (discover_cross_document_paths c au (Some (document_id p)) anc) = Inr reads"
    "ctx = rule_context au res req (Some (document_id p)) anc (Some t) reads"
    using assms by (auto simp: reading_context_def map_sum_Inr_iff)
  then show ?thesis
    using fetch_cross_reads_get finite_discovered
    by (simp add: sees_def rule_context_def fetch_cross_document_reads_def)
qed

section \<open>Governing rules\<close>

text \<open>The rule that governs a document, from the tables of rules: the rule of the collection; else the condition
  of the pattern of fixed depth that matches the collection; else the condition of the longest recursive
  pattern that reaches the document.\<close>

definition governs ::
  "(string \<times> string \<Rightarrow> string option) \<Rightarrow> (pattern_row \<Rightarrow> string option) \<Rightarrow> rules_db \<Rightarrow> string \<Rightarrow> string list \<Rightarrow> string \<Rightarrow>
     string \<Rightarrow> string btree_map \<Rightarrow> bool" where
  "governs table cond rdb pid cs d source anc \<longleftrightarrow>
     (table (pid, join ''/'' cs) = Some source \<and> anc = []) \<or>
     (table (pid, join ''/'' cs) = None \<and>
      (\<exists>r \<in> set (access_rule_patterns rdb). cond r = Some source \<and>
        ((fixed_matches pid cs r \<and> bind_ancestor (row_segs r) (lits cs) = Some anc) \<or>
         (recursive_matches pid (cs @ [d]) r \<and> (\<exists>m. bind_recursive_prefix (row_segs r) (lits (cs @ [d])) = Some (anc, m)) \<and>
          (\<forall>r' \<in> set (access_rule_patterns rdb). \<not> fixed_matches pid cs r' \<and>
             (recursive_matches pid (cs @ [d]) r' \<longrightarrow> r' = r \<or> length (row_segs r') < length (row_segs r)))))))"

lemma governing_pattern:
  assumes "patterns_ok rdb" and "plain_segments cs" and "length cs + 1 < 2 ^ 15"
    and "governs table cond rdb pid cs d source anc" and "table (pid, join ''/'' cs) = None"
  obtains r where "resolve_access_rule_pattern pid (join ''/'' cs) (Some d) rdb = Inr (Some (r, anc))" and "cond r = Some source"
proof -
  obtain res where res: "resolve_access_rule_pattern pid (join ''/'' cs) (Some d) rdb = Inr res"
    "case res of
       None \<Rightarrow> (\<forall>r \<in> set (access_rule_patterns rdb). \<not> fixed_matches pid cs r \<and>
         (\<forall>d'. Some d = Some d' \<longrightarrow> \<not> recursive_matches pid (cs @ [d']) r))
     | Some (r, b) \<Rightarrow> r \<in> set (access_rule_patterns rdb) \<and>
         (if \<not> row_is_recursive r then
            fixed_matches pid cs r \<and> bind_ancestor (row_segs r) (lits cs) = Some b \<and>
            (\<forall>r' \<in> set (access_rule_patterns rdb). fixed_matches pid cs r' \<longrightarrow> r' = r)
          else \<exists>d' m. Some d = Some d' \<and> recursive_matches pid (cs @ [d']) r \<and>
            bind_recursive_prefix (row_segs r) (lits (cs @ [d'])) = Some (b, m) \<and>
            (\<forall>r' \<in> set (access_rule_patterns rdb). \<not> fixed_matches pid cs r' \<and>
               (recursive_matches pid (cs @ [d']) r' \<longrightarrow> r' = r \<or> length (row_segs r') < length (row_segs r))))"
    using routing_result [OF assms(1-3), of pid "Some d"] by blast
  obtain r where r: "r \<in> set (access_rule_patterns rdb)" "cond r = Some source"
    "(fixed_matches pid cs r \<and> bind_ancestor (row_segs r) (lits cs) = Some anc) \<or>
     (recursive_matches pid (cs @ [d]) r \<and> (\<exists>m. bind_recursive_prefix (row_segs r) (lits (cs @ [d])) = Some (anc, m)) \<and>
      (\<forall>r' \<in> set (access_rule_patterns rdb). \<not> fixed_matches pid cs r' \<and>
         (recursive_matches pid (cs @ [d]) r' \<longrightarrow> r' = r \<or> length (row_segs r') < length (row_segs r))))"
    using assms(4,5) by (auto simp: governs_def)
  have "res = Some (r, anc)"
  proof (cases res)
    case None
    then show ?thesis using res(2) r by auto
  next
    case (Some x)
    obtain r' b where x: "x = (r', b)" by (cases x)
    show ?thesis
    proof (cases "row_is_recursive r'")
      case True
      then obtain m where r': "r' \<in> set (access_rule_patterns rdb)" "recursive_matches pid (cs @ [d]) r'"
        "bind_recursive_prefix (row_segs r') (lits (cs @ [d])) = Some (b, m)"
        "\<forall>r'' \<in> set (access_rule_patterns rdb). \<not> fixed_matches pid cs r'' \<and>
           (recursive_matches pid (cs @ [d]) r'' \<longrightarrow> r'' = r' \<or> length (row_segs r'') < length (row_segs r'))"
        using res(2) Some x by auto
      then have "r' = r" using r(1,3) by (metis less_asym)
      moreover have "\<not> fixed_matches pid cs r" using r'(4) r(1) by blast
      ultimately show ?thesis using r(3) r'(3) Some x by auto
    next
      case False
      then have r': "fixed_matches pid cs r'" "bind_ancestor (row_segs r') (lits cs) = Some b" "r' \<in> set (access_rule_patterns rdb)"
        "\<forall>r'' \<in> set (access_rule_patterns rdb). fixed_matches pid cs r'' \<longrightarrow> r'' = r'"
        using res(2) Some x by auto
      then have "fixed_matches pid cs r \<and> bind_ancestor (row_segs r) (lits cs) = Some anc" using r(3) by blast
      moreover from this have "r = r'" using r'(4) r(1) by blast
      ultimately show ?thesis using r'(2) Some x by simp
    qed
  qed
  then show ?thesis using that [of r] res(1) r(2) by simp
qed

text \<open>A caller is allowed when the rule holds of what it sees.\<close>

definition allowed ::
  "store_env \<Rightarrow> database \<Rightarrow> document_path \<Rightarrow> auth_context option \<Rightarrow> fields \<Rightarrow> fields \<Rightarrow> string btree_map \<Rightarrow> date_time \<Rightarrow> string \<Rightarrow> bool" where
  "allowed env db p au res req anc t source \<longleftrightarrow>
     (\<exists>c ctx. parse_condition source = Inr c \<and> sees env db p au res req anc c ctx \<and>
        request_time ctx = Some (clock_field t) \<and> evaluate c ctx = Allow)"

lemma decide_allowed:
  "decide r d source (reading_context env db p au res req anc t) = Inr u \<Longrightarrow> allowed env db p au res req anc t source"
  using reading_context_sees [of env db p au res req anc t] by (auto simp: decide_Inr allowed_def)

lemma enforced_read:
  assumes "patterns_ok rdb" and "plain_segments cs" and "length cs + 1 < 2 ^ 15"
    and "governs (access_rules rdb) row_read_condition rdb pid cs d source anc"
    and "p = \<lparr>project_id = pid, collection_path = join ''/'' cs, document_id = d\<rparr>"
    and "enforce_read_rule env rdb db au t pid p doc = Inr u"
  shows "allowed env db p au (stored_fields doc) [] anc t source"
proof (cases "access_rules rdb (pid, join ''/'' cs)")
  case (Some s)
  then have "s = source" "anc = []" using assms(4) by (auto simp: governs_def)
  then show ?thesis
    using assms(5,6) Some by (auto simp: enforce_read_rule_def get_access_rule_def intro: decide_allowed)
next
  case None
  obtain r where "resolve_access_rule_pattern pid (join ''/'' cs) (Some d) rdb = Inr (Some (r, anc))" "row_read_condition r = Some source"
    using governing_pattern [OF assms(1-4) None] .
  then show ?thesis
    using assms(5,6) None by (auto simp: enforce_read_rule_def get_access_rule_def intro: decide_allowed)
qed

section \<open>Reads\<close>

lemma read_document_error: "read_document env p db = Inl e \<Longrightarrow> core_error_to_status e = Status CInternal ''internal server error''"
  by (auto simp: read_document_def decode_fields_def rbind_Inl_iff ok_or_Inl_iff split: option.splits)

lemma current_document_error: "current_document env db p = Inl st \<Longrightarrow> status_code st = CInternal"
  by (cases "read_document env p db") (auto simp: current_document_def dest: read_document_error)

lemma fetch_cross_reads_error: "fetch_cross_reads env pid db ps acc = Inl st \<Longrightarrow> status_code st = CInternal"
proof (induction ps arbitrary: acc)
  case (Cons p ps)
  show ?case
  proof (cases "rsplit_once (CHR ''/'') p")
    case (Some x)
    then show ?thesis
      using Cons current_document_error [of env db] by (cases x) (auto simp: rbind_Inl_iff current_document_def)
  qed (use Cons in simp)
qed simp

lemma decide_error:
  assumes "decide r d source (reading_context env db p au res req anc t) = Inl st"
  shows "status_code st \<in> {CInternal, CPermissionDenied}"
proof -
  have "status_code e = CInternal" if "reading_context env db p au res req anc t c = Inl e" for c e
    using that by (auto simp: reading_context_def map_sum_Inl_iff fetch_cross_document_reads_def dest: fetch_cross_reads_error)
  then show ?thesis using assms by (auto simp: decide_def rbind_Inl_iff split: sum.splits if_splits)
qed

lemma enforce_read_error:
  assumes "patterns_ok rdb" and "plain_segments cs" and "length cs + 1 < 2 ^ 15"
    and "p = \<lparr>project_id = pid, collection_path = join ''/'' cs, document_id = d\<rparr>"
    and "governs (access_rules rdb) row_read_condition rdb pid cs d source anc"
    and "enforce_read_rule env rdb db au t pid p doc = Inl st"
  shows "status_code st \<in> {CInternal, CPermissionDenied}"
proof (cases "access_rules rdb (pid, join ''/'' cs)")
  case (Some s)
  then show ?thesis
    using assms(4,6) by (auto simp: enforce_read_rule_def get_access_rule_def dest: decide_error)
next
  case None
  obtain r where "resolve_access_rule_pattern pid (join ''/'' cs) (Some d) rdb = Inr (Some (r, anc))" "row_read_condition r = Some source"
    using governing_pattern [OF assms(1-3,5) None] .
  then show ?thesis
    using assms(4,6) None by (auto simp: enforce_read_rule_def get_access_rule_def dest: decide_error)
qed

lemma same_documents:
  assumes "documents db' = documents db"
  shows "read_document env p db' = read_document env p db" and "sees env db' p au res req anc c ctx = sees env db p au res req anc c ctx"
    and "allowed env db' p au res req anc t source = allowed env db p au res req anc t source"
proof -
  have read: "read_document env q db' = read_document env q db" for q
    using assms by (intro read_document_same) (simp add: live_row_def)
  show "read_document env p db' = read_document env p db" by (rule read)
  have "document_at env pid db' q = document_at env pid db q" for pid q
    by (simp add: document_at_def read split: option.split)
  then show seen: "sees env db' p au res req anc c ctx = sees env db p au res req anc c ctx" for p au res req anc c ctx
    by (simp add: sees_def)
  show "allowed env db' p au res req anc t source = allowed env db p au res req anc t source" by (simp add: allowed_def seen)
qed

lemma get_document_Inr: "get_document env now p txn db = (Inr doc, db') \<Longrightarrow> read_document env p db = Inr doc"
  by (auto simp: get_document_def split: option.splits sum.splits prod.splits)

lemma parse_document_path_project: "parse_document_path name = Inr p \<Longrightarrow> extract_project_id name = Inr (project_id p)"
  by (auto simp: parse_document_path_def rbind_Inr_iff Let_def project_id_new_def split: if_splits)


section \<open>Writes\<close>

text \<open>What a write rule sees. The stored documents at other paths are read for the rule of a collection only.\<close>

definition writes_seen ::
  "document_path \<Rightarrow> auth_context option \<Rightarrow> fields \<Rightarrow> fields \<Rightarrow> string btree_map \<Rightarrow> eval_context \<Rightarrow> bool" where
  "writes_seen p au res req anc ctx \<longleftrightarrow>
     auth ctx = au \<and> resource_fields ctx = res \<and> request_resource_fields ctx = req \<and>
     path_variable_value ctx = Some (document_id p) \<and> ancestor_path_variable_values ctx = anc"

definition write_allowed ::
  "document_path \<Rightarrow> auth_context option \<Rightarrow> fields \<Rightarrow> fields \<Rightarrow> string btree_map \<Rightarrow> string \<Rightarrow> bool" where
  "write_allowed p au res req anc source \<longleftrightarrow>
     (\<exists>c ctx. parse_condition source = Inr c \<and> writes_seen p au res req anc ctx \<and> evaluate c ctx = Allow)"

lemma writes_seen_rule_context [simp]: "writes_seen p au res req anc (rule_context au res req (Some (document_id p)) anc t reads)"
  by (simp add: writes_seen_def rule_context_def)

lemma reading_context_writes_seen: "reading_context env db p au res req anc t c = Inr ctx \<Longrightarrow> writes_seen p au res req anc ctx"
  by (auto simp: reading_context_def map_sum_Inr_iff)

lemma current_document_Inr: "current_document env db p = Inr doc \<longleftrightarrow> read_document env p db = Inr doc"
  by (cases "read_document env p db") (auto simp: current_document_def)

lemma enforced_write:
  assumes "patterns_ok rdb" and "plain_segments cs" and "length cs + 1 < 2 ^ 15"
    and "governs (write_access_rules rdb) row_write_condition rdb pid cs d source anc"
    and "p = \<lparr>project_id = pid, collection_path = join ''/'' cs, document_id = d\<rparr>"
    and "enforce_write_rule rdb pid p exact pattern = Inr u"
    and "\<And>c ctx. exact c = Inr ctx \<Longrightarrow> writes_seen p au res req [] ctx"
    and "\<And>a ctx. pattern a = Inr ctx \<Longrightarrow> writes_seen p au res req a ctx"
  shows "write_allowed p au res req anc source"
proof (cases "write_access_rules rdb (pid, join ''/'' cs)")
  case (Some s)
  then have "s = source" "anc = []" using assms(4) by (auto simp: governs_def)
  then show ?thesis
    using assms(5-7) Some by (auto simp: enforce_write_rule_def get_write_access_rule_def decide_Inr write_allowed_def)
next
  case None
  obtain r where "resolve_access_rule_pattern pid (join ''/'' cs) (Some d) rdb = Inr (Some (r, anc))" "row_write_condition r = Some source"
    using governing_pattern [OF assms(1-4) None] .
  then show ?thesis
    using assms(5,6,8) None by (auto simp: enforce_write_rule_def get_write_access_rule_def decide_Inr write_allowed_def)
qed

lemma guarded_done: "guarded check respond call db = (answer, db') \<Longrightarrow> is_ok answer \<or> db' \<noteq> db \<Longrightarrow> check = Inr ()"
  by (auto simp: guarded_def split: sum.splits)

lemma create_enforced:
  assumes "patterns_ok rdb" and "plain_segments cs" and "length cs + 1 < 2 ^ 15"
    and "governs (write_access_rules rdb) row_write_condition rdb pid cs d source anc"
    and "p = \<lparr>project_id = pid, collection_path = join ''/'' cs, document_id = d\<rparr>"
    and "create_target fresh parent cid did document = Inr (pid, p, fs)"
    and "handle_create_document env rdb au t now fresh parent cid did document db = (answer, db')"
    and "is_ok answer \<or> db' \<noteq> db"
  shows "write_allowed p au [] fs anc source"
proof -
  have "enforce_write_rule rdb pid p (reading_context env db p au [] fs [] t)
      (\<lambda>anc. Inr (rule_context au [] fs (Some (document_id p)) anc (Some t) [])) = Inr ()"
    using assms(7,8) by (intro guarded_done) (simp_all add: handle_create_document_def assms(6))
  then show ?thesis
    by (rule enforced_write [OF assms(1-5)]) (auto dest: reading_context_writes_seen)
qed

lemma update_enforced:
  assumes "patterns_ok rdb" and "plain_segments cs" and "length cs + 1 < 2 ^ 15"
    and "governs (write_access_rules rdb) row_write_condition rdb pid cs d source anc"
    and "p = \<lparr>project_id = pid, collection_path = join ''/'' cs, document_id = d\<rparr>"
    and "update_target doc = Inr (p, fs)"
    and "handle_update_document env rdb au t now doc pc db = (answer, db')"
    and "is_ok answer \<or> db' \<noteq> db"
    and "read_document env p db = Inr old"
  shows "write_allowed p au (stored_fields old) fs anc source"
proof -
  let ?exact = "\<lambda>c. rbind (current_document env db p) (\<lambda>doc. reading_context env db p au (stored_fields doc) fs [] t c)"
  let ?pattern = "\<lambda>anc. map_sum id (\<lambda>doc. rule_context au (stored_fields doc) fs (Some (document_id p)) anc (Some t) [])
    (current_document env db p)"
  have cur: "current_document env db p = Inr old" using assms(9) by (simp add: current_document_Inr)
  have "enforce_write_rule rdb (project_id p) p ?exact ?pattern = Inr ()"
    using assms(7,8) by (intro guarded_done) (simp_all add: handle_update_document_def assms(6))
  then have "enforce_write_rule rdb pid p ?exact ?pattern = Inr ()" using assms(5) by simp
  then show ?thesis
    by (rule enforced_write [OF assms(1-5)]) (auto simp: cur dest: reading_context_writes_seen)
qed

lemma delete_enforced:
  assumes "patterns_ok rdb" and "plain_segments cs" and "length cs + 1 < 2 ^ 15"
    and "governs (write_access_rules rdb) row_write_condition rdb pid cs d source anc"
    and "p = \<lparr>project_id = pid, collection_path = join ''/'' cs, document_id = d\<rparr>"
    and "parse_document_path name = Inr p"
    and "handle_delete_document env rdb au now name pc db = (answer, db')"
    and "is_ok answer \<or> db' \<noteq> db"
    and "read_document env p db = Inr old"
  shows "write_allowed p au (stored_fields old) [] anc source"
proof -
  let ?ctx = "\<lambda>anc. map_sum id (\<lambda>doc. rule_context au (stored_fields doc) [] (Some (document_id p)) anc None [])
    (current_document env db p)"
  have cur: "current_document env db p = Inr old" using assms(9) by (simp add: current_document_Inr)
  have "enforce_write_rule rdb (project_id p) p (\<lambda>_. ?ctx []) ?ctx = Inr ()"
    using assms(7,8) by (intro guarded_done) (simp_all add: handle_delete_document_def assms(6) Let_def)
  then have "enforce_write_rule rdb pid p (\<lambda>_. ?ctx []) ?ctx = Inr ()" using assms(5) by simp
  then show ?thesis by (rule enforced_write [OF assms(1-5)]) (auto simp: cur)
qed

text \<open>The single-document write requests, with what they ask for.\<close>

datatype write_request =
    CreateReq string string string string "(string \<times> proto_value) list option"
  | UpdateReq "(string \<times> (string \<times> proto_value) list) option" "proto_precondition option"
  | DeleteReq string "proto_precondition option"

fun handle_write ::
  "store_env \<Rightarrow> rules_db \<Rightarrow> auth_context option \<Rightarrow> date_time \<Rightarrow> date_time \<Rightarrow> write_request \<Rightarrow> database \<Rightarrow> (status, unit) result \<times> database" where
  "handle_write env rdb au t now (CreateReq fresh parent cid did document) db =
     map_prod (map_sum id (\<lambda>_. ())) id (handle_create_document env rdb au t now fresh parent cid did document db)"
| "handle_write env rdb au t now (UpdateReq document pc) db =
     map_prod (map_sum id (\<lambda>_. ())) id (handle_update_document env rdb au t now document pc db)"
| "handle_write env rdb au t now (DeleteReq name pc) db = handle_delete_document env rdb au now name pc db"

fun write_target :: "write_request \<Rightarrow> (status, document_path \<times> fields) result" where
  "write_target (CreateReq fresh parent cid did document) = map_sum id snd (create_target fresh parent cid did document)"
| "write_target (UpdateReq document pc) = update_target document"
| "write_target (DeleteReq name pc) = map_sum id (\<lambda>p. (p, [])) (parse_document_path name)"

definition rule_resource :: "write_request \<Rightarrow> firestore_document option \<Rightarrow> fields" where
  "rule_resource req old = (case req of CreateReq _ _ _ _ _ \<Rightarrow> [] | _ \<Rightarrow> stored_fields old)"

lemma create_target_project:
  "create_target fresh parent cid did document = Inr (pid, p, fs) \<Longrightarrow> pid = project_id p"
  by (auto simp: create_target_def rbind_Inr_iff project_id_new_def split: if_splits)

lemma is_ok_map_sum [simp]: "is_ok (map_sum f g r) = is_ok r"
  by (cases r) simp_all


section \<open>Commits and batches\<close>

fun operation_name :: "proto_operation \<Rightarrow> string" where
  "operation_name (OUpdate name fs) = name"
| "operation_name (ODelete name) = name"
| "operation_name (OTransform name fts) = name"

text \<open>The fields that the rule of a write sees as those of the request.\<close>

fun operation_fields :: "proto_operation \<Rightarrow> fields \<Rightarrow> fields option" where
  "operation_fields (OUpdate name fs) stored = proto_fields_to_domain fs"
| "operation_fields (ODelete name) stored = Some []"
| "operation_fields (OTransform name fts) stored = Some stored"

definition write_permitted :: "store_env \<Rightarrow> rules_db \<Rightarrow> database \<Rightarrow> auth_context option \<Rightarrow> string \<Rightarrow> proto_operation \<Rightarrow> bool" where
  "write_permitted env rdb db au pid op \<longleftrightarrow>
     (\<exists>p. parse_document_path (operation_name op) = Inr p \<and>
        (\<forall>source. write_access_rules rdb (pid, collection_path p) = Some source \<longrightarrow>
           (\<exists>old fs. read_document env p db = Inr old \<and> operation_fields op (stored_fields old) = Some fs \<and>
              write_allowed p au (stored_fields old) fs [] source)))"

lemma commit_rule_allowed:
  assumes "evaluate_write_rule_for_commit env rdb db au t pid p request = Inr u"
    and "write_access_rules rdb (pid, collection_path p) = Some source"
  shows "\<exists>old. read_document env p db = Inr old \<and>
    write_allowed p au (stored_fields old) (case request of Some fs \<Rightarrow> fs | None \<Rightarrow> stored_fields old) [] source"
  using assms
  by (auto simp: evaluate_write_rule_for_commit_def get_write_access_rule_def decide_Inr map_sum_Inr_iff
      current_document_Inr write_allowed_def Let_def) (metis writes_seen_rule_context)

lemma translated_write_permitted:
  assumes "translate_one_write_for_commit env rdb db au t pid w = Inr x" and "pw_operation w = Some op"
  shows "write_permitted env rdb db au pid op"
proof (cases op)
  case (OUpdate name fs)
  then obtain p fds where "parse_document_path name = Inr p" "proto_fields_to_domain fs = Some fds"
    "evaluate_write_rule_for_commit env rdb db au t pid p (Some fds) = Inr ()"
    using assms by (auto simp: translate_one_write_for_commit_def rbind_Inr_iff ok_or_Inr_iff Let_def)
  then show ?thesis using commit_rule_allowed OUpdate by (fastforce simp: write_permitted_def)
next
  case (ODelete name)
  then obtain p where "parse_document_path name = Inr p"
    "evaluate_write_rule_for_commit env rdb db au t pid p (Some []) = Inr ()"
    using assms by (auto simp: translate_one_write_for_commit_def rbind_Inr_iff Let_def)
  then show ?thesis using commit_rule_allowed ODelete by (fastforce simp: write_permitted_def)
next
  case (OTransform name fts)
  then obtain p where "parse_document_path name = Inr p"
    "evaluate_write_rule_for_commit env rdb db au t pid p None = Inr ()"
    using assms by (auto simp: translate_one_write_for_commit_def rbind_Inr_iff Let_def)
  then show ?thesis using commit_rule_allowed OTransform by (fastforce simp: write_permitted_def)
qed

lemma translated_writes_permitted:
  "translate_writes_for_commit env rdb db au pid ws = Inr dws \<Longrightarrow> (t, w) \<in> set ws \<Longrightarrow> pw_operation w = Some op \<Longrightarrow>
     write_permitted env rdb db au pid op"
proof (induction ws arbitrary: dws)
  case (Cons x ws)
  then show ?case by (cases x) (auto simp: rbind_Inr_iff dest: translated_write_permitted)
qed simp

lemma commit_documents_Inl: "commit_transaction env now now' pid tid ws db = Some (Inl e, db') \<Longrightarrow> documents db' = documents db"
  by (drule commit_Inl) auto


lemma commit_rule_patterns:
  "evaluate_write_rule_for_commit env (rdb\<lparr>access_rules := rs, access_rule_patterns := ps\<rparr>) = evaluate_write_rule_for_commit env rdb"
  by (simp add: fun_eq_iff evaluate_write_rule_for_commit_def get_write_access_rule_def)

lemma translate_one_patterns:
  "translate_one_write_for_commit env (rdb\<lparr>access_rules := rs, access_rule_patterns := ps\<rparr>) = translate_one_write_for_commit env rdb"
  by (intro ext) (simp only: translate_one_write_for_commit_def commit_rule_patterns)

lemma translate_writes_patterns:
  "translate_writes_for_commit env (rdb\<lparr>access_rules := rs, access_rule_patterns := ps\<rparr>) db au pid ws =
     translate_writes_for_commit env rdb db au pid ws"
  by (induction ws) (auto simp: translate_one_patterns)

lemma translate_catching_patterns:
  "translate_writes_catching env (rdb\<lparr>access_rules := rs, access_rule_patterns := ps\<rparr>) db au pid ws =
     translate_writes_catching env rdb db au pid ws"
  by (simp add: translate_writes_catching_def translate_one_patterns)

lemma batch_one_total: "batch_one env pid s tr db \<noteq> None"
  by (simp add: batch_one_def commit_total del: not_None_eq split: sum.split prod.split)

lemma batch_loop_total: "\<exists>rs db'. batch_loop env pid xs db = Some (rs, db') \<and> length rs = length xs"
proof (induction xs arbitrary: db)
  case (Cons x xs)
  obtain s tr where x: "x = (s, tr)" by (cases x)
  obtain r db1 where "batch_one env pid s tr db = Some (r, db1)" using batch_one_total [of env pid s tr db] by auto
  moreover obtain rs db2 where "batch_loop env pid xs db1 = Some (rs, db2)" "length rs = length xs" using Cons.IH by blast
  ultimately show ?case using x by simp
qed simp

lemma batch_one_status: "batch_one env pid s tr db = Some ((r, None), db') \<Longrightarrow> \<exists>w. tr = Inr w"
  by (auto simp: batch_one_def failed_write_def split: sum.splits prod.splits)

lemma batch_loop_status:
  "batch_loop env pid xs db = Some (rs, db') \<Longrightarrow> i < length xs \<Longrightarrow> snd (rs ! i) = None \<Longrightarrow> \<exists>w. snd (xs ! i) = Inr w"
proof (induction xs arbitrary: db rs i)
  case (Cons x xs)
  obtain s tr where x: "x = (s, tr)" by (cases x)
  obtain r db1 rs' where 1: "batch_one env pid s tr db = Some (r, db1)" and 2: "batch_loop env pid xs db1 = Some (rs', db')"
    and rs: "rs = r # rs'"
    using Cons.prems(1) x by (auto simp: Option.bind_eq_Some_conv)
  show ?case
  proof (cases i)
    case 0
    then show ?thesis using Cons.prems(3) rs x 1 batch_one_status by (cases r) auto
  next
    case (Suc j)
    then show ?thesis using Cons.IH [OF 2, of j] Cons.prems(2,3) rs by simp
  qed
qed simp

text \<open>
  A batch of at most 500 writes is always answered, with one result and one status per write in the
  order of the request; a write that is reported as successful had an operation and was permitted by the
  write rule of its collection.
\<close>

theorem batch_write_enforced:
  assumes "extract_project_id database = Inr pid" and "length ws \<le> 500"
  shows "\<exists>rs db'. handle_batch_write env rdb au database ws db = Some (Inr rs, db') \<and> length rs = length ws \<and>
    (\<forall>i < length ws. snd (rs ! i) = None \<longrightarrow>
       (\<exists>op. pw_operation (snd (snd (ws ! i))) = Some op \<and> write_permitted env rdb db au pid op))"
proof (cases "ws = []")
  case True
  then show ?thesis using assms(1) by (simp add: handle_batch_write_def)
next
  case False
  have pid: "project_id_new pid = Inr pid"
    using assms(1) by (auto simp: extract_project_id_def project_id_new_def split: list.splits if_splits)
  let ?trs = "translate_writes_catching env rdb db au pid (map snd ws)"
  let ?xs = "zip (map fst ws) ?trs"
  have len: "length ?trs = length ws" by (simp add: translate_writes_catching_def)
  obtain rs db' where loop: "batch_loop env pid ?xs db = Some (rs, db')" "length rs = length ws"
    using batch_loop_total [of env pid ?xs db] len by auto
  have "\<exists>op. pw_operation (snd (snd (ws ! i))) = Some op \<and> write_permitted env rdb db au pid op"
    if i: "i < length ws" and st: "snd (rs ! i) = None" for i
  proof -
    obtain s t w where w: "ws ! i = (s, t, w)" by (cases "ws ! i")
    obtain dw where "?trs ! i = Inr dw" using batch_loop_status [OF loop(1), of i] i st len by auto
    then obtain x where x: "translate_one_write_for_commit env rdb db au t pid w = Inr (Some x)"
      using i w by (auto simp: translate_writes_catching_def rbind_Inr_iff ok_or_Inr_iff)
    then obtain op where "pw_operation w = Some op"
      by (cases "pw_operation w") (auto simp: translate_one_write_for_commit_def)
    then show ?thesis using translated_write_permitted [OF x] w by simp
  qed
  then show ?thesis
    using assms False pid loop by (simp add: handle_batch_write_def)
qed

text \<open>
  Commits and batches look at the write rules of collections only. Whatever patterns and read rules are
  stored, \<open>Commit\<close> and \<open>BatchWrite\<close> do the same: a pattern that denies a write through \<open>UpdateDocument\<close> does not
  deny it through a commit.
\<close>

theorem commit_ignores_patterns:
  "handle_commit env (rdb\<lparr>access_rules := rs, access_rule_patterns := ps\<rparr>) au now now' database tid ws db =
     handle_commit env rdb au now now' database tid ws db \<and>
   handle_batch_write env (rdb\<lparr>access_rules := rs, access_rule_patterns := ps\<rparr>) au database bs db =
     handle_batch_write env rdb au database bs db"
  unfolding handle_commit_def handle_batch_write_def translate_writes_patterns translate_catching_patterns by simp

section \<open>Batched reads\<close>

lemma batch_get_loop_spec:
  assumes "batch_get_loop env rdb au pid txn names db = (Inr items, db')"
  shows "documents db' = documents db \<and> length items = length names \<and>
    (\<forall>i < length names. \<exists>p doc. parse_document_path (snd (names ! i)) = Inr p \<and> read_document env p db = Inr doc \<and>
       batch_decision rdb au pid p (snd (names ! i)) doc = Inr (items ! i))"
  using assms
proof (induction names arbitrary: db items)
  case (Cons x names)
  obtain now name where x: "x = (now, name)" by (cases x)
  obtain p where p: "parse_document_path name = Inr p" using Cons.prems x by (cases "parse_document_path name") auto
  obtain r db1 where get: "get_document env now p txn db = (r, db1)" by fastforce
  obtain doc where doc: "r = Inr doc" using Cons.prems x p get by (cases r) auto
  obtain item where item: "batch_decision rdb au pid p name doc = Inr item"
    using Cons.prems x p get doc by (cases "batch_decision rdb au pid p name doc") auto
  obtain items' where rest: "batch_get_loop env rdb au pid txn names db1 = (Inr items', db')" and items: "items = item # items'"
    using Cons.prems x p get doc item
    by (cases "batch_get_loop env rdb au pid txn names db1") (auto simp: map_sum_Inr_iff)
  have docs: "documents db1 = documents db" using get_document_documents [OF get] .
  have read: "read_document env p db = Inr doc" using get doc by (simp add: get_document_Inr)
  have "\<exists>p doc. parse_document_path (snd ((x # names) ! i)) = Inr p \<and> read_document env p db = Inr doc \<and>
      batch_decision rdb au pid p (snd ((x # names) ! i)) doc = Inr (items ! i)" if "i < length (x # names)" for i
  proof (cases i)
    case 0
    then show ?thesis using p read item x items by auto
  next
    case (Suc j)
    then show ?thesis using Cons.IH [OF rest] that items same_documents(1) [OF docs] by auto
  qed
  then show ?case using Cons.IH [OF rest] docs items by simp
qed simp

lemma batch_decision_found:
  assumes "batch_decision rdb au pid p name doc = Inr item"
  shows "case item of
      BFound x \<Rightarrow> \<exists>d. doc = Some d \<and> x = document_to_proto d \<and>
        (\<forall>source. access_rules rdb (pid, collection_path p) = Some source \<longrightarrow>
           (\<exists>c. parse_condition source = Inr c \<and> evaluate c (rule_context au (doc_fields d) [] None [] None []) = Allow))
    | BMissing n \<Rightarrow> n = name"
  using assms
  by (cases "access_rules rdb (pid, collection_path p)"; cases doc)
    (auto simp: batch_decision_def get_access_rule_def stored_fields_def Let_def split: sum.splits if_splits)

text \<open>
  The answers of \<open>BatchGetDocuments\<close> are one per name, in the order of the request. A document is found
  only if it is the stored one and the read rule of its collection, if there is one, holds of its fields for
  this caller; a document that the rule hides is reported exactly as one that does not exist.
\<close>

theorem batch_get_enforced:
  assumes "handle_batch_get_documents env rdb au database txn names db = (Inr items, db')" and "extract_project_id database = Inr pid"
  shows "documents db' = documents db \<and> length items = length names \<and>
    (\<forall>i < length names. \<exists>p doc. parse_document_path (snd (names ! i)) = Inr p \<and> project_id p = pid \<and> read_document env p db = Inr doc \<and>
       (case items ! i of
          BFound x \<Rightarrow> \<exists>d. doc = Some d \<and> x = document_to_proto d \<and>
            (\<forall>source. access_rules rdb (pid, collection_path p) = Some source \<longrightarrow>
               (\<exists>c. parse_condition source = Inr c \<and> evaluate c (rule_context au (doc_fields d) [] None [] None []) = Allow))
        | BMissing name \<Rightarrow> name = snd (names ! i)))"
proof -
  have loop: "batch_get_loop env rdb au pid txn names db = (Inr items, db')"
    and projects: "check_projects pid (map snd names) = Inr ()"
    using assms
    by (cases "names = []"; cases "1000 < length names"; cases "check_projects pid (map snd names)";
        simp add: handle_batch_get_documents_def)+
  have same: "project_id p = pid" if "name \<in> set (map snd names)" "parse_document_path name = Inr p" for name p
    using projects that
  proof (induction names)
    case (Cons x xs)
    then show ?case by (auto simp: rbind_Inr_iff dest: parse_document_path_project split: if_splits)
  qed simp
  note spec = batch_get_loop_spec [OF loop]
  have "\<exists>p doc. parse_document_path (snd (names ! i)) = Inr p \<and> project_id p = pid \<and> read_document env p db = Inr doc \<and>
       (case items ! i of
          BFound x \<Rightarrow> \<exists>d. doc = Some d \<and> x = document_to_proto d \<and>
            (\<forall>source. access_rules rdb (pid, collection_path p) = Some source \<longrightarrow>
               (\<exists>c. parse_condition source = Inr c \<and> evaluate c (rule_context au (doc_fields d) [] None [] None []) = Allow))
        | BMissing name \<Rightarrow> name = snd (names ! i))" if i: "i < length names" for i
  proof -
    obtain p doc where p: "parse_document_path (snd (names ! i)) = Inr p" "read_document env p db = Inr doc"
      "batch_decision rdb au pid p (snd (names ! i)) doc = Inr (items ! i)"
      using spec i by blast
    have "project_id p = pid" using same [OF _ p(1)] i by simp
    then show ?thesis using p batch_decision_found [OF p(3)] by blast
  qed
  then show ?thesis using spec by blast
qed

section \<open>Examples\<close>

definition signed_in :: "auth_context option" where
  "signed_in = Some \<lparr>uid = ''u'', claims = []\<rparr>"

definition nested_path :: document_path where
  "nested_path = \<lparr>project_id = ''app'', collection_path = ''a/x/c'', document_id = ''y''\<rparr>"

definition nested_name :: string where
  "nested_name = ''projects/app/databases/(default)/documents/a/x/c/y''"

definition nested_db :: database where
  "nested_db = snd (create_document example_env (8, 0) nested_path [(''n'', FInteger 1)] empty_db)"

lemma nested_segments: "plain_segments [''a'', ''x'', ''c'']" "join ''/'' [''a'', ''x'', ''c''] = ''a/x/c''"
  by (simp_all add: plain_segments_def)

lemma nested_target: "parse_document_path nested_name = Inr nested_path"
  by code_simp

lemma nested_governs:
  "governs (access_rules example_rules) row_read_condition example_rules ''app'' [''a'', ''x'', ''c''] ''y''
     ''request.auth != null'' [(''b'', ''x'')]"
proof -
  let ?r = "access_rule_patterns example_rules ! 0"
  have "fixed_matches ''app'' [''a'', ''x'', ''c''] ?r" "?r \<in> set (access_rule_patterns example_rules)"
    "row_read_condition ?r = Some ''request.auth != null''" "access_rules example_rules = (\<lambda>_. None)"
    "bind_ancestor (row_segs ?r) (lits [''a'', ''x'', ''c'']) = Some [(''b'', ''x'')]"
    by (simp_all add: fixed_matches_def example_rules_def row_segs_def row_parse_def example_segments instance_of_def lits_def
        bind_ancestor_def)
  then show ?thesis unfolding governs_def by metis
qed


definition nested_rules :: rules_db where
  "nested_rules = example_rules\<lparr>write_access_rules := [(''app'', ''a/x/c'') \<mapsto> ''request.auth != null'']\<rparr>"


definition users_rules :: rules_db where
  "users_rules = example_rules\<lparr>write_access_rules := [(''p'', ''users'') \<mapsto> ''request.auth != null''],
     access_rules := [(''p'', ''users'') \<mapsto> ''resource.data.n == 1'']\<rparr>"

definition ann_write :: proto_write where
  "ann_write = \<lparr>pw_operation = Some (OUpdate ''projects/p/databases/(default)/documents/users/ann'' [(''n'', PInteger 2)]),
     pw_current_document = Some (PcExists True), pw_update_transforms = []\<rparr>"


theorem batch_write_enforced_witness:
  "\<exists>rs db'. handle_batch_write example_env users_rules signed_in ''projects/p/databases/(default)''
     [(\<lparr>step_id = replicate 16 1, step_begin = (9, 0), step_commit = (9, 0), step_apply = (9, 1500)\<rparr>, (9, 0), ann_write)] example_db =
       Some (Inr rs, db') \<and> length rs = 1"
proof -
  have p: "extract_project_id ''projects/p/databases/(default)'' = Inr ''p''" by code_simp
  show ?thesis using batch_write_enforced [OF p, of "[(_, _, ann_write)]"] by fastforce
qed

theorem batch_get_enforced_witness:
  "\<exists>x db'. handle_batch_get_documents example_env users_rules None ''projects/p/databases/(default)'' None
     [((9, 0), ''projects/p/databases/(default)/documents/users/ann'')] example_db = (Inr [BFound x], db') \<and>
     documents db' = documents example_db"
proof -
  let ?h = "handle_batch_get_documents example_env users_rules None ''projects/p/databases/(default)'' None
     [((9, 0), ''projects/p/databases/(default)/documents/users/ann'')] example_db"
  have p: "extract_project_id ''projects/p/databases/(default)'' = Inr ''p''" by code_simp
  have "case fst ?h of Inr [BFound x] \<Rightarrow> True | _ \<Rightarrow> False" by code_simp
  then obtain x where h: "fst ?h = Inr [BFound x]" by (auto split: sum.splits list.splits batch_item.splits)
  then have "?h = (Inr [BFound x], snd ?h)" by (metis prod.collapse)
  then show ?thesis using batch_get_enforced [OF _ p] by blast
qed

end
