(* ===== verification/Listen_Registry.thy ===== *)
theory Listen_Registry
  imports Prelude
begin

text \<open>
  The fan-out of change events, \<open>embyr-server/src/realtime/listen_registry.rs\<close>. A subscriber is a bounded
  channel with a reset notifier; the registry keeps, for each notify channel, the senders of its subscribers.
  Registration, fan-out, reception and the end of a subscription interleave; each holds the lock of the
  registry or acts on one channel, so that they are the steps of a transition system.
\<close>

section \<open>Channels and registry\<close>

definition channel_capacity :: nat where
  "channel_capacity = 64"

record 'e subscriber_channel =
  sc_queue :: "'e list"
  sc_reset :: bool
  sc_open :: bool

record 'e registry =
  subscribers :: "string \<Rightarrow> nat list"
  channels :: "nat \<Rightarrow> 'e subscriber_channel"
  next_subscriber :: nat

definition empty_registry :: "'e registry" where
  "empty_registry = \<lparr>subscribers = (\<lambda>_. []), channels = (\<lambda>_. \<lparr>sc_queue = [], sc_reset = False, sc_open = False\<rparr>), next_subscriber = 0\<rparr>"

definition register :: "string \<Rightarrow> 'e registry \<Rightarrow> nat \<times> 'e registry" where
  "register ch reg =
     (let i = next_subscriber reg in
      (i, \<lparr>subscribers = (subscribers reg)(ch := subscribers reg ch @ [i]),
           channels = (channels reg)(i := \<lparr>sc_queue = [], sc_reset = False, sc_open = True\<rparr>),
           next_subscriber = i + 1\<rparr>))"

text \<open>One subscriber in the \<open>retain\<close> of \<open>fan_out\<close>: whether it stays, and its channel afterwards.\<close>

definition offer :: "'e \<Rightarrow> 'e subscriber_channel \<Rightarrow> bool \<times> 'e subscriber_channel" where
  "offer e c =
     (if length (sc_queue c) = channel_capacity then (False, c\<lparr>sc_reset := True\<rparr>)
      else if \<not> sc_open c then (False, c)
      else (True, c\<lparr>sc_queue := sc_queue c @ [e]\<rparr>))"

fun retain_loop :: "'e \<Rightarrow> nat list \<Rightarrow> (nat \<Rightarrow> 'e subscriber_channel) \<Rightarrow> nat list \<times> (nat \<Rightarrow> 'e subscriber_channel)" where
  "retain_loop e [] cs = ([], cs)"
| "retain_loop e (i # is) cs =
     (let (stays, c) = offer e (cs i); (rest, cs') = retain_loop e is (cs(i := c))
      in (if stays then i # rest else rest, cs'))"

definition fan_out :: "string \<Rightarrow> 'e \<Rightarrow> 'e registry \<Rightarrow> 'e registry" where
  "fan_out ch e reg =
     (let (rest, cs) = retain_loop e (subscribers reg ch) (channels reg)
      in reg\<lparr>subscribers := (subscribers reg)(ch := rest), channels := cs\<rparr>)"

text \<open>The receiving side: taking the next event, and dropping the receiver.\<close>

definition recv :: "nat \<Rightarrow> 'e registry \<Rightarrow> ('e \<times> 'e registry) option" where
  "recv i reg =
     (let c = channels reg i in
      case sc_queue c of
        [] \<Rightarrow> None
      | e # es \<Rightarrow> if sc_open c then Some (e, reg\<lparr>channels := (channels reg)(i := c\<lparr>sc_queue := es\<rparr>)\<rparr>) else None)"

definition drop_receiver :: "nat \<Rightarrow> 'e registry \<Rightarrow> 'e registry" where
  "drop_receiver i reg = reg\<lparr>channels := (channels reg)(i := (channels reg i)\<lparr>sc_open := False\<rparr>)\<rparr>"

section \<open>Interleavings\<close>

text \<open>A run of the system, with what each subscriber has received and what was published on its channel since
  it registered.\<close>

record 'e listen_world =
  lw_registry :: "'e registry"
  lw_channel :: "nat \<Rightarrow> string"
  lw_received :: "nat \<Rightarrow> 'e list"
  lw_published :: "nat \<Rightarrow> 'e list"

inductive listen_step :: "'e listen_world \<Rightarrow> 'e listen_world \<Rightarrow> bool" where
  registers: "register ch (lw_registry w) = (i, reg) \<Longrightarrow>
     listen_step w (w\<lparr>lw_registry := reg, lw_channel := (lw_channel w)(i := ch),
       lw_received := (lw_received w)(i := []), lw_published := (lw_published w)(i := [])\<rparr>)"
| publishes: "listen_step w (w\<lparr>lw_registry := fan_out ch e (lw_registry w),
     lw_published := (\<lambda>i. if i < next_subscriber (lw_registry w) \<and> lw_channel w i = ch
       then lw_published w i @ [e] else lw_published w i)\<rparr>)"
| receives: "recv i (lw_registry w) = Some (e, reg) \<Longrightarrow>
     listen_step w (w\<lparr>lw_registry := reg, lw_received := (lw_received w)(i := lw_received w i @ [e])\<rparr>)"
| drops: "listen_step w (w\<lparr>lw_registry := drop_receiver i (lw_registry w)\<rparr>)"

definition start_world :: "'e listen_world" where
  "start_world = \<lparr>lw_registry = empty_registry, lw_channel = (\<lambda>_. []), lw_received = (\<lambda>_. []), lw_published = (\<lambda>_. [])\<rparr>"

definition reachable_world :: "'e listen_world \<Rightarrow> bool" where
  "reachable_world w \<longleftrightarrow> listen_step\<^sup>*\<^sup>* start_world w"

section \<open>Invariant\<close>

text \<open>What holds of a subscriber: its queue is bounded; what it has received and what waits is a prefix of what
  was published; and while its receiver is open, either nothing is missing and it is registered, or it has
  been told to reset.\<close>

definition subscriber_ok :: "'e listen_world \<Rightarrow> nat \<Rightarrow> bool" where
  "subscriber_ok w i \<longleftrightarrow>
     (let reg = lw_registry w; c = channels reg i; known = lw_received w i @ sc_queue c in
      length (sc_queue c) \<le> channel_capacity \<and>
      (\<exists>missed. lw_published w i = known @ missed) \<and>
      (sc_open c \<longrightarrow> sc_reset c \<or> (lw_published w i = known \<and> i \<in> set (subscribers reg (lw_channel w i)))))"

definition world_ok :: "'e listen_world \<Rightarrow> bool" where
  "world_ok w \<longleftrightarrow>
     (let reg = lw_registry w in
      (\<forall>ch. distinct (subscribers reg ch) \<and>
         (\<forall>i \<in> set (subscribers reg ch). i < next_subscriber reg \<and> lw_channel w i = ch \<and>
            (sc_open (channels reg i) \<longrightarrow> \<not> sc_reset (channels reg i)))) \<and>
      (\<forall>i < next_subscriber reg. subscriber_ok w i))"

lemma retain_loop_eq:
  "distinct is \<Longrightarrow> retain_loop e is cs =
     (filter (\<lambda>i. fst (offer e (cs i))) is, \<lambda>i. if i \<in> set is then snd (offer e (cs i)) else cs i)"
proof (induction "is" arbitrary: cs)
  case (Cons i "is")
  obtain stays c where o: "offer e (cs i) = (stays, c)" by fastforce
  have same: "filter (\<lambda>j. fst (offer e ((cs(i := c)) j))) is = filter (\<lambda>j. fst (offer e (cs j))) is"
    using Cons.prems by (intro filter_cong) auto
  have "retain_loop e is (cs(i := c)) =
      (filter (\<lambda>j. fst (offer e (cs j))) is, \<lambda>j. if j \<in> set is then snd (offer e ((cs(i := c)) j)) else (cs(i := c)) j)"
    using Cons.IH [of "cs(i := c)"] Cons.prems unfolding same by (metis distinct.simps(2))
  then show ?case using o Cons.prems by (auto simp: fun_eq_iff)
qed simp

lemma fan_out_eq:
  assumes "distinct (subscribers reg ch)"
  shows "fan_out ch e reg = reg\<lparr>
      subscribers := (subscribers reg)(ch := filter (\<lambda>i. fst (offer e (channels reg i))) (subscribers reg ch)),
      channels := \<lambda>i. if i \<in> set (subscribers reg ch) then snd (offer e (channels reg i)) else channels reg i\<rparr>"
  by (simp add: fan_out_def retain_loop_eq [OF assms])

lemma world_ok_start: "world_ok start_world"
  by (simp add: world_ok_def start_world_def empty_registry_def)

lemma world_ok_registers:
  assumes "world_ok w" and "register ch (lw_registry w) = (i, reg)"
  shows "world_ok (w\<lparr>lw_registry := reg, lw_channel := (lw_channel w)(i := ch),
       lw_received := (lw_received w)(i := []), lw_published := (lw_published w)(i := [])\<rparr>)" (is "world_ok ?w")
proof -
  let ?reg = "lw_registry w"
  have i: "i = next_subscriber ?reg" and reg: "reg = \<lparr>subscribers = (subscribers ?reg)(ch := subscribers ?reg ch @ [i]),
           channels = (channels ?reg)(i := \<lparr>sc_queue = [], sc_reset = False, sc_open = True\<rparr>), next_subscriber = i + 1\<rparr>"
    using assms(2) by (auto simp: register_def Let_def)
  have old: "distinct (subscribers ?reg c)" "j \<in> set (subscribers ?reg c) \<Longrightarrow> j < i \<and> lw_channel w j = c \<and>
      (sc_open (channels ?reg j) \<longrightarrow> \<not> sc_reset (channels ?reg j))" for c j
    using assms(1) i by (auto simp: world_ok_def Let_def)
  have "subscriber_ok ?w j" if "j < i" for j
  proof -
    have "subscriber_ok w j" using assms(1) that i by (simp add: world_ok_def Let_def)
    then show ?thesis using that by (auto simp: subscriber_ok_def Let_def reg)
  qed
  moreover have "subscriber_ok ?w i" by (simp add: subscriber_ok_def Let_def reg)
  ultimately have "\<forall>j < next_subscriber reg. subscriber_ok ?w j" by (auto simp: reg less_Suc_eq)
  moreover have "distinct (subscribers reg c)" for c using old(1) [of c] old(2) [of i c] by (auto simp: reg)
  moreover have "j < next_subscriber reg \<and> lw_channel ?w j = c \<and> (sc_open (channels reg j) \<longrightarrow> \<not> sc_reset (channels reg j))"
    if "j \<in> set (subscribers reg c)" for c j
    using that old(2) [of j c] by (auto simp: reg split: if_splits)
  ultimately show ?thesis by (simp add: world_ok_def Let_def)
qed

lemma world_ok_publishes:
  assumes "world_ok w"
  shows "world_ok (w\<lparr>lw_registry := fan_out ch e (lw_registry w),
     lw_published := (\<lambda>i. if i < next_subscriber (lw_registry w) \<and> lw_channel w i = ch
       then lw_published w i @ [e] else lw_published w i)\<rparr>)" (is "world_ok ?w")
proof -
  let ?reg = "lw_registry w" and ?reg' = "fan_out ch e (lw_registry w)"
  have old: "distinct (subscribers ?reg c)" "j \<in> set (subscribers ?reg c) \<Longrightarrow> j < next_subscriber ?reg \<and> lw_channel w j = c \<and>
      (sc_open (channels ?reg j) \<longrightarrow> \<not> sc_reset (channels ?reg j))" for c j
    using assms by (auto simp: world_ok_def Let_def)
  note f = fan_out_eq [OF old(1) [of ch], of e]
  have "subscriber_ok ?w j" if "j < next_subscriber ?reg" for j
  proof -
    have ok: "subscriber_ok w j" using assms that by (simp add: world_ok_def Let_def)
    show ?thesis
      using ok that old(2) [of j ch] by (auto simp: subscriber_ok_def Let_def f offer_def channel_capacity_def)
  qed
  moreover have "next_subscriber ?reg' = next_subscriber ?reg" by (simp add: f)
  moreover have "distinct (subscribers ?reg' c)" for c using old(1) by (simp add: f)
  moreover have "j < next_subscriber ?reg \<and> lw_channel ?w j = c \<and> (sc_open (channels ?reg' j) \<longrightarrow> \<not> sc_reset (channels ?reg' j))"
    if "j \<in> set (subscribers ?reg' c)" for c j
    using that old(2) [of j c] old(2) [of j ch] by (auto simp: f offer_def split: if_splits)
  ultimately show ?thesis by (simp add: world_ok_def Let_def)
qed

lemma world_ok_receives:
  assumes "world_ok w" and "recv i (lw_registry w) = Some (e, reg)"
  shows "world_ok (w\<lparr>lw_registry := reg, lw_received := (lw_received w)(i := lw_received w i @ [e])\<rparr>)" (is "world_ok ?w")
proof -
  let ?reg = "lw_registry w"
  obtain es where q: "sc_queue (channels ?reg i) = e # es" and o: "sc_open (channels ?reg i)"
    and reg: "reg = ?reg\<lparr>channels := (channels ?reg)(i := (channels ?reg i)\<lparr>sc_queue := es\<rparr>)\<rparr>"
    using assms(2) by (auto simp: recv_def Let_def split: list.splits if_splits)
  have "subscriber_ok ?w j" if "j < next_subscriber ?reg" for j
  proof -
    have "subscriber_ok w j" using assms(1) that by (simp add: world_ok_def Let_def)
    then show ?thesis using q o by (auto simp: subscriber_ok_def Let_def reg)
  qed
  then show ?thesis using assms(1) by (auto simp: world_ok_def Let_def reg)
qed

lemma world_ok_drops:
  assumes "world_ok w"
  shows "world_ok (w\<lparr>lw_registry := drop_receiver i (lw_registry w)\<rparr>)" (is "world_ok ?w")
proof -
  have "subscriber_ok ?w j" if "j < next_subscriber (lw_registry w)" for j
  proof -
    have "subscriber_ok w j" using assms that by (simp add: world_ok_def Let_def)
    then show ?thesis by (auto simp: subscriber_ok_def Let_def drop_receiver_def)
  qed
  then show ?thesis using assms by (auto simp: world_ok_def Let_def drop_receiver_def)
qed

lemma listen_step_ok: "listen_step w w' \<Longrightarrow> world_ok w \<Longrightarrow> world_ok w'"
  by (induction rule: listen_step.induct)
    (auto intro: world_ok_registers world_ok_publishes world_ok_receives world_ok_drops)

lemma reachable_ok: "reachable_world w \<Longrightarrow> world_ok w"
  unfolding reachable_world_def
  by (induction rule: rtranclp_induct) (auto intro: world_ok_start listen_step_ok)

text \<open>
  C10: no event is lost without a reset. In every interleaving of registrations, publications, receptions and
  ended subscriptions, what a subscriber has received, followed by what waits in its channel, is a prefix of
  the events published on its channel since it registered, in their order and without repetition; as long as
  its receiver is open, it has been told to reset or nothing is missing and it stays registered. At most 64
  events wait.
\<close>

theorem no_silent_loss:
  assumes "reachable_world w" and "i < next_subscriber (lw_registry w)"
  shows "length (sc_queue (channels (lw_registry w) i)) \<le> 64 \<and>
    (\<exists>missed. lw_published w i = lw_received w i @ sc_queue (channels (lw_registry w) i) @ missed \<and>
      (sc_open (channels (lw_registry w) i) \<and> \<not> sc_reset (channels (lw_registry w) i) \<longrightarrow>
        missed = [] \<and> i \<in> set (subscribers (lw_registry w) (lw_channel w i))))"
proof -
  have "subscriber_ok w i" using reachable_ok [OF assms(1)] assms(2) by (simp add: world_ok_def Let_def)
  then show ?thesis by (fastforce simp: subscriber_ok_def Let_def channel_capacity_def)
qed

definition busy_world :: "nat listen_world" where
  "busy_world = (let reg = snd (register ''dc'' empty_registry) in
     \<lparr>lw_registry = fan_out ''dc'' 7 reg, lw_channel = (\<lambda>_. [])(0 := ''dc''), lw_received = (\<lambda>_. [])(0 := []),
      lw_published = (\<lambda>i. if i < 1 \<and> ((\<lambda>_. [])(0 := ''dc'')) i = ''dc'' then [] @ [7] else [])\<rparr>)"

theorem no_silent_loss_witness:
  "reachable_world busy_world \<and> sc_queue (channels (lw_registry busy_world) 0) = [7] \<and> lw_published busy_world 0 = [7]"
proof -
  let ?w = "start_world\<lparr>lw_registry := snd (register ''dc'' empty_registry), lw_channel := (\<lambda>_. [])(0 := ''dc''),
      lw_received := (\<lambda>_. [])(0 := []), lw_published := (\<lambda>_. [])(0 := [])\<rparr> :: nat listen_world"
  have "listen_step start_world ?w"
    using listen_step.registers [of "''dc''" "start_world :: nat listen_world" 0 "snd (register ''dc'' empty_registry)"]
    by (simp add: start_world_def register_def empty_registry_def Let_def)
  moreover have "listen_step ?w busy_world"
    using listen_step.publishes [of ?w "''dc''" 7]
    by (simp add: busy_world_def start_world_def register_def empty_registry_def Let_def cong: if_cong)
  ultimately have r: "reachable_world busy_world"
    unfolding reachable_world_def by (meson converse_rtranclp_into_rtranclp rtranclp.rtrancl_refl)
  have "sc_queue (channels (lw_registry busy_world) 0) = [7]" "sc_open (channels (lw_registry busy_world) 0)"
    "\<not> sc_reset (channels (lw_registry busy_world) 0)" "lw_received busy_world 0 = []" "0 < next_subscriber (lw_registry busy_world)"
    by (simp_all add: busy_world_def register_def empty_registry_def Let_def fan_out_def offer_def channel_capacity_def)
  then show ?thesis using no_silent_loss [OF r, of 0] r by auto
qed

end
