(* ===== verification/Listen.thy ===== *)
theory Listen
  imports Query_Request Enforcement Listen_Registry
begin

text \<open>
  Listening to a query: the resume tokens of \<open>embyr-server/src/realtime/resume_token.rs\<close> and the session
  \<open>handle_add_target\<close> of \<open>realtime/listen_handler.rs\<close>: the check at subscription, the initial snapshot, and the
  check of each event. Events reach the session through the registry. The rules database is read at
  subscription and, where no rule was found then, at each event; it is an argument of both.
\<close>

section \<open>Resume tokens\<close>

definition to_be_bytes :: "i64 \<Rightarrow> u8 list" where
  "to_be_bytes w = map (\<lambda>i. ucast (drop_bit (8 * i) w)) (rev [0..<8])"

definition from_be_bytes :: "u8 list \<Rightarrow> i64" where
  "from_be_bytes bs = foldl (\<lambda>a b. push_bit 8 a + ucast b) 0 bs"

definition encode_token :: "date_time \<Rightarrow> u8 list" where
  "encode_token t = to_be_bytes (fst t)"

definition decode_ts :: "store_env \<Rightarrow> u8 list \<Rightarrow> date_time option" where
  "decode_ts env token =
     (if length token < 8 then None
      else let s = from_be_bytes (take 8 token) in if chrono_seconds env s then Some (s, 0) else None)"

definition is_stale :: "store_env \<Rightarrow> date_time \<Rightarrow> u8 list \<Rightarrow> bool" where
  "is_stale env now token =
     (case decode_ts env token of Some ts \<Rightarrow> 24 * 3600 * 10 ^ 9 < time_ns now - time_ns ts | None \<Rightarrow> True)"

section \<open>Subscription\<close>

datatype listen_target_type = LQuery string "proto_query option" | LOther

record listen_target =
  lt_target_id :: i32
  lt_type :: "listen_target_type option"

definition project_id_from_parent :: "string \<Rightarrow> (string, string) result" where
  "project_id_from_parent parent =
     (case split_char (CHR ''/'') parent of
        p # pid # _ \<Rightarrow> if p = ''projects'' \<and> pid \<noteq> [] then Inr pid else Inl (''invalid parent path: '' @ parent)
      | _ \<Rightarrow> Inl (''invalid parent path: '' @ parent))"

definition collection_id_from_query_target :: "proto_query option \<Rightarrow> (string, string) result" where
  "collection_id_from_query_target sq =
     (case sq of
        None \<Rightarrow> Inl ''QueryTarget has no query_type''
      | Some q \<Rightarrow> (case pq_from q of [] \<Rightarrow> Inl ''structured query has no collection selector'' | f # _ \<Rightarrow> Inr (fst f)))"

definition filter_from_query_target :: "proto_query option \<Rightarrow> (string, query_filter option) result" where
  "filter_from_query_target sq =
     (case sq of
        None \<Rightarrow> Inl ''QueryTarget has no query_type''
      | Some q \<Rightarrow>
          (case Option.bind (pq_where q) translate_filter of
             None \<Rightarrow> Inr None
           | Some (Inl e) \<Rightarrow> Inl e
           | Some (Inr f) \<Rightarrow> Inr (Some f)))"

definition internal_status :: "string \<Rightarrow> status" where
  "internal_status m = Status CInternal m"

definition listen_scope :: "listen_target option \<Rightarrow> (status, i32 \<times> string \<times> string \<times> query_filter option) result" where
  "listen_scope add_target =
     rbind (ok_or (Status CInvalidArgument ''first message must be AddTarget'') add_target) (\<lambda>t.
       case lt_type t of
         Some (LQuery parent sq) \<Rightarrow>
           rbind (map_sum internal_status id (collection_id_from_query_target sq)) (\<lambda>cid.
           rbind (map_sum internal_status id (project_id_from_parent parent)) (\<lambda>pid.
           rbind (map_sum internal_status id (filter_from_query_target sq)) (\<lambda>flt.
           rbind (map_sum (\<lambda>e. internal_status (core_error_message e)) id (project_id_new pid)) (\<lambda>_.
             Inr (lt_target_id t, pid, cid, flt)))))
       | _ \<Rightarrow> Inl (Status CInvalidArgument ''target must have Query target type''))"

text \<open>The locals of the session that the event loop uses.\<close>

record subscription =
  sub_target :: i32
  sub_project :: string
  sub_collection :: string
  sub_condition :: "condition option"
  sub_bindings :: "string btree_map"
  sub_recheck :: bool
  sub_query :: structured_query

definition parsed_condition :: "string \<Rightarrow> string \<Rightarrow> (status, condition) result" where
  "parsed_condition reparse source = map_sum (\<lambda>_. Status CInternal reparse) id (parse_condition source)"

definition pattern_condition :: "pattern_row \<Rightarrow> (status, condition option) result" where
  "pattern_condition row =
     (case row_read_condition row of
        None \<Rightarrow> Inr None
      | Some source \<Rightarrow> map_sum id Some (parsed_condition ''stored access rule pattern failed to re-parse: '' source))"

text \<open>The rule at subscription: its condition, the path variables, and whether events need a lookup of their own.\<close>

definition subscription_rule ::
  "rules_db \<Rightarrow> auth_context option \<Rightarrow> string \<Rightarrow> string \<Rightarrow> query_filter option \<Rightarrow>
     (status, condition option \<times> string btree_map \<times> bool) result" where
  "subscription_rule rdb au pid cp flt =
     (case get_access_rule pid cp rdb of
        None \<Rightarrow>
          rbind (resolve_access_rule_pattern pid cp None rdb) (\<lambda>routed.
            case routed of
              None \<Rightarrow> Inr (None, [], True)
            | Some (row, b) \<Rightarrow>
                map_sum id (\<lambda>c. (c, if c = None then [] else b, False)) (pattern_condition row))
      | Some source \<Rightarrow>
          rbind (parsed_condition ''stored access rule failed to re-parse: '' source) (\<lambda>c.
            case query_compliance_rejection (check_query_compliance c flt (query_caller au)) of
              None \<Rightarrow> Inr (Some c, [], False)
            | Some st \<Rightarrow> Inl st))"

definition resume_time :: "store_env \<Rightarrow> date_time \<Rightarrow> u8 list option \<Rightarrow> date_time option" where
  "resume_time env now token =
     Option.bind token (\<lambda>t. if t \<noteq> [] \<and> \<not> is_stale env now t then decode_ts env t else None)"

definition subscribe ::
  "store_env \<Rightarrow> rules_db \<Rightarrow> auth_context option \<Rightarrow> date_time \<Rightarrow> listen_target option \<Rightarrow> u8 list option \<Rightarrow> (status, subscription) result" where
  "subscribe env rdb au now add_target token =
     rbind (listen_scope add_target) (\<lambda>(tid, pid, cp, flt).
     rbind (subscription_rule rdb au pid cp flt) (\<lambda>(cond, b, recheck).
       Inr \<lparr>sub_target = tid, sub_project = pid, sub_collection = cp, sub_condition = cond, sub_bindings = b, sub_recheck = recheck,
            sub_query = \<lparr>query_collection_id = cp, all_descendants = False, query_filter_of = flt, query_order_by = [],
              query_limit = None, query_offset = None, start_at = None, end_at = None,
              since_update_time = resume_time env now token\<rparr>\<rparr>))"

section \<open>Responses\<close>

datatype listen_response =
    DocumentChange proto_document i32
  | DocumentDelete string i32
  | TargetCurrent i32
  | TargetNoChange "u8 list"
  | TargetReset i32

datatype listen_event = Changed firestore_document | Removed document_path fields

definition one_second_later :: "date_time \<Rightarrow> date_time" where
  "one_second_later t = (fst t + 1, snd t)"

text \<open>The snapshot that opens the stream; \<open>now\<close> is read before the query runs.\<close>

definition snapshot_responses :: "date_time \<Rightarrow> subscription \<Rightarrow> firestore_document list \<Rightarrow> listen_response list" where
  "snapshot_responses now sub docs =
     map (\<lambda>d. DocumentChange (document_to_proto d) (sub_target sub)) docs @
     [TargetCurrent (sub_target sub), TargetNoChange (encode_token (one_second_later now))]"

definition resolve_recursive_wildcard_condition ::
  "rules_db \<Rightarrow> string \<Rightarrow> string \<Rightarrow> string \<Rightarrow> (status, condition option \<times> string btree_map) result" where
  "resolve_recursive_wildcard_condition rdb pid cp did =
     rbind (resolve_access_rule_pattern pid cp (Some did) rdb) (\<lambda>routed.
       case routed of
         None \<Rightarrow> Inr (None, [])
       | Some (row, b) \<Rightarrow> map_sum id (\<lambda>c. (c, if c = None then [] else b)) (pattern_condition row))"

definition event_rule :: "rules_db \<Rightarrow> subscription \<Rightarrow> string \<Rightarrow> (status, condition option \<times> string btree_map) result" where
  "event_rule rdb sub did =
     (if sub_recheck sub then resolve_recursive_wildcard_condition rdb (sub_project sub) (sub_collection sub) did
      else Inr (sub_condition sub, sub_bindings sub))"

definition event_allowed :: "auth_context option \<Rightarrow> string \<Rightarrow> fields \<Rightarrow> condition option \<times> string btree_map \<Rightarrow> bool" where
  "event_allowed au did fs rule =
     (case fst rule of
        None \<Rightarrow> True
      | Some c \<Rightarrow> evaluate c (rule_context (query_caller au) fs [] (Some did) (snd rule) None []) \<noteq> Deny)"

text \<open>One event in the loop: the response to send, if any, or the status that ends the session.\<close>

definition handle_event ::
  "rules_db \<Rightarrow> auth_context option \<Rightarrow> subscription \<Rightarrow> listen_event \<Rightarrow> (status, listen_response option) result" where
  "handle_event rdb au sub ev =
     (case ev of
        Changed doc \<Rightarrow>
          if collection_path (path doc) \<noteq> sub_collection sub then Inr None
          else map_sum id (\<lambda>rule.
              if event_allowed au (document_id (path doc)) (doc_fields doc) rule
              then Some (DocumentChange (document_to_proto doc) (sub_target sub)) else None)
            (event_rule rdb sub (document_id (path doc)))
      | Removed p fs \<Rightarrow>
          if collection_path p \<noteq> sub_collection sub then Inr None
          else map_sum id (\<lambda>rule.
              if event_allowed au (document_id p) fs rule then Some (DocumentDelete (document_name p) (sub_target sub)) else None)
            (event_rule rdb sub (document_id p)))"

text \<open>What wakes the loop, with the rules as stored then and whether the response could be sent.\<close>

datatype wakeup = Keepalive date_time | Event listen_event | ChannelClosed | ResetNotified

fun event_loop ::
  "auth_context option \<Rightarrow> subscription \<Rightarrow> (rules_db \<times> bool \<times> wakeup) list \<Rightarrow> (status, listen_response) result list" where
  "event_loop au sub [] = []"
| "event_loop au sub ((rdb, sent, Keepalive now) # rest) =
     (if sent then Inr (TargetNoChange (encode_token (one_second_later now))) # event_loop au sub rest else [])"
| "event_loop au sub ((rdb, sent, Event ev) # rest) =
     (case handle_event rdb au sub ev of
        Inl st \<Rightarrow> [Inl st]
      | Inr None \<Rightarrow> event_loop au sub rest
      | Inr (Some r) \<Rightarrow> if sent then Inr r # event_loop au sub rest else [])"
| "event_loop au sub ((rdb, sent, ChannelClosed) # rest) = []"
| "event_loop au sub ((rdb, sent, ResetNotified) # rest) = (if sent then [Inr (TargetReset (sub_target sub))] else [])"

text \<open>The whole session, when the snapshot responses can be sent: the answer of the adapter is an argument.\<close>

definition handle_add_target ::
  "store_env \<Rightarrow> rules_db \<Rightarrow> auth_context option \<Rightarrow> date_time \<Rightarrow> date_time \<Rightarrow> listen_target option \<Rightarrow> u8 list option \<Rightarrow>
     (structured_query \<Rightarrow> (core_error, firestore_document list) result) \<Rightarrow> (rules_db \<times> bool \<times> wakeup) list \<Rightarrow>
     (status, listen_response) result list" where
  "handle_add_target env rdb au now now' add_target token run_query wakeups =
     (case subscribe env rdb au now add_target token of
        Inl st \<Rightarrow> [Inl st]
      | Inr sub \<Rightarrow>
          (case run_query (sub_query sub) of
             Inl e \<Rightarrow> [Inl (Status CInternal ''internal server error'')]
           | Inr docs \<Rightarrow> map Inr (snapshot_responses now' sub docs) @ event_loop au sub wakeups))"

section \<open>Tokens round trip\<close>

lemma unat_byte: "unat (ucast (drop_bit (8 * i) w) :: u8) = unat (w :: i64) div 256 ^ i mod 256"
proof -
  have u: "unat (drop_bit (8 * i) w) = unat w div 2 ^ (8 * i)" unfolding unat_drop_bit_eq by (rule drop_bit_eq_div)
  have "unat (ucast (drop_bit (8 * i) w) :: u8) = take_bit 8 (unat (drop_bit (8 * i) w))" by (simp add: unsigned_ucast_eq)
  also have "\<dots> = unat w div 2 ^ (8 * i) mod 2 ^ 8"
    unfolding u take_bit_eq_mod ..
  finally show ?thesis by (simp add: power_mult)
qed

lemma foldl_bytes: "foldl (\<lambda>a b. push_bit 8 a + ucast b) (word_of_nat n :: i64) bs =
    word_of_nat (foldl (\<lambda>a d. a * 256 + d) n (map unat (bs :: u8 list)))"
proof (induction bs arbitrary: n)
  case (Cons b bs)
  have "push_bit 8 (word_of_nat n :: i64) + ucast b = word_of_nat (n * 256 + unat b)"
    by (simp add: push_bit_eq_mult of_nat_unat)
  then show ?case using Cons [of "n * 256 + unat b"] by simp
qed simp

lemma foldl_digits256: "foldl (\<lambda>a d. a * 256 + d) a (map (\<lambda>i. n div 256 ^ i mod 256) (rev [0..<k])) = a * 256 ^ k + n mod (256 :: nat) ^ k"
proof (induction k arbitrary: a)
  case (Suc k)
  have "n mod 256 ^ Suc k = 256 ^ k * (n div 256 ^ k mod 256) + n mod 256 ^ k"
    using mod_mult2_eq [of n "256 ^ k" 256] by (simp add: mult.commute)
  then show ?case using Suc by (simp add: algebra_simps)
qed simp

lemma be_bytes_roundtrip: "from_be_bytes (to_be_bytes w) = w"
proof -
  have bytes: "map unat (to_be_bytes w) = map (\<lambda>i. unat w div 256 ^ i mod 256) (rev [0..<8])"
    by (simp add: to_be_bytes_def unat_byte del: upt_Suc)
  have "unat w < 256 ^ 8" using unsigned_less [where 'a = nat, of w] by simp
  then have "foldl (\<lambda>a d. a * 256 + d) 0 (map unat (to_be_bytes w)) = unat w"
    unfolding bytes foldl_digits256 by simp
  then show ?thesis using foldl_bytes [of 0 "to_be_bytes w"] by (simp add: from_be_bytes_def)
qed

lemma length_be_bytes: "length (to_be_bytes w) = 8"
  by (simp add: to_be_bytes_def)

text \<open>
  A resume token has 8 bytes and is read back as the second it was made in, also when bytes of an older
  format follow; it is stale exactly when this second lies more than 24 hours back.
\<close>

theorem resume_token_roundtrip:
  assumes "chrono_seconds env (fst t)"
  shows "length (encode_token t) = 8 \<and> decode_ts env (encode_token t @ extra) = Some (fst t, 0) \<and>
    (is_stale env now (encode_token t @ extra) \<longleftrightarrow> 24 * 3600 * 10 ^ 9 < time_ns now - time_ns (fst t, 0))"
  using assms by (simp add: encode_token_def decode_ts_def is_stale_def be_bytes_roundtrip length_be_bytes)

theorem resume_token_roundtrip_witness:
  "decode_ts example_env (encode_token (1726700000, 5) @ [170]) = Some (1726700000, 0)"
  using resume_token_roundtrip [of example_env "(1726700000, 5)" "[170]"] by (simp add: example_env_def)

section \<open>Events\<close>

lemma resolve_fixed_only:
  assumes "patterns_ok rdb" and "plain_segments cs" and "length cs + 1 < 2 ^ 15"
  shows "(\<exists>r b. resolve_access_rule_pattern pid (join ''/'' cs) None rdb = Inr (Some (r, b)) \<and> r \<in> set (access_rule_patterns rdb) \<and>
        fixed_matches pid cs r \<and> bind_ancestor (row_segs r) (lits cs) = Some b) \<or>
    (resolve_access_rule_pattern pid (join ''/'' cs) None rdb = Inr None \<and>
      (\<forall>r \<in> set (access_rule_patterns rdb). \<not> fixed_matches pid cs r))"
proof -
  obtain res where res: "resolve_access_rule_pattern pid (join ''/'' cs) None rdb = Inr res"
    "case res of None \<Rightarrow> \<forall>r \<in> set (access_rule_patterns rdb). \<not> fixed_matches pid cs r
     | Some (r, b) \<Rightarrow> r \<in> set (access_rule_patterns rdb) \<and> fixed_matches pid cs r \<and> bind_ancestor (row_segs r) (lits cs) = Some b"
    using routing_result [OF assms, of pid None] by (fastforce split: option.split_asm prod.split_asm if_split_asm)
  then show ?thesis by (cases res) auto
qed

lemma pattern_condition_source:
  "row_read_condition r = Some source \<Longrightarrow> pattern_condition r = Inr c \<Longrightarrow> \<exists>x. c = Some x \<and> parse_condition source = Inr x"
  by (cases "parse_condition source") (auto simp: pattern_condition_def parsed_condition_def)

lemma governs_fixed:
  assumes "patterns_ok rdb" and "governs table cond rdb pid cs d source anc" and "table (pid, join ''/'' cs) = None"
    and "r \<in> set (access_rule_patterns rdb)" "fixed_matches pid cs r" "bind_ancestor (row_segs r) (lits cs) = Some b"
  shows "cond r = Some source \<and> anc = b"
proof -
  obtain r' where r': "r' \<in> set (access_rule_patterns rdb)" "cond r' = Some source"
    "fixed_matches pid cs r' \<and> bind_ancestor (row_segs r') (lits cs) = Some anc"
    using assms(2-5) unfolding governs_def by auto
  then have "r' = r" using fixed_match_unique [OF assms(1)] assms(4,5) by blast
  then show ?thesis using r' assms(6) by simp
qed

text \<open>The condition that a session applies to an event is the one that governs the document.\<close>

lemma event_rule_governing:
  assumes "patterns_ok rdb" and "plain_segments cs" and "length cs + 1 < 2 ^ 15"
    and "governs (access_rules rdb) row_read_condition rdb pid cs d source anc"
    and "subscribe env rdb au now target token = Inr sub" and "sub_project sub = pid" "sub_collection sub = join ''/'' cs"
    and "event_rule rdb sub d = Inr rule"
  shows "\<exists>c. parse_condition source = Inr c \<and> rule = (Some c, anc)"
proof -
  obtain flt where sr: "subscription_rule rdb au pid (join ''/'' cs) flt = Inr (sub_condition sub, sub_bindings sub, sub_recheck sub)"
    using assms(5-7) by (auto simp: subscribe_def rbind_Inr_iff)
  show ?thesis
  proof (cases "access_rules rdb (pid, join ''/'' cs)")
    case (Some s)
    then have "s = source" "anc = []" using assms(4) by (auto simp: governs_def)
    then show ?thesis
      using sr Some assms(8)
      by (auto simp: subscription_rule_def get_access_rule_def rbind_Inr_iff parsed_condition_def event_rule_def
          split: option.splits sum.splits) (cases "parse_condition source"; auto)+
  next
    case None
    note sub = sr [unfolded subscription_rule_def get_access_rule_def None option.case]
    from resolve_fixed_only [OF assms(1-3), of pid] show ?thesis
    proof (elim disjE exE conjE)
      fix r b
      assume r: "resolve_access_rule_pattern pid (join ''/'' cs) None rdb = Inr (Some (r, b))" "r \<in> set (access_rule_patterns rdb)"
        "fixed_matches pid cs r" "bind_ancestor (row_segs r) (lits cs) = Some b"
      then have src: "row_read_condition r = Some source" "anc = b"
        using governs_fixed [OF assms(1,4) None] by auto
      obtain c where c: "pattern_condition r = Inr c" using sub r(1) by (cases "pattern_condition r") auto
      then show ?thesis
        using pattern_condition_source [OF src(1) c] sub r(1) src(2) assms(8) by (auto simp: event_rule_def)
    next
      assume "resolve_access_rule_pattern pid (join ''/'' cs) None rdb = Inr None"
      then have "sub_recheck sub" using sub by simp
      moreover obtain r where r: "resolve_access_rule_pattern pid (join ''/'' cs) (Some d) rdb = Inr (Some (r, anc))"
        "row_read_condition r = Some source"
        using governing_pattern [OF assms(1-4) None] .
      ultimately obtain c where c: "pattern_condition r = Inr c" and "rule = (c, if c = None then [] else anc)"
        using assms(6-8) by (auto simp: event_rule_def resolve_recursive_wildcard_condition_def map_sum_Inr_iff)
      then show ?thesis using pattern_condition_source [OF r(2) c] by auto
    qed
  qed
qed


section \<open>Resuming\<close>

lemma map_sum_Inr: "map_sum f g x = Inr y \<longleftrightarrow> (\<exists>z. x = Inr z \<and> y = g z)"
  by (cases x) auto

lemma listen_scope_filter:
  assumes "listen_scope target = Inr (tid, pid, cp, flt)"
  shows "\<exists>sq. filter_from_query_target sq = Inr flt"
proof -
  obtain t where t: "target = Some t" using assms by (cases target) (auto simp: listen_scope_def)
  show ?thesis
  proof (cases "lt_type t")
    case (Some ty)
    then show ?thesis using assms t by (cases ty) (auto simp: listen_scope_def rbind_Inr_iff map_sum_Inr)
  qed (use assms t in \<open>simp add: listen_scope_def\<close>)
qed

lemma subscribed_filter_built:
  assumes "subscribe env rdb au now target token = Inr sub" and "query_filter_of (sub_query sub) = Some f"
  shows "append_filter enc f \<noteq> None"
proof -
  obtain tid pid cp flt where "listen_scope target = Inr (tid, pid, cp, flt)" "query_filter_of (sub_query sub) = flt"
    using assms(1) by (auto simp: subscribe_def rbind_Inr_iff)
  then obtain sq where "filter_from_query_target sq = Inr (Some f)" using listen_scope_filter assms(2) by metis
  then show ?thesis
    using translated_filter_built(1)
    by (auto simp: filter_from_query_target_def Option.bind_eq_Some_conv split: option.splits sum.splits)
qed

text \<open>
  Resuming misses updates of the second after a snapshot. The token that a session issues names the second
  after the clock reading of its snapshot, and a resumed query selects only rows updated later than that:
  a document that was changed after the snapshot but not after that second is not sent again, although the
  earlier session may have ended before it could send the change.
\<close>

theorem resume_skips_updates:
  assumes "TargetNoChange token \<in> set (snapshot_responses now old docs)"
    and "chrono_seconds env (fst now + 1)" and "\<not> is_stale env later token"
    and "subscribe env rdb au later target (Some token) = Inr sub"
    and "\<And>f. query_filter_of (sub_query sub) = Some f \<Longrightarrow> nonempty_filter f"
    and "time_ns now < time_ns (row_update_time (sr_row r))"
    and "time_ns (row_update_time (sr_row r)) \<le> time_ns (fst now + 1, 0)"
  shows "\<not> selects pg env sa (sub_project sub) (sub_collection sub) (sub_query sub) r"
proof
  assume sel: "selects pg env sa (sub_project sub) (sub_collection sub) (sub_query sub) r"
  have tok: "token = encode_token (one_second_later now)" using assms(1) by (auto simp: snapshot_responses_def)
  then have "decode_ts env token = Some (fst now + 1, 0)" "token \<noteq> []"
    using assms(2) length_be_bytes [of "fst now + 1"]
    by (auto simp: encode_token_def decode_ts_def be_bytes_roundtrip one_second_later_def)
  then have "since_update_time (sub_query sub) = Some (fst now + 1, 0)"
    using assms(3,4) by (auto simp: subscribe_def rbind_Inr_iff resume_time_def)
  moreover have "\<forall>v \<in> set (condition_values (b64_encode env) (atom_value pg r) sa (sub_project sub) (sub_collection sub) (sub_query sub)). v = Some True"
    using selects_parts [OF sel] subscribed_filter_built [OF assms(4)] assms(5) by blast
  ultimately have "time_ns (fst now + 1, 0) < time_ns (row_update_time (sr_row r))"
    by (simp add: condition_values_def Let_def)
  then show False using assms(7) by simp
qed

definition posts_target :: "listen_target option" where
  "posts_target = Some \<lparr>lt_target_id = 1, lt_type = Some (LQuery ''projects/app/databases/(default)/documents''
     (Some \<lparr>pq_from = [(''posts'', False)], pq_where = None, pq_order_by = [], pq_limit = None, pq_offset = 0,
            pq_start_at = None, pq_end_at = None\<rparr>))\<rparr>"

definition late_row :: sql_row where
  "late_row = \<lparr>sr_path = \<lparr>project_id = ''app'', collection_path = ''posts'', document_id = ''a''\<rparr>,
     sr_row = new_row example_env (JObject []) (8, 700000000), sr_collection_id = None\<rparr>"

theorem resume_skips_updates_witness:
  "\<exists>sub. subscribe example_env no_rules None (10, 0) posts_target (Some (encode_token (one_second_later (8, 200000000)))) = Inr sub \<and>
     \<not> selects example_pg example_env False (sub_project sub) (sub_collection sub) (sub_query sub) late_row"
proof -
  let ?tok = "encode_token (one_second_later (8, 200000000))"
  let ?s = "subscribe example_env no_rules None (10, 0) posts_target (Some ?tok)"
  have "is_ok ?s" by code_simp
  then obtain sub where sub: "?s = Inr sub" by (cases ?s) auto
  have tok: "TargetNoChange ?tok \<in> set (snapshot_responses (8, 200000000) sub [])" by (simp add: snapshot_responses_def)
  have "map_sum id (\<lambda>s. query_filter_of (sub_query s)) ?s = Inr None" by code_simp
  then have "query_filter_of (sub_query sub) = None" using sub by simp
  moreover have "chrono_seconds example_env (fst (8, 200000000) + 1)" "\<not> is_stale example_env (10, 0) ?tok"
    "time_ns (8, 200000000) < time_ns (row_update_time (sr_row late_row))"
    "time_ns (row_update_time (sr_row late_row)) \<le> time_ns (fst (8, 200000000) + 1, 0)"
    by (simp_all add: is_stale_def decode_ts_def encode_token_def be_bytes_roundtrip length_be_bytes one_second_later_def
        time_ns_def example_env_def late_row_def new_row_def)
  ultimately show ?thesis using resume_skips_updates [OF tok _ _ sub, of late_row] sub by auto
qed

definition nested_target_request :: "listen_target option" where
  "nested_target_request = Some \<lparr>lt_target_id = 1, lt_type = Some (LQuery ''projects/app/databases/(default)/documents''
     (Some \<lparr>pq_from = [(''a/x/c'', False)], pq_where = None, pq_order_by = [], pq_limit = None, pq_offset = 0,
            pq_start_at = None, pq_end_at = None\<rparr>))\<rparr>"


end
