(* ===== verification/Write_Stream.thy ===== *)
theory Write_Stream
  imports Enforcement
begin

text \<open>
  The \<open>Write\<close> stream: the session loop \<open>run_write_session\<close> of \<open>embyr-server/src/grpc/write_stream.rs\<close> and the
  handshake of \<open>handle_write\<close>. A session is the sequence of what the incoming stream delivers, each item
  with what the environment contributes to its processing: the generated token and transaction id, the clock
  readings, and whether the response could be sent.
\<close>

section \<open>Session\<close>

record write_message =
  wm_stream_token :: string
  wm_writes :: "(date_time \<times> proto_write) list"

datatype stream_item = Message write_message | Cancelled | StreamError status

record session_step =
  ss_token :: string
  ss_txn :: batch_step
  ss_delivered :: bool

record write_response_msg =
  wr_stream_id :: string
  wr_stream_token :: string
  wr_results :: "proto_write_result list"

text \<open>What the loop does with the writes of one message, after its token was accepted.\<close>

definition apply_message ::
  "store_env \<Rightarrow> rules_db \<Rightarrow> auth_context option \<Rightarrow> string \<Rightarrow> batch_step \<Rightarrow> (date_time \<times> proto_write) list \<Rightarrow> database \<Rightarrow>
     ((status, proto_write_result list) result \<times> database) option" where
  "apply_message env rdb au pid s ws db =
     (case map_sum invalid_status id (project_id_new pid) of
        Inl e \<Rightarrow> Some (Inl e, db)
      | Inr p \<Rightarrow>
          (case translate_writes_for_commit env rdb db au pid ws of
             Inl e \<Rightarrow> Some (Inl e, db)
           | Inr dws \<Rightarrow>
               (case begin_transaction (step_begin s) (step_id s) p db of
                  (Inl e, db') \<Rightarrow> Some (Inl (core_error_to_status e), db')
                | (Inr tid, db') \<Rightarrow>
                    map_option (\<lambda>(r, db''). (map_sum core_error_to_status (map result_to_proto) r, db''))
                      (commit_transaction env (step_commit s) (step_apply s) p tid dws db'))))"

definition token_mismatch :: status where
  "token_mismatch = Status CAborted
     ''stream_token mismatch: a WriteRequest must present the most recently issued stream_token''"

fun write_loop ::
  "store_env \<Rightarrow> rules_db \<Rightarrow> auth_context option \<Rightarrow> string \<Rightarrow> string \<Rightarrow> string \<Rightarrow> (session_step \<times> stream_item) list \<Rightarrow> database \<Rightarrow>
     ((status, write_response_msg) result list \<times> database) option" where
  "write_loop env rdb au pid sid token [] db = Some ([], db)"
| "write_loop env rdb au pid sid token ((s, Cancelled) # rest) db = Some ([], db)"
| "write_loop env rdb au pid sid token ((s, StreamError st) # rest) db = Some ([Inl st], db)"
| "write_loop env rdb au pid sid token ((s, Message m) # rest) db =
     (if wm_stream_token m \<noteq> token then Some ([Inl token_mismatch], db)
      else
        (case apply_message env rdb au pid (ss_txn s) (wm_writes m) db of
           None \<Rightarrow> None
         | Some (Inl e, db') \<Rightarrow> Some ([Inl e], db')
         | Some (Inr rs, db') \<Rightarrow>
             if ss_delivered s then
               map_option (\<lambda>(out, db'').
                   (Inr \<lparr>wr_stream_id = sid, wr_stream_token = ss_token s, wr_results = rs\<rparr> # out, db''))
                 (write_loop env rdb au pid sid (ss_token s) rest db')
             else Some ([], db')))"

text \<open>The session begins with a response that carries the first token and no results.\<close>

definition run_write_session ::
  "store_env \<Rightarrow> rules_db \<Rightarrow> auth_context option \<Rightarrow> string \<Rightarrow> string \<Rightarrow> string \<Rightarrow> bool \<Rightarrow> (session_step \<times> stream_item) list \<Rightarrow> database \<Rightarrow>
     ((status, write_response_msg) result list \<times> database) option" where
  "run_write_session env rdb au pid sid token delivered items db =
     (if delivered then
        map_option (\<lambda>(out, db'). (Inr \<lparr>wr_stream_id = sid, wr_stream_token = token, wr_results = []\<rparr> # out, db'))
          (write_loop env rdb au pid sid token items db)
      else Some ([], db))"

text \<open>The first message opens the stream: it names the database and must carry no writes and no stream id.\<close>

definition handle_write_handshake :: "string \<Rightarrow> string \<Rightarrow> proto_write list \<Rightarrow> (status, string) result" where
  "handle_write_handshake database stream_id ws =
     (if ws \<noteq> [] \<or> stream_id \<noteq> [] then
        Inl (Status CInvalidArgument ''handshake WriteRequest must have empty writes and empty stream_id'')
      else extract_project_id database)"

section \<open>Sessions apply their messages in order\<close>

text \<open>The messages of a session answer each other's tokens.\<close>

fun chained :: "string \<Rightarrow> (session_step \<times> stream_item) list \<Rightarrow> bool" where
  "chained token [] = True"
| "chained token ((s, Message m) # rest) = (wm_stream_token m = token \<and> chained (ss_token s) rest)"
| "chained token ((s, Cancelled) # rest) = False"
| "chained token ((s, StreamError st) # rest) = False"

text \<open>The commits of a sequence of messages, all of them successful.\<close>

fun apply_all ::
  "store_env \<Rightarrow> rules_db \<Rightarrow> auth_context option \<Rightarrow> string \<Rightarrow> (session_step \<times> stream_item) list \<Rightarrow> database \<Rightarrow> database option" where
  "apply_all env rdb au pid [] db = Some db"
| "apply_all env rdb au pid ((s, Message m) # rest) db =
     (case apply_message env rdb au pid (ss_txn s) (wm_writes m) db of
        Some (Inr rs, db') \<Rightarrow> apply_all env rdb au pid rest db'
      | _ \<Rightarrow> None)"
| "apply_all env rdb au pid ((s, Cancelled) # rest) db = None"
| "apply_all env rdb au pid ((s, StreamError st) # rest) db = None"

lemma apply_message_total: "apply_message env rdb au pid s ws db \<noteq> None"
  by (simp add: apply_message_def commit_total del: not_None_eq split: sum.split prod.split)

lemma begin_documents: "begin_transaction now u pid db = (r, db') \<Longrightarrow> documents db' = documents db"
  by (auto simp: begin_transaction_def split: option.splits)

lemma apply_message_failed:
  assumes "apply_message env rdb au pid s ws db = Some (Inl e, db')"
  shows "documents db' = documents db"
proof (cases "project_id_new pid")
  case (Inr p)
  show ?thesis
  proof (cases "translate_writes_for_commit env rdb db au pid ws")
    case (Inr dws)
    obtain r db1 where b: "begin_transaction (step_begin s) (step_id s) p db = (r, db1)" by fastforce
    have docs: "documents db1 = documents db" using begin_documents [OF b] .
    show ?thesis
    proof (cases r)
      case (Inr tid)
      then obtain e' where "commit_transaction env (step_commit s) (step_apply s) p tid dws db1 = Some (Inl e', db')"
        using assms \<open>project_id_new pid = Inr p\<close> \<open>translate_writes_for_commit env rdb db au pid ws = Inr dws\<close> b
        by (auto simp: apply_message_def map_sum_Inl_iff) (metis map_sum.simps(2) old.sum.exhaust sum.distinct(1))
      then show ?thesis using commit_documents_Inl docs by metis
    qed (use assms b docs \<open>project_id_new pid = Inr p\<close> \<open>translate_writes_for_commit env rdb db au pid ws = Inr dws\<close> in
        \<open>simp add: apply_message_def\<close>)
  qed (use assms \<open>project_id_new pid = Inr p\<close> in \<open>simp add: apply_message_def\<close>)
qed (use assms in \<open>simp add: apply_message_def\<close>)


end
