(* ===== verification/Listing.thy ===== *)
theory Listing
  imports Document_Requests "HOL-Library.Product_Lexorder"
begin

text \<open>
  Paged listings: the page tokens of \<open>embyr-core/src/pagination.rs\<close> and the handlers \<open>handle_list_documents\<close>
  and \<open>handle_list_collection_ids\<close> of \<open>embyr-server/src/grpc/handler.rs\<close>. The answers of the storage adapter
  are arguments: the child collections of a parent, and the documents of a collection.
\<close>

section \<open>Page tokens\<close>

type_synonym u32 = "32 word"

text \<open>\<open>format!("{offset:08x}")\<close>.\<close>

definition encode_page_token :: "u32 \<Rightarrow> string" where
  "encode_page_token off = map (\<lambda>i. hex_digit (unat off div 16 ^ i mod 16)) (rev [0..<8])"

definition hex_value :: "char \<Rightarrow> nat option" where
  "hex_value c =
     (let n = of_char c :: nat in
      if 48 \<le> n \<and> n \<le> 57 then Some (n - 48)
      else if 97 \<le> n \<and> n \<le> 102 then Some (n - 87)
      else if 65 \<le> n \<and> n \<le> 70 then Some (n - 55)
      else None)"

text \<open>\<open>u32::from_str_radix(_, 16)\<close>: an optional plus sign, at least one digit, no overflow.\<close>

fun radix16 :: "string \<Rightarrow> nat \<Rightarrow> nat option" where
  "radix16 [] acc = Some acc"
| "radix16 (c # s) acc =
     (case hex_value c of
        None \<Rightarrow> None
      | Some d \<Rightarrow> if acc * 16 < 2 ^ 32 \<and> acc * 16 + d < 2 ^ 32 then radix16 s (acc * 16 + d) else None)"

definition from_str_radix16 :: "string \<Rightarrow> u32 option" where
  "from_str_radix16 s =
     (let digits = (case s of [] \<Rightarrow> [] | c # t \<Rightarrow> if c = CHR ''+'' then t else s) in
      if digits = [] then None else map_option word_of_nat (radix16 digits 0))"

definition decode_page_token :: "string \<Rightarrow> (core_error, u32) result" where
  "decode_page_token token =
     (if token = [] then Inr 0
      else ok_or (InvalidArgument (''invalid page_token: '' @ token)) (from_str_radix16 token))"

section \<open>ListDocuments\<close>

definition effective_page_size :: "i32 \<Rightarrow> i32" where
  "effective_page_size n = (if sint n \<le> 0 then 100 else if sint n \<le> 100 then n else 100)"

definition under_prefix :: "string \<Rightarrow> string \<Rightarrow> string" where
  "under_prefix prefix name = (if prefix = [] then name else prefix @ ''/'' @ name)"

definition collection_paths :: "string \<Rightarrow> string \<Rightarrow> (core_error, string list) result \<Rightarrow> (status, string list) result" where
  "collection_paths prefix cid children =
     (if cid = [] then map_sum core_error_to_status (map (under_prefix prefix)) children
      else Inr [under_prefix prefix cid])"

text \<open>The documents of one collection that the caller may see; the cache of rules holds what the database returned.\<close>

definition visible_in ::
  "rules_db \<Rightarrow> auth_context option \<Rightarrow> string \<Rightarrow> string \<Rightarrow> firestore_document list \<Rightarrow> (status, firestore_document list) result" where
  "visible_in rdb au pid cp docs =
     (case get_access_rule pid cp rdb of
        None \<Rightarrow> Inr docs
      | Some source \<Rightarrow>
          (case parse_condition source of
             Inl _ \<Rightarrow> Inl (Status CInternal ''stored access rule failed to re-parse: '')
           | Inr c \<Rightarrow> Inr (filter (\<lambda>d. evaluate c (rule_context au (doc_fields d) [] None [] None []) = Allow) docs)))"

fun visible_documents ::
  "rules_db \<Rightarrow> auth_context option \<Rightarrow> string \<Rightarrow> (string \<Rightarrow> (core_error, firestore_document list) result) \<Rightarrow> string list \<Rightarrow>
     (status, firestore_document list) result" where
  "visible_documents rdb au pid stored [] = Inr []"
| "visible_documents rdb au pid stored (cp # cps) =
     rbind (map_sum core_error_to_status id (stored cp)) (\<lambda>docs.
     rbind (visible_in rdb au pid cp docs) (\<lambda>vis.
     rbind (visible_documents rdb au pid stored cps) (\<lambda>rest.
       Inr (vis @ rest))))"

definition document_key :: "firestore_document \<Rightarrow> string \<times> string" where
  "document_key d = (collection_path (path d), document_id (path d))"

text \<open>The page from an offset, and whether more follows.\<close>

definition page_from :: "nat \<Rightarrow> nat \<Rightarrow> 'a list \<Rightarrow> 'a list \<times> bool" where
  "page_from start page_size xs =
     (if length xs \<le> start then ([], False)
      else let slice = drop start (take (min (start + page_size + 1) (length xs)) xs); has_more = page_size < length slice
           in (if has_more then take page_size slice else slice, has_more))"

definition next_page_token :: "bool \<Rightarrow> u32 \<Rightarrow> i32 \<Rightarrow> string" where
  "next_page_token has_more off page_size = (if has_more then encode_page_token (off + page_size) else [])"

definition listed_documents ::
  "rules_db \<Rightarrow> auth_context option \<Rightarrow> (core_error, string list) result \<Rightarrow> (string \<Rightarrow> (core_error, firestore_document list) result) \<Rightarrow>
     string \<Rightarrow> string \<Rightarrow> string \<Rightarrow> (status, firestore_document list) result" where
  "listed_documents rdb au children stored pid prefix cid =
     rbind (collection_paths prefix cid children) (\<lambda>cps.
       map_sum id (sort_key document_key) (visible_documents rdb au pid stored cps))"

definition handle_list_documents ::
  "rules_db \<Rightarrow> auth_context option \<Rightarrow> (core_error, string list) result \<Rightarrow> (string \<Rightarrow> (core_error, firestore_document list) result) \<Rightarrow>
     string \<Rightarrow> string \<Rightarrow> i32 \<Rightarrow> string \<Rightarrow> (status, proto_document list \<times> string) result" where
  "handle_list_documents rdb au children stored parent cid requested token =
     rbind (parse_parent_prefix parent) (\<lambda>(pid, prefix).
     rbind (map_sum invalid_status id (project_id_new pid)) (\<lambda>_.
     let page_size = effective_page_size requested in
     rbind (map_sum core_error_to_status id (decode_page_token token)) (\<lambda>off.
     rbind (listed_documents rdb au children stored pid prefix cid) (\<lambda>docs.
       let (page, has_more) = page_from (unat off) (unat page_size) docs in
       Inr (map document_to_proto page, next_page_token has_more off page_size)))))"

section \<open>ListCollectionIds\<close>

text \<open>The adapter is asked for one id more than the page holds, from the offset taken as a signed number.\<close>

definition handle_list_collection_ids ::
  "(string \<Rightarrow> string \<Rightarrow> i32 \<Rightarrow> i32 \<Rightarrow> (core_error, string list) result) \<Rightarrow> string \<Rightarrow> i32 \<Rightarrow> string \<Rightarrow>
     (status, string list \<times> string) result" where
  "handle_list_collection_ids list_ids parent requested token =
     rbind (parse_parent_prefix parent) (\<lambda>(pid, prefix).
     rbind (map_sum invalid_status id (project_id_new pid)) (\<lambda>p.
     let page_size = effective_page_size requested in
     rbind (map_sum core_error_to_status id (decode_page_token token)) (\<lambda>off.
     rbind (map_sum core_error_to_status id (list_ids p prefix (page_size + 1) off)) (\<lambda>ids.
       let has_more = unat page_size < length ids in
       Inr (if has_more then take (unat page_size) ids else ids, next_page_token has_more off page_size)))))"

section \<open>Tokens round trip\<close>

definition digits16 :: "nat \<Rightarrow> nat \<Rightarrow> nat list" where
  "digits16 k n = map (\<lambda>i. n div 16 ^ i mod 16) (rev [0..<k])"

lemma hex_value_digit: "d < 16 \<Longrightarrow> hex_value (hex_digit d) = Some d"
  by (auto simp: hex_value_def hex_digit_def Let_def)

lemma hex_digit_not_plus: "d < 16 \<Longrightarrow> hex_digit d \<noteq> CHR ''+''"
  using hex_value_digit [of d] by (auto simp: hex_value_def)

lemma foldl_digits16: "foldl (\<lambda>a d. a * 16 + d) a (digits16 k n) = a * 16 ^ k + n mod 16 ^ k"
proof (induction k arbitrary: a)
  case (Suc k)
  have "n mod 16 ^ Suc k = 16 ^ k * (n div 16 ^ k mod 16) + n mod 16 ^ k"
    using mod_mult2_eq [of n "16 ^ k" 16] by (simp add: mult.commute)
  then show ?case using Suc by (simp add: digits16_def algebra_simps)
qed (simp add: digits16_def)

lemma radix16_digits:
  assumes "list_all (\<lambda>d. d < 16) ds" and "foldl (\<lambda>a d. a * 16 + d) acc ds < 2 ^ 32"
  shows "radix16 (map hex_digit ds) acc = Some (foldl (\<lambda>a d. a * 16 + d) acc ds)"
  using assms
proof (induction ds arbitrary: acc)
  case (Cons d ds)
  have le: "b \<le> foldl (\<lambda>a d. a * 16 + d) b ds" for b
  proof (induction ds arbitrary: b)
    case (Cons x xs)
    then show ?case using le_trans [OF _ Cons [of "b * 16 + x"], of b] by simp
  qed simp
  have "acc * 16 + d < 2 ^ 32" using le [of "acc * 16 + d"] Cons.prems(2) by simp
  then show ?case using Cons by (simp add: hex_value_digit)
qed simp

lemma encode_digits: "encode_page_token off = map hex_digit (digits16 8 (unat off))"
  by (simp add: encode_page_token_def digits16_def)

lemma digits16_small: "list_all (\<lambda>d. d < 16) (digits16 k n)"
  by (simp add: digits16_def list_all_iff)

lemma decode_encode: "decode_page_token (encode_page_token off) = Inr off"
proof -
  have lt: "unat off < 2 ^ 32" using unsigned_less [where 'a = nat, of off] by simp
  then have n: "unat off mod 16 ^ 8 = unat off" by simp
  obtain d ds where ds: "digits16 8 (unat off) = d # ds" "d < 16"
    using digits16_small [of 8 "unat off"] by (cases "digits16 8 (unat off)") (auto simp: digits16_def)
  have "radix16 (map hex_digit (digits16 8 (unat off))) 0 = Some (unat off)"
    using radix16_digits [OF digits16_small, of 0 8 "unat off"] foldl_digits16 [of 0 8 "unat off"] n lt by simp
  then show ?thesis
    using ds hex_digit_not_plus [of d] by (simp add: decode_page_token_def from_str_radix16_def encode_digits)
qed

text \<open>
  The token that a listing hands out is read back as the offset it stands for, for every offset of 32
  bits; it is never empty, and the empty token is offset 0.
\<close>

theorem page_token_roundtrip:
  "decode_page_token (encode_page_token off) = Inr off \<and> decode_page_token [] = Inr 0 \<and> encode_page_token off \<noteq> []"
  by (simp add: decode_encode, simp add: decode_page_token_def encode_digits digits16_def)

section \<open>Following the pages\<close>

text \<open>A client that asks for page after page until no token is returned; \<^const>\<open>None\<close> when it gives up.\<close>

fun follow_pages :: "nat \<Rightarrow> (string \<Rightarrow> ('e, 'a list \<times> string) result) \<Rightarrow> string \<Rightarrow> ('e, 'a list) result option" where
  "follow_pages 0 request token = None"
| "follow_pages (Suc n) request token =
     (case request token of
        Inl e \<Rightarrow> Some (Inl e)
      | Inr (page, next) \<Rightarrow>
          if next = [] then Some (Inr page)
          else map_option (map_sum id ((@) page)) (follow_pages n request next))"

lemma unat_nonneg: "0 \<le> sint (n :: i32) \<Longrightarrow> unat n = nat (sint n)"
proof -
  assume n: "0 \<le> sint n"
  have "sint n < 2 ^ 31" using sint_lt [of n] by simp
  moreover have "uint (of_int (sint n) :: i32) = sint n mod 2 ^ 32"
    by (simp add: unsigned_of_int take_bit_eq_mod del: of_int_sint)
  ultimately have "uint n = sint n" using n by simp
  then show ?thesis by (metis nat_uint_eq)
qed

lemma small_signed: "unat (n :: i32) < 2 ^ 31 \<Longrightarrow> 0 \<le> sint n \<and> nat (sint n) = unat n"
proof -
  assume "unat n < 2 ^ 31"
  then have "nat (uint n) < 2 ^ 31" unfolding nat_uint_eq .
  then have "uint n < 2 ^ 31" using nat_less_iff [of "uint n" "2 ^ 31"] by simp
  moreover have "- (2 ^ 31) \<le> uint n" by (rule order_trans [of _ 0]) simp_all
  ultimately have "signed_take_bit 31 (uint n) = uint n" by (simp add: signed_take_bit_int_eq_self_iff)
  then have "sint n = uint n" by (simp add: sint_uint)
  then show ?thesis by simp
qed

lemma successor_signed:
  assumes "unat (n :: i32) \<le> 100"
  shows "nat (sint (n + 1)) = unat n + 1"
proof -
  have "unat (n + 1) = unat n + 1" using assms by (simp add: unat_word_ariths)
  then show ?thesis using small_signed [of "n + 1"] assms by simp
qed

lemma effective_page_size_bounds: "1 \<le> unat (effective_page_size n) \<and> unat (effective_page_size n) \<le> 100"
  using unat_nonneg [of n] by (auto simp: effective_page_size_def)

text \<open>What the listings rely on of page tokens: a token gives back the offset it was made of, no token is empty, and the
  empty string stands for the first page. A listing that answers every token with the page at its offset, and with a
  token for the next page while there is one, is read completely by following its pages.\<close>

locale page_tokens =
  fixes encode :: "u32 \<Rightarrow> string" and decode :: "string \<Rightarrow> ('e, u32) result"
  assumes decode_encode: "decode (encode off) = Inr off"
    and encode_nonempty: "encode off \<noteq> []"
    and decode_first: "decode [] = Inr 0"
begin

definition serves :: "(string \<Rightarrow> ('f, 'a list \<times> string) result) \<Rightarrow> i32 \<Rightarrow> 'a list \<Rightarrow> bool" where
  "serves request page_size items \<longleftrightarrow> (\<forall>token off. decode token = Inr off \<and> unat off < 2 ^ 31 \<longrightarrow>
      request token = Inr (take (unat page_size) (drop (unat off) items),
        if unat off + unat page_size < length items then encode (off + page_size) else []))"

lemma follow_all:
  assumes serves: "serves request page_size items"
    and len: "length items < 2 ^ 31" and ps: "1 \<le> unat page_size" "unat page_size \<le> 100"
    and "decode token = Inr off" and "unat off < 2 ^ 31" and "length items - unat off < n"
  shows "follow_pages n request token = Some (Inr (drop (unat off) items))"
  using assms(5-7)
proof (induction n arbitrary: token off)
  case (Suc n)
  note req = serves [unfolded serves_def, rule_format, OF conjI, OF Suc.prems(1,2)]
  show ?case
  proof (cases "unat off + unat page_size < length items")
    case False
    then show ?thesis using req by simp
  next
    case True
    let ?off = "off + page_size"
    have off: "unat ?off = unat off + unat page_size"
      using True len by (simp add: unat_word_ariths)
    have "follow_pages n request (encode ?off) = Some (Inr (drop (unat ?off) items))"
      using Suc.IH [OF decode_encode] True len off ps(1) Suc.prems(3) by simp
    moreover have "take (unat page_size) (drop (unat off) items) @ drop (unat ?off) items = drop (unat off) items"
      using append_take_drop_id [of "unat page_size" "drop (unat off) items"] off by (simp add: add.commute)
    ultimately show ?thesis using req True encode_nonempty by simp
  qed
qed simp

lemma follow_from_first:
  assumes "serves request page_size items" and "length items < 2 ^ 31" and "1 \<le> unat page_size" "unat page_size \<le> 100"
  shows "follow_pages (length items + 1) request [] = Some (Inr items)"
  using follow_all [OF assms decode_first, of "length items + 1"] by simp

end

interpretation pages: page_tokens encode_page_token decode_page_token
  by unfold_locales (rule decode_encode, simp add: encode_digits digits16_def, simp add: decode_page_token_def)

lemma page_from_eq: "page_from start n xs = (take n (drop start xs), start + n < length xs)"
proof (cases "length xs \<le> start")
  case False
  then have slice: "drop start (take (min (start + n + 1) (length xs)) xs) = take (n + 1) (drop start xs)"
    by (simp add: drop_take min_def)
  show ?thesis unfolding page_from_def slice using False by (auto simp: Let_def min_def)
qed (simp add: page_from_def)

text \<open>
  C28: following the pages of \<open>ListDocuments\<close> returns every document of the listing exactly once, in the order
  of collection path and document id, whatever page size the client asks for; no more requests are needed
  than there are documents, plus one.
\<close>

theorem list_documents_complete:
  assumes "parse_parent_prefix parent = Inr (pid, prefix)" and "project_id_new pid = Inr pid"
    and "listed_documents rdb au children stored pid prefix cid = Inr docs" and "length docs < 2 ^ 31"
  shows "follow_pages (length docs + 1) (handle_list_documents rdb au children stored parent cid requested) [] =
      Some (Inr (map document_to_proto docs)) \<and> sorted (map document_key docs)"
proof
  let ?n = "effective_page_size requested"
  have "handle_list_documents rdb au children stored parent cid requested token =
      Inr (take (unat ?n) (drop (unat off) (map document_to_proto docs)),
        next_page_token (unat off + unat ?n < length (map document_to_proto docs)) off ?n)"
    if "decode_page_token token = Inr off" for token off
    using assms(1-3) that by (simp add: handle_list_documents_def page_from_eq Let_def take_map drop_map)
  then have "pages.serves (handle_list_documents rdb au children stored parent cid requested) ?n (map document_to_proto docs)"
    by (simp add: pages.serves_def next_page_token_def)
  from pages.follow_from_first [OF this] show "follow_pages (length docs + 1)
      (handle_list_documents rdb au children stored parent cid requested) [] = Some (Inr (map document_to_proto docs))"
    using assms(4) effective_page_size_bounds [of requested] by simp
  obtain ds where "docs = sort_key document_key ds"
    using assms(3) by (auto simp: listed_documents_def rbind_Inr_iff map_sum_Inr_iff)
  then show "sorted (map document_key docs)" by simp
qed

lemma set_visible_in:
  "visible_in rdb au pid cp docs = Inr vis \<Longrightarrow>
     set vis = {d \<in> set docs. \<forall>source. access_rules rdb (pid, cp) = Some source \<longrightarrow>
       (\<exists>c. parse_condition source = Inr c \<and> evaluate c (rule_context au (doc_fields d) [] None [] None []) = Allow)}"
  by (auto simp: visible_in_def get_access_rule_def split: option.splits sum.splits)

lemma set_visible_documents:
  "visible_documents rdb au pid stored cps = Inr docs \<Longrightarrow>
     set docs = (\<Union>cp \<in> set cps. {d. \<exists>ds. stored cp = Inr ds \<and> d \<in> set ds \<and>
       (\<forall>source. access_rules rdb (pid, cp) = Some source \<longrightarrow>
         (\<exists>c. parse_condition source = Inr c \<and> evaluate c (rule_context au (doc_fields d) [] None [] None []) = Allow))})"
proof (induction cps arbitrary: docs)
  case (Cons cp cps)
  obtain ds vis rest where "stored cp = Inr ds" "visible_in rdb au pid cp ds = Inr vis"
    "visible_documents rdb au pid stored cps = Inr rest" "docs = vis @ rest"
    using Cons.prems by (cases "stored cp") (auto simp: rbind_Inr_iff)
  then show ?case using Cons.IH set_visible_in by auto
qed simp

text \<open>
  A listing holds exactly the documents that the caller may read: those of the named collection, or of the
  child collections of the parent, that the adapter returned and whose fields satisfy the read rule of their
  collection, if it has one.
\<close>

theorem listed_exactly_readable:
  assumes "listed_documents rdb au children stored pid prefix cid = Inr docs"
    and "collection_paths prefix cid children = Inr cps"
  shows "set docs = (\<Union>cp \<in> set cps. {d. \<exists>ds. stored cp = Inr ds \<and> d \<in> set ds \<and>
       (\<forall>source. access_rules rdb (pid, cp) = Some source \<longrightarrow>
         (\<exists>c. parse_condition source = Inr c \<and> evaluate c (rule_context au (doc_fields d) [] None [] None []) = Allow))})"
proof -
  obtain ds where ds: "visible_documents rdb au pid stored cps = Inr ds" and "set docs = set ds"
    using assms by (auto simp: listed_documents_def map_sum_Inr_iff)
  then show ?thesis using set_visible_documents [OF ds] by simp
qed

text \<open>
  Following the pages of \<open>ListCollectionIds\<close> returns all child collections, in order and once each, when
  the adapter answers with the requested part of them.
\<close>

theorem collection_ids_complete:
  assumes "parse_parent_prefix parent = Inr (pid, prefix)" and "project_id_new pid = Inr pid"
    and "\<And>lim off. 0 \<le> sint off \<Longrightarrow> list_ids pid prefix lim off = Inr (take (nat (sint lim)) (drop (nat (sint off)) ids))"
    and "length ids < 2 ^ 31"
  shows "follow_pages (length ids + 1) (handle_list_collection_ids list_ids parent requested) [] = Some (Inr ids)"
proof -
  let ?n = "effective_page_size requested"
  have size: "nat (sint (?n + 1)) = unat ?n + 1"
    by (rule successor_signed [OF conjunct2 [OF effective_page_size_bounds]])
  have "handle_list_collection_ids list_ids parent requested token =
      Inr (take (unat ?n) (drop (unat off) ids), next_page_token (unat off + unat ?n < length ids) off ?n)"
    if "decode_page_token token = Inr off" "unat off < 2 ^ 31" for token off
  proof -
    let ?part = "take (unat ?n + 1) (drop (unat off) ids)"
    have "list_ids pid prefix (?n + 1) off = Inr ?part"
      using assms(3) [of off "?n + 1"] small_signed [OF that(2)] size by simp
    moreover have "unat ?n < length ?part \<longleftrightarrow> unat off + unat ?n < length ids" by auto
    moreover have "(if unat ?n < length ?part then take (unat ?n) ?part else ?part) = take (unat ?n) (drop (unat off) ids)"
      by (auto simp: min_def)
    ultimately show ?thesis using assms(1,2) that(1) by (simp add: handle_list_collection_ids_def Let_def)
  qed
  then have "pages.serves (handle_list_collection_ids list_ids parent requested) ?n ids"
    by (simp add: pages.serves_def next_page_token_def)
  from pages.follow_from_first [OF this assms(4)] show ?thesis
    using effective_page_size_bounds [of requested] by blast
qed

section \<open>Examples\<close>

definition post :: "string \<Rightarrow> i64 \<Rightarrow> firestore_document" where
  "post did n = \<lparr>path = \<lparr>project_id = ''p'', collection_path = ''posts'', document_id = did\<rparr>, doc_fields = [(''n'', FInteger n)],
     create_time = (8, 0), update_time = (8, 0), version = 1\<rparr>"

definition post_rules :: rules_db where
  "post_rules = \<lparr>access_rules = [(''p'', ''posts'') \<mapsto> ''resource.data.n == 1''], write_access_rules = (\<lambda>_. None),
     group_access_rules = (\<lambda>_. None), access_rule_patterns = [], rule_histories = []\<rparr>"

definition post_store :: "string \<Rightarrow> (core_error, firestore_document list) result" where
  "post_store cp = Inr (if cp = ''posts'' then [post ''b'' 1, post ''c'' 2, post ''a'' 1] else [])"

lemma post_listing:
  "listed_documents post_rules None (Inr [''posts'']) post_store ''p'' [] [] = Inr [post ''a'' 1, post ''b'' 1]"
  by code_simp

lemma post_parent: "parse_parent_prefix ''projects/p/databases/d/documents'' = Inr (''p'', [])" "project_id_new ''p'' = Inr ''p''"
  by code_simp+

theorem list_documents_complete_witness:
  "follow_pages 3 (handle_list_documents post_rules None (Inr [''posts'']) post_store ''projects/p/databases/d/documents'' [] 1) [] =
     Some (Inr [document_to_proto (post ''a'' 1), document_to_proto (post ''b'' 1)])"
  using list_documents_complete [OF post_parent post_listing] by (simp add: numeral_3_eq_3)

theorem listed_exactly_readable_witness:
  "collection_paths [] [] (Inr [''posts'']) = Inr [''posts''] \<and> post ''c'' 2 \<notin> set [post ''a'' 1, post ''b'' 1]"
proof
  show c: "collection_paths [] [] (Inr [''posts'']) = Inr [''posts'']" by code_simp
  have "parse_condition ''resource.data.n == 1'' =
      Inr (Compare (ResourceField ''n'') Eq (IntLiteral 1))" by code_simp
  moreover have "evaluate (Compare (ResourceField ''n'') Eq (IntLiteral 1)) (rule_context None (doc_fields (post ''c'' 2)) [] None [] None []) = Deny"
    by code_simp
  moreover have "access_rules post_rules (''p'', ''posts'') = Some ''resource.data.n == 1''" by (simp add: post_rules_def)
  ultimately show "post ''c'' 2 \<notin> set [post ''a'' 1, post ''b'' 1]"
    using listed_exactly_readable [OF post_listing c] by auto
qed

theorem collection_ids_complete_witness:
  "follow_pages 3 (handle_list_collection_ids (\<lambda>_ _ lim off. Inr (take (nat (sint lim)) (drop (nat (sint off)) [''x'', ''y''])))
     ''projects/p/databases/d/documents'' 1) [] = Some (Inr [''x'', ''y''])"
  using collection_ids_complete [OF post_parent, of "\<lambda>_ _ lim off. Inr (take (nat (sint lim)) (drop (nat (sint off)) [''x'', ''y'']))"
      "[''x'', ''y'']" 1]
  by (simp add: numeral_3_eq_3)

end
