(* ===== verification/Agent_Protocol.thy ===== *)
theory Agent_Protocol
  imports Query_Rows Listing
begin

text \<open>
  Storage behind an agent: the adapter of \<open>embyr-server/src/adapters/agent_backend.rs\<close>, which turns the operations of
  the storage interface into requests, and the service of \<open>embyr-agent/src/server.rs\<close> with its \<open>encoding.rs\<close>, which
  carries them out with the same storage adapter that the server uses directly. The protocol types are generated; a
  \<open>HashMap\<close> of fields is the list of its entries in the order of iteration, and both sides turn it into an ordered
  map. The connection between the two is reliable here: what one side sends, the other receives. What the storage
  adapter answers to a query is an argument, as is the text of a status.
\<close>

section \<open>Values\<close>

datatype agent_value =
    AUnset
  | ANull
  | ABoolean bool
  | AInteger i64
  | ADouble f64
  | ATimestamp i64 i32
  | AString string
  | ABytes "u8 list"
  | AReference string
  | AArray "agent_value list"
  | AMap "(string \<times> agent_value) list"

text \<open>The server's side.\<close>

fun field_value_to_agent_value :: "field_value \<Rightarrow> agent_value" where
  "field_value_to_agent_value FNull = ANull"
| "field_value_to_agent_value (FBoolean b) = ABoolean b"
| "field_value_to_agent_value (FInteger i) = AInteger i"
| "field_value_to_agent_value (FDouble d) = ADouble d"
| "field_value_to_agent_value (FTimestamp s n) = ATimestamp s n"
| "field_value_to_agent_value (FString s) = AString s"
| "field_value_to_agent_value (FBytes b) = ABytes b"
| "field_value_to_agent_value (FReference r) = AReference r"
| "field_value_to_agent_value (FArray vs) = AArray (map field_value_to_agent_value vs)"
| "field_value_to_agent_value (FMap m) = AMap (map (\<lambda>e. (fst e, field_value_to_agent_value (snd e))) m)"

fun agent_value_to_field_value :: "agent_value \<Rightarrow> field_value option" where
  "agent_value_to_field_value AUnset = None"
| "agent_value_to_field_value ANull = Some FNull"
| "agent_value_to_field_value (ABoolean b) = Some (FBoolean b)"
| "agent_value_to_field_value (AInteger i) = Some (FInteger i)"
| "agent_value_to_field_value (ADouble d) = Some (FDouble d)"
| "agent_value_to_field_value (ATimestamp s n) = Some (FTimestamp s n)"
| "agent_value_to_field_value (AString s) = Some (FString s)"
| "agent_value_to_field_value (ABytes b) = Some (FBytes b)"
| "agent_value_to_field_value (AReference r) = Some (FReference r)"
| "agent_value_to_field_value (AArray vs) = map_option FArray (those (map agent_value_to_field_value vs))"
| "agent_value_to_field_value (AMap m) =
     map_option (\<lambda>es. FMap (map_of_entries es))
       (those (map (\<lambda>e. map_option (Pair (fst e)) (agent_value_to_field_value (snd e))) m))"

text \<open>The agent's side.\<close>

fun agent_proto_to_field_value :: "agent_value \<Rightarrow> field_value" where
  "agent_proto_to_field_value AUnset = FNull"
| "agent_proto_to_field_value ANull = FNull"
| "agent_proto_to_field_value (ABoolean b) = FBoolean b"
| "agent_proto_to_field_value (AInteger i) = FInteger i"
| "agent_proto_to_field_value (ADouble d) = FDouble d"
| "agent_proto_to_field_value (AString s) = FString s"
| "agent_proto_to_field_value (ABytes b) = FBytes b"
| "agent_proto_to_field_value (AReference r) = FReference r"
| "agent_proto_to_field_value (ATimestamp s n) = FTimestamp s n"
| "agent_proto_to_field_value (AArray vs) = FArray (map agent_proto_to_field_value vs)"
| "agent_proto_to_field_value (AMap m) = FMap (map_of_entries (map (\<lambda>e. (fst e, agent_proto_to_field_value (snd e))) m))"

fun agent_field_value_to_proto :: "field_value \<Rightarrow> agent_value" where
  "agent_field_value_to_proto FNull = ANull"
| "agent_field_value_to_proto (FBoolean b) = ABoolean b"
| "agent_field_value_to_proto (FInteger i) = AInteger i"
| "agent_field_value_to_proto (FDouble d) = ADouble d"
| "agent_field_value_to_proto (FString s) = AString s"
| "agent_field_value_to_proto (FBytes b) = ABytes b"
| "agent_field_value_to_proto (FReference r) = AReference r"
| "agent_field_value_to_proto (FTimestamp s n) = ATimestamp s n"
| "agent_field_value_to_proto (FArray vs) = AArray (map agent_field_value_to_proto vs)"
| "agent_field_value_to_proto (FMap m) = AMap (map (\<lambda>e. (fst e, agent_field_value_to_proto (snd e))) m)"

definition fields_to_agent_map :: "fields \<Rightarrow> (string \<times> agent_value) list" where
  "fields_to_agent_map fs = map (\<lambda>e. (fst e, field_value_to_agent_value (snd e))) fs"

definition agent_fields_to_domain :: "(string \<times> agent_value) list \<Rightarrow> fields" where
  "agent_fields_to_domain m = map_of_entries (map (\<lambda>e. (fst e, agent_proto_to_field_value (snd e))) m)"

section \<open>Documents and names\<close>

record agent_document =
  ad_name :: string
  ad_fields :: "(string \<times> agent_value) list"
  ad_create_time :: "(i64 \<times> i32) option"
  ad_update_time :: "(i64 \<times> i32) option"
  ad_generation :: i64

definition domain_path_to_agent_name :: "document_path \<Rightarrow> string" where
  "domain_path_to_agent_name p = ''projects/'' @ project_id p @ ''/databases/(default)/documents/'' @
     collection_path p @ ''/'' @ document_id p"

definition domain_path_to_agent_parent :: "string \<Rightarrow> string" where
  "domain_path_to_agent_parent pid = ''projects/'' @ pid @ ''/databases/(default)/documents''"

definition domain_collection_prefix_to_agent_parent :: "string \<Rightarrow> string \<Rightarrow> string" where
  "domain_collection_prefix_to_agent_parent pid cp =
     (let base = ''projects/'' @ pid @ ''/databases/(default)/documents'' in
      if cp = [] then base else base @ ''/'' @ cp)"

definition parse_agent_doc_name :: "string \<Rightarrow> (string \<times> string \<times> string) option" where
  "parse_agent_doc_name name =
     Option.bind (second_piece ''/documents/'' name) (\<lambda>after.
       let segs = split_char (CHR ''/'') after in
       case split_char (CHR ''/'') name of
         _ # pid # _ \<Rightarrow> Some (pid, join ''/'' (butlast segs), last segs)
       | _ \<Rightarrow> None)"

definition agent_doc_to_domain :: "agent_document \<Rightarrow> firestore_document option" where
  "agent_doc_to_domain doc =
     (let tm = (\<lambda>t. case t of Some x \<Rightarrow> x | None \<Rightarrow> (0, 0)) in
      Option.bind (parse_agent_doc_name (ad_name doc)) (\<lambda>(pid, cp, did).
      case project_id_new pid of
        Inl _ \<Rightarrow> None
      | Inr p \<Rightarrow>
          map_option (\<lambda>es. \<lparr>path = \<lparr>project_id = p, collection_path = cp, document_id = did\<rparr>,
              doc_fields = map_of_entries es, create_time = tm (ad_create_time doc),
              update_time = tm (ad_update_time doc), version = 0\<rparr>)
            (those (map (\<lambda>e. map_option (Pair (fst e)) (agent_value_to_field_value (snd e))) (ad_fields doc)))))"

definition domain_doc_to_proto :: "firestore_document \<Rightarrow> agent_document" where
  "domain_doc_to_proto d =
     \<lparr>ad_name = ''projects/'' @ project_id (path d) @ ''/databases/(default)/documents/'' @
        collection_path (path d) @ ''/'' @ document_id (path d),
      ad_fields = map (\<lambda>e. (fst e, agent_field_value_to_proto (snd e))) (doc_fields d),
      ad_create_time = Some (create_time d), ad_update_time = Some (update_time d), ad_generation = version d\<rparr>"

definition bad_request :: "string \<Rightarrow> status" where
  "bad_request msg = Status CInvalidArgument msg"

definition parse_document_name :: "string \<Rightarrow> (status, document_path) result" where
  "parse_document_name name =
     rbind (ok_or (bad_request (''invalid document name: '' @ name)) (strip_prefix ''projects/'' name)) (\<lambda>rest.
     rbind (ok_or (bad_request ''missing project_id separator'') (cut_at ''/'' rest)) (\<lambda>(pid, rest).
     rbind (ok_or (bad_request ''invalid database/documents path'') (strip_prefix ''databases/(default)/documents/'' rest)) (\<lambda>doc_path.
     rbind (ok_or (bad_request ''missing document_id'') (rsplit_once (CHR ''/'') doc_path)) (\<lambda>(cp, did).
     rbind (map_sum (\<lambda>e. bad_request (''invalid project_id: '' @ core_error_message e)) id (project_id_new pid)) (\<lambda>p.
       Inr \<lparr>project_id = p, collection_path = cp, document_id = did\<rparr>)))))"

definition parse_project_id_from_parent :: "string \<Rightarrow> (status, string) result" where
  "parse_project_id_from_parent parent =
     rbind (ok_or (bad_request (''invalid parent: '' @ parent)) (strip_prefix ''projects/'' parent)) (\<lambda>rest.
     map_sum id fst (ok_or (bad_request ''missing project_id in parent'') (cut_at ''/'' rest)))"

definition parent_prefix :: "string \<Rightarrow> (status, string) result" where
  "parent_prefix parent =
     map_sum id (\<lambda>(_, after). dropWhile (\<lambda>c. c = CHR ''/'') after)
       (ok_or (bad_request ''parent missing databases/(default)/documents'') (cut_at ''databases/(default)/documents'' parent))"

definition build_collection_path :: "string \<Rightarrow> string \<Rightarrow> (status, string) result" where
  "build_collection_path parent cid =
     map_sum id (\<lambda>prefix. if prefix = [] then cid else prefix @ ''/'' @ cid) (parent_prefix parent)"

section \<open>Errors\<close>

fun agent_error_to_status :: "core_error \<Rightarrow> status" where
  "agent_error_to_status (DocumentNotFound s) = Status CNotFound s"
| "agent_error_to_status (AlreadyExists s) = Status CAlreadyExists s"
| "agent_error_to_status OccConflict = Status CFailedPrecondition ''optimistic concurrency conflict''"
| "agent_error_to_status (FailedPrecondition s) = Status CFailedPrecondition s"
| "agent_error_to_status (InvalidArgument s) = Status CInvalidArgument s"
| "agent_error_to_status (BackendUnavailable s) = Status CInternal ''internal server error''"
| "agent_error_to_status TransactionNotFound = Status CNotFound ''transaction not found or expired''"
| "agent_error_to_status TransactionAborted = Status CAborted ''transaction aborted''"
| "agent_error_to_status (ProjectNotFound s) = Status CNotFound s"
| "agent_error_to_status (PermissionDenied s) = Status CPermissionDenied s"
| "agent_error_to_status Unauthenticated = Status CUnauthenticated ''unauthenticated''"
| "agent_error_to_status (ResourceExhausted s) = Status CResourceExhausted s"

text \<open>The text of a status is the library's.\<close>

definition grpc_err :: "(status \<Rightarrow> string) \<Rightarrow> status \<Rightarrow> core_error" where
  "grpc_err show_status st = BackendUnavailable (''agent gRPC error: '' @ show_status st)"

section \<open>Writes and filters\<close>

definition precondition_to_agent :: "write_precondition \<Rightarrow> proto_precondition" where
  "precondition_to_agent p =
     (case p of MustExist \<Rightarrow> PcExists True | MustNotExist \<Rightarrow> PcExists False | UpdateTime s n \<Rightarrow> PcUpdateTime s n)"

definition parse_precondition :: "proto_precondition option \<Rightarrow> write_precondition option" where
  "parse_precondition p =
     (case p of
        None \<Rightarrow> None
      | Some PcUnset \<Rightarrow> None
      | Some (PcExists b) \<Rightarrow> Some (if b then MustExist else MustNotExist)
      | Some (PcUpdateTime s n) \<Rightarrow> Some (UpdateTime s n))"

datatype agent_transform_type =
    ATUnset
  | ATSetToServerValue i32
  | ATIncrement agent_value
  | ATMaximum agent_value
  | ATMinimum agent_value
  | ATAppendMissingElements "agent_value list"
  | ATRemoveAllFromArray "agent_value list"

fun field_transform_to_agent :: "field_transform \<Rightarrow> string \<times> agent_transform_type" where
  "field_transform_to_agent (ServerTimestamp p) = (p, ATSetToServerValue 1)"
| "field_transform_to_agent (Increment p v) = (p, ATIncrement (field_value_to_agent_value v))"
| "field_transform_to_agent (Maximum p v) = (p, ATMaximum (field_value_to_agent_value v))"
| "field_transform_to_agent (Minimum p v) = (p, ATMinimum (field_value_to_agent_value v))"
| "field_transform_to_agent (AppendMissingElements p vs) = (p, ATAppendMissingElements (map field_value_to_agent_value vs))"
| "field_transform_to_agent (RemoveAllFromArray p vs) = (p, ATRemoveAllFromArray (map field_value_to_agent_value vs))"

definition is_numeric :: "field_value \<Rightarrow> bool" where
  "is_numeric v = (case v of FInteger _ \<Rightarrow> True | FDouble _ \<Rightarrow> True | _ \<Rightarrow> False)"

definition agent_numeric :: "string \<Rightarrow> agent_value \<Rightarrow> (status, field_value) result" where
  "agent_numeric msg v =
     (let fv = agent_proto_to_field_value v in if is_numeric fv then Inr fv else Inl (bad_request msg))"

definition agent_translate_transform :: "string \<times> agent_transform_type \<Rightarrow> (status, field_transform) result" where
  "agent_translate_transform ft =
     (let fp = fst ft in
      case snd ft of
        ATSetToServerValue raw \<Rightarrow>
          if raw = 1 then Inr (ServerTimestamp fp) else Inl (bad_request ''unsupported ServerValue in field transform'')
      | ATIncrement v \<Rightarrow> map_sum id (Increment fp) (agent_numeric ''increment delta must be numeric'' v)
      | ATMaximum v \<Rightarrow> map_sum id (Maximum fp) (agent_numeric ''maximum comparand must be numeric'' v)
      | ATMinimum v \<Rightarrow> map_sum id (Minimum fp) (agent_numeric ''minimum comparand must be numeric'' v)
      | ATAppendMissingElements vs \<Rightarrow> Inr (AppendMissingElements fp (map agent_proto_to_field_value vs))
      | ATRemoveAllFromArray vs \<Rightarrow> Inr (RemoveAllFromArray fp (map agent_proto_to_field_value vs))
      | ATUnset \<Rightarrow> Inl (bad_request ''field transform missing transform_type''))"

definition agent_translate_transforms :: "(string \<times> agent_transform_type) list \<Rightarrow> (status, field_transform list) result" where
  "agent_translate_transforms fts = collect_results (map agent_translate_transform fts)"

datatype agent_operation = AUpdate agent_document | ADelete string | ATransform string "(string \<times> agent_transform_type) list"

record agent_write =
  aw_operation :: "agent_operation option"
  aw_precondition :: "proto_precondition option"
  aw_transforms :: "(string \<times> agent_transform_type) list"

definition request_document :: "string \<Rightarrow> fields \<Rightarrow> agent_document" where
  "request_document name fs =
     \<lparr>ad_name = name, ad_fields = fields_to_agent_map fs, ad_create_time = None, ad_update_time = None, ad_generation = 0\<rparr>"

fun write_to_agent :: "db_write \<Rightarrow> agent_write" where
  "write_to_agent (WUpdate p fs v pc ts) =
     \<lparr>aw_operation = Some (AUpdate (request_document (domain_path_to_agent_name p) fs)),
      aw_precondition = map_option precondition_to_agent pc, aw_transforms = map field_transform_to_agent ts\<rparr>"
| "write_to_agent (WDelete p v pc) =
     \<lparr>aw_operation = Some (ADelete (domain_path_to_agent_name p)),
      aw_precondition = map_option precondition_to_agent pc, aw_transforms = []\<rparr>"
| "write_to_agent (WTransform p ts) =
     \<lparr>aw_operation = Some (ATransform (domain_path_to_agent_name p) (map field_transform_to_agent ts)),
      aw_precondition = None, aw_transforms = []\<rparr>"

definition proto_write_to_domain :: "agent_write \<Rightarrow> (status, db_write) result" where
  "proto_write_to_domain w =
     (let pc = parse_precondition (aw_precondition w) in
      rbind (agent_translate_transforms (aw_transforms w)) (\<lambda>ts.
      case aw_operation w of
        Some (AUpdate doc) \<Rightarrow>
          map_sum id (\<lambda>p. WUpdate p (agent_fields_to_domain (ad_fields doc)) None pc ts) (parse_document_name (ad_name doc))
      | Some (ADelete name) \<Rightarrow> map_sum id (\<lambda>p. WDelete p None pc) (parse_document_name name)
      | Some (ATransform name fts) \<Rightarrow>
          rbind (parse_document_name name) (\<lambda>p. map_sum id (WTransform p) (agent_translate_transforms fts))
      | None \<Rightarrow> Inl (bad_request ''write operation required'')))"

text \<open>Operators are sent as the numbers of the protocol's enumeration; 0 is unspecified.\<close>

fun domain_filter_op_to_agent :: "filter_op \<Rightarrow> (core_error, i32) result" where
  "domain_filter_op_to_agent LessThan = Inr 1"
| "domain_filter_op_to_agent LessThanOrEqual = Inr 2"
| "domain_filter_op_to_agent GreaterThan = Inr 3"
| "domain_filter_op_to_agent GreaterThanOrEqual = Inr 4"
| "domain_filter_op_to_agent Equal = Inr 5"
| "domain_filter_op_to_agent NotEqual = Inr 6"
| "domain_filter_op_to_agent ArrayContains = Inr 7"
| "domain_filter_op_to_agent OpIn = Inr 8"
| "domain_filter_op_to_agent NotIn = Inr 9"
| "domain_filter_op_to_agent ArrayContainsAny = Inr 10"
| "domain_filter_op_to_agent _ =
     Inl (InvalidArgument ''IS_NAN/IS_NOT_NAN/IS_NULL/IS_NOT_NULL filters are not supported in backend_mode=agent'')"

definition proto_filter_op_to_domain :: "i32 \<Rightarrow> (status, filter_op) result" where
  "proto_filter_op_to_domain op =
     (if op = 1 then Inr LessThan else if op = 2 then Inr LessThanOrEqual else if op = 3 then Inr GreaterThan
      else if op = 4 then Inr GreaterThanOrEqual else if op = 5 then Inr Equal else if op = 6 then Inr NotEqual
      else if op = 7 then Inr ArrayContains else if op = 8 then Inr OpIn else if op = 9 then Inr NotIn
      else if op = 10 then Inr ArrayContainsAny else Inl (bad_request ''filter op unspecified''))"

datatype agent_filter =
    AFilterUnset
  | AFieldFilter string i32 "agent_value option"
  | ACompositeFilter i32 "agent_filter list"

fun domain_filter_to_agent_filter :: "query_filter \<Rightarrow> (core_error, agent_filter) result" where
  "domain_filter_to_agent_filter (Field ff) =
     map_sum id (\<lambda>op. AFieldFilter (field_path ff) op (Some (field_value_to_agent_value (filter_value ff))))
       (domain_filter_op_to_agent (filter_op ff))"
| "domain_filter_to_agent_filter (Composite fs) =
     map_sum id (ACompositeFilter 1) (collect_results (map domain_filter_to_agent_filter fs))"
| "domain_filter_to_agent_filter (CompositeOr fs) =
     Inl (FailedPrecondition ''OR filters are not supported when backend_mode=agent'')"

fun proto_filter_to_domain :: "agent_filter \<Rightarrow> (status, query_filter) result" where
  "proto_filter_to_domain (AFieldFilter fp op v) =
     rbind (map_sum agent_error_to_status id (validate_field_path fp)) (\<lambda>_.
     rbind (proto_filter_op_to_domain op) (\<lambda>dop.
       Inr (Field \<lparr>field_path = fp, filter_op = dop,
         filter_value = (case v of Some x \<Rightarrow> agent_proto_to_field_value x | None \<Rightarrow> FNull)\<rparr>)))"
| "proto_filter_to_domain (ACompositeFilter op fs) =
     map_sum id Composite (collect_results (map proto_filter_to_domain fs))"
| "proto_filter_to_domain AFilterUnset = Inl (bad_request ''filter_type required in Filter'')"

section \<open>The agent's service: documents\<close>

definition agent_get_document :: "store_env \<Rightarrow> string \<Rightarrow> database \<Rightarrow> (status, agent_document) result" where
  "agent_get_document env name db =
     (if name = [] then Inl (bad_request ''name is required'')
      else rbind (parse_document_name name) (\<lambda>p.
        case read_document env p db of
          Inr (Some d) \<Rightarrow> Inr (domain_doc_to_proto d)
        | Inr None \<Rightarrow> Inl (Status CNotFound (''document not found: '' @ name))
        | Inl e \<Rightarrow> Inl (agent_error_to_status e)))"

text \<open>The document fetched after a write, for the response.\<close>

definition fetch_written :: "store_env \<Rightarrow> string \<Rightarrow> document_path \<Rightarrow> database \<Rightarrow> (status, agent_document) result" where
  "fetch_written env what p db =
     (case read_document env p db of
        Inr (Some d) \<Rightarrow> Inr (domain_doc_to_proto d)
      | Inr None \<Rightarrow> Inl (Status CInternal (''document not found after '' @ what))
      | Inl e \<Rightarrow> Inl (agent_error_to_status e))"

definition agent_create_document ::
  "store_env \<Rightarrow> date_time \<Rightarrow> string \<Rightarrow> string \<Rightarrow> string \<Rightarrow> string \<Rightarrow> agent_document option \<Rightarrow> database \<Rightarrow>
     (status, agent_document) result \<times> database" where
  "agent_create_document env now fresh parent cid did doc db =
     (if parent = [] then (Inl (bad_request ''parent is required''), db)
      else if cid = [] then (Inl (bad_request ''collection_id is required''), db)
      else case rbind (parse_project_id_from_parent parent) (\<lambda>pid.
          rbind (build_collection_path parent cid) (\<lambda>cp.
          rbind (map_sum (\<lambda>e. bad_request (''invalid project_id: '' @ core_error_message e)) id (project_id_new pid)) (\<lambda>p.
            Inr \<lparr>project_id = p, collection_path = cp, document_id = (if did = [] then fresh else did)\<rparr>))) of
        Inl e \<Rightarrow> (Inl e, db)
      | Inr p \<Rightarrow>
          (case create_document env now p (case doc of Some d \<Rightarrow> agent_fields_to_domain (ad_fields d) | None \<Rightarrow> []) db of
             (Inl e, db') \<Rightarrow> (Inl (agent_error_to_status e), db')
           | (Inr _, db') \<Rightarrow> (fetch_written env ''creation'' p db', db')))"

definition bt_remove :: "string \<Rightarrow> 'a btree_map \<Rightarrow> 'a btree_map" where
  "bt_remove k m = filter (\<lambda>e. fst e \<noteq> k) m"

definition merge_masked :: "fields \<Rightarrow> string list \<Rightarrow> fields \<Rightarrow> fields" where
  "merge_masked update paths current =
     foldl (\<lambda>merged fp. case bt_get update fp of Some v \<Rightarrow> bt_insert fp v merged | None \<Rightarrow> bt_remove fp merged) current paths"

definition agent_update_document ::
  "store_env \<Rightarrow> date_time \<Rightarrow> agent_document option \<Rightarrow> string list option \<Rightarrow> proto_precondition option \<Rightarrow> database \<Rightarrow>
     (status, agent_document) result \<times> database" where
  "agent_update_document env now doc paths pc db =
     (case rbind (ok_or (bad_request ''document is required'') doc) (\<lambda>d.
          if ad_name d = [] then Inl (bad_request ''document.name is required'')
          else rbind (parse_document_name (ad_name d)) (\<lambda>p.
            let update = agent_fields_to_domain (ad_fields d) in
            case paths of
              Some (m # ms) \<Rightarrow>
                (case read_document env p db of
                   Inl e \<Rightarrow> Inl (agent_error_to_status e)
                 | Inr None \<Rightarrow> Inl (Status CNotFound (''document not found: '' @ ad_name d))
                 | Inr (Some cur) \<Rightarrow> Inr (p, merge_masked update (m # ms) (doc_fields cur)))
            | _ \<Rightarrow> Inr (p, update))) of
        Inl e \<Rightarrow> (Inl e, db)
      | Inr (p, fs) \<Rightarrow>
          (case update_document env now p fs (parse_precondition pc) db of
             (Inl e, db') \<Rightarrow> (Inl (agent_error_to_status e), db')
           | (Inr _, db') \<Rightarrow> (fetch_written env ''update'' p db', db')))"

text \<open>A missing document is an error only under \<open>MustExist\<close>.\<close>

definition agent_delete_document ::
  "store_env \<Rightarrow> date_time \<Rightarrow> string \<Rightarrow> proto_precondition option \<Rightarrow> database \<Rightarrow> (status, unit) result \<times> database" where
  "agent_delete_document env now name pc db =
     (if name = [] then (Inl (bad_request ''name is required''), db)
      else case parse_document_name name of
        Inl e \<Rightarrow> (Inl e, db)
      | Inr p \<Rightarrow>
          (let pre = parse_precondition pc in
           case delete_document env now p pre db of
             (Inr _, db') \<Rightarrow> (Inr (), db')
           | (Inl (DocumentNotFound msg), db') \<Rightarrow>
               (if pre = Some MustExist then Inl (Status CNotFound (''document not found: '' @ msg)) else Inr (), db')
           | (Inl e, db') \<Rightarrow> (Inl (agent_error_to_status e), db')))"

section \<open>The agent's service: queries\<close>

text \<open>The query the agent runs holds the filter and the collection of the request, and nothing else.\<close>

definition bare_query :: "string \<Rightarrow> bool \<Rightarrow> query_filter option \<Rightarrow> structured_query" where
  "bare_query cid descendants f =
     \<lparr>query_collection_id = cid, all_descendants = descendants, query_filter_of = f, query_order_by = [],
      query_limit = None, query_offset = None, start_at = None, end_at = None, since_update_time = None\<rparr>"

definition transpose_filter :: "('a \<Rightarrow> ('e, 'b) result) \<Rightarrow> 'a option \<Rightarrow> ('e, 'b option) result" where
  "transpose_filter f x = (case x of None \<Rightarrow> Inr None | Some a \<Rightarrow> map_sum id Some (f a))"

type_synonym run_query = "string \<Rightarrow> string \<Rightarrow> structured_query \<Rightarrow> (core_error, firestore_document list) result"

record agent_query =
  aq_from :: "(string \<times> bool) list"
  aq_filter :: "agent_filter option"

definition agent_run_query :: "run_query \<Rightarrow> string \<Rightarrow> agent_query option \<Rightarrow> (status, agent_document list) result" where
  "agent_run_query storage parent q =
     rbind (ok_or (bad_request ''query_type is required'') q) (\<lambda>sq.
     rbind (case aq_from sq of [] \<Rightarrow> Inl (bad_request ''from clause is required'') | f # _ \<Rightarrow> Inr f) (\<lambda>(cid, descendants).
     rbind (transpose_filter proto_filter_to_domain (aq_filter sq)) (\<lambda>f.
     rbind (parse_project_id_from_parent parent) (\<lambda>pid.
     rbind (map_sum (\<lambda>e. bad_request (''invalid project_id: '' @ core_error_message e)) id (project_id_new pid)) (\<lambda>p.
       map_sum agent_error_to_status (map domain_doc_to_proto) (storage p cid (bare_query cid descendants f)))))))"

text \<open>The number of documents is cast to 64 bits.\<close>

definition agent_run_aggregation_query :: "run_query \<Rightarrow> string \<Rightarrow> agent_query option \<Rightarrow> (status, i64) result" where
  "agent_run_aggregation_query storage parent q =
     rbind (ok_or (bad_request ''query_type is required'') q) (\<lambda>sq.
     rbind (case aq_from sq of [] \<Rightarrow> Inl (bad_request ''from clause required'') | f # _ \<Rightarrow> Inr f) (\<lambda>(cid, descendants).
     rbind (parse_project_id_from_parent parent) (\<lambda>pid.
     rbind (transpose_filter proto_filter_to_domain (aq_filter sq)) (\<lambda>f.
     rbind (map_sum (\<lambda>e. bad_request (core_error_message e)) id (project_id_new pid)) (\<lambda>p.
       map_sum agent_error_to_status (\<lambda>docs. word_of_nat (length docs)) (storage p cid (bare_query cid descendants f)))))))"

text \<open>The agent has a copy of the page tokens of its own.\<close>

definition agent_encode_page_token :: "u32 \<Rightarrow> string" where
  "agent_encode_page_token off = map (\<lambda>i. hex_digit (unat off div 16 ^ i mod 16)) (rev [0..<8])"

definition agent_decode_page_token :: "string \<Rightarrow> (status, u32) result" where
  "agent_decode_page_token token =
     (if token = [] then Inr 0
      else ok_or (bad_request (''invalid page_token: '' @ token)) (from_str_radix16 token))"

definition cut_page :: "i32 \<Rightarrow> u32 \<Rightarrow> 'a list \<Rightarrow> 'a list \<times> string" where
  "cut_page page_size off xs =
     (let has_more = unat page_size < length xs in
      (if has_more then take (unat page_size) xs else xs, if has_more then agent_encode_page_token (off + page_size) else []))"

text \<open>In the message for an empty collection id a dash of the source is a hyphen here.\<close>

definition agent_list_documents :: "run_query \<Rightarrow> string \<Rightarrow> string \<Rightarrow> i32 \<Rightarrow> string \<Rightarrow> (status, agent_document list \<times> string) result" where
  "agent_list_documents storage parent cid requested token =
     rbind (parse_project_id_from_parent parent) (\<lambda>pid.
     let page_size = (if sint requested \<le> 0 then 100 else if sint requested \<le> 100 then requested else 100) in
     rbind (agent_decode_page_token token) (\<lambda>off.
     rbind (map_sum (\<lambda>e. bad_request (core_error_message e)) id (project_id_new pid)) (\<lambda>p.
     if cid = [] then Inl (Status CUnimplemented (''ListDocuments with an empty collection_id (list documents across every '' @
       ''collection under parent) is not implemented on the agent'' @ [squote] @ ''s own dedicated '' @
       ''RPC - embyr-server does not call this RPC for that case either (see ADR-050 Escalation 1); pass an explicit collection_id''))
     else rbind (build_collection_path parent cid) (\<lambda>cp.
     map_sum agent_error_to_status (\<lambda>docs. let (page, next) = cut_page page_size off docs in (map domain_doc_to_proto page, next))
       (storage p cp ((bare_query cid False None)\<lparr>query_limit := Some (page_size + 1), query_offset := Some off\<rparr>))))))"

type_synonym list_ids = "string \<Rightarrow> string \<Rightarrow> i32 \<Rightarrow> i32 \<Rightarrow> (core_error, string list) result"

definition agent_list_collection_ids :: "list_ids \<Rightarrow> string \<Rightarrow> i32 \<Rightarrow> string \<Rightarrow> (status, string list \<times> string) result" where
  "agent_list_collection_ids answer parent requested token =
     rbind (parse_project_id_from_parent parent) (\<lambda>pid.
     rbind (parent_prefix parent) (\<lambda>prefix.
     let page_size = (if sint requested \<le> 0 then 100 else if sint requested \<le> 100 then requested else 100) in
     rbind (agent_decode_page_token token) (\<lambda>off.
     rbind (map_sum (\<lambda>e. bad_request (core_error_message e)) id (project_id_new pid)) (\<lambda>p.
       map_sum agent_error_to_status (cut_page page_size off) (answer p prefix (page_size + 1) off)))))"

section \<open>The agent's service: transactions\<close>

text \<open>The project is the one the agent is configured for. Transactions are begun with a fresh id.\<close>

definition agent_project :: "string \<Rightarrow> (status, string) result" where
  "agent_project pid = map_sum (\<lambda>e. Status CInternal (core_error_message e)) id (project_id_new pid)"

definition agent_begin_transaction :: "date_time \<Rightarrow> u8 list \<Rightarrow> string \<Rightarrow> database \<Rightarrow> (status, u8 list) result \<times> database" where
  "agent_begin_transaction now fresh pid db =
     (case agent_project pid of
        Inl e \<Rightarrow> (Inl e, db)
      | Inr p \<Rightarrow> (case begin_transaction now fresh p db of (r, db') \<Rightarrow> (map_sum agent_error_to_status id r, db')))"

definition agent_commit_error :: "core_error \<Rightarrow> status" where
  "agent_commit_error e =
     (case e of
        TransactionNotFound \<Rightarrow> Status CNotFound ''transaction not found or expired''
      | TransactionAborted \<Rightarrow> Status CAborted ''transaction aborted: OCC conflict''
      | other \<Rightarrow> agent_error_to_status other)"

text \<open>The commit time of the response is left out.\<close>

definition agent_commit ::
  "store_env \<Rightarrow> date_time \<Rightarrow> date_time \<Rightarrow> string \<Rightarrow> u8 list \<Rightarrow> agent_write list \<Rightarrow> database \<Rightarrow>
     ((status, (i64 \<times> i32) list) result \<times> database) option" where
  "agent_commit env now now' pid tid ws db =
     (case rbind (agent_project pid) (\<lambda>p. map_sum id (Pair p) (collect_results (map proto_write_to_domain ws))) of
        Inl e \<Rightarrow> Some (Inl e, db)
      | Inr (p, dws) \<Rightarrow>
          map_option (\<lambda>(r, db'). (map_sum agent_commit_error (map wr_update_time) r, db'))
            (commit_transaction env now now' p tid dws db))"

definition agent_rollback :: "string \<Rightarrow> u8 list \<Rightarrow> database \<Rightarrow> (status, unit) result \<times> database" where
  "agent_rollback pid tid db =
     (case agent_project pid of
        Inl e \<Rightarrow> (Inl e, db)
      | Inr p \<Rightarrow>
          (case rollback_transaction p tid db of
             (Inl TransactionNotFound, db') \<Rightarrow> (Inl (Status CNotFound ''transaction not found or already committed''), db')
           | (r, db') \<Rightarrow> (map_sum agent_error_to_status id r, db')))"

section \<open>The server's adapter\<close>

definition adapter_get_document ::
  "(status \<Rightarrow> string) \<Rightarrow> store_env \<Rightarrow> document_path \<Rightarrow> u8 list option \<Rightarrow> database \<Rightarrow> (core_error, firestore_document option) result" where
  "adapter_get_document show_status env p txn db =
     (case agent_get_document env (domain_path_to_agent_name p) db of
        Inr doc \<Rightarrow> Inr (agent_doc_to_domain doc)
      | Inl st \<Rightarrow> if status_code st = CNotFound then Inr None else Inl (grpc_err show_status st))"

definition response_result :: "agent_document \<Rightarrow> write_result" where
  "response_result doc =
     \<lparr>wr_update_time = (case ad_update_time doc of Some t \<Rightarrow> t | None \<Rightarrow> (0, 0)), wr_create_time = ad_create_time doc,
      transform_results = []\<rparr>"

definition adapter_create_document ::
  "(status \<Rightarrow> string) \<Rightarrow> store_env \<Rightarrow> date_time \<Rightarrow> string \<Rightarrow> document_path \<Rightarrow> fields \<Rightarrow> database \<Rightarrow>
     (core_error, write_result) result \<times> database" where
  "adapter_create_document show_status env now fresh p fs db =
     (case agent_create_document env now fresh (domain_path_to_agent_parent (project_id p)) (collection_path p) (document_id p)
        (Some (request_document [] fs)) db of
        (r, db') \<Rightarrow> (map_sum (grpc_err show_status) response_result r, db'))"

definition adapter_update_document ::
  "(status \<Rightarrow> string) \<Rightarrow> store_env \<Rightarrow> date_time \<Rightarrow> document_path \<Rightarrow> fields \<Rightarrow> write_precondition option \<Rightarrow> database \<Rightarrow>
     (core_error, write_result) result \<times> database" where
  "adapter_update_document show_status env now p fs pc db =
     (case agent_update_document env now (Some (request_document (domain_path_to_agent_name p) fs)) None
        (map_option precondition_to_agent pc) db of
        (r, db') \<Rightarrow> (map_sum (grpc_err show_status) response_result r, db'))"

definition adapter_delete_document ::
  "(status \<Rightarrow> string) \<Rightarrow> store_env \<Rightarrow> date_time \<Rightarrow> document_path \<Rightarrow> write_precondition option \<Rightarrow> database \<Rightarrow>
     (core_error, unit) result \<times> database" where
  "adapter_delete_document show_status env now p pc db =
     (case agent_delete_document env now (domain_path_to_agent_name p) (map_option precondition_to_agent pc) db of
        (r, db') \<Rightarrow> (map_sum (grpc_err show_status) id r, db'))"

definition adapter_run_query ::
  "(status \<Rightarrow> string) \<Rightarrow> run_query \<Rightarrow> string \<Rightarrow> string \<Rightarrow> structured_query \<Rightarrow> u8 list option \<Rightarrow>
     (core_error, firestore_document list) result" where
  "adapter_run_query show_status storage pid cp q txn =
     rbind (transpose_filter domain_filter_to_agent_filter (query_filter_of q)) (\<lambda>f.
     map_sum (grpc_err show_status) (List.map_filter agent_doc_to_domain)
       (agent_run_query storage (domain_path_to_agent_parent pid) (Some \<lparr>aq_from = [(cp, False)], aq_filter = f\<rparr>)))"

definition adapter_run_aggregation_query ::
  "(status \<Rightarrow> string) \<Rightarrow> run_query \<Rightarrow> string \<Rightarrow> string \<Rightarrow> aggregation_kind \<Rightarrow> structured_query \<Rightarrow> u8 list option \<Rightarrow>
     (core_error, i64) result" where
  "adapter_run_aggregation_query show_status storage pid cp kind q txn =
     (case kind of
        Count \<Rightarrow>
          rbind (transpose_filter domain_filter_to_agent_filter (query_filter_of q)) (\<lambda>f.
          map_sum (grpc_err show_status) id
            (agent_run_aggregation_query storage (domain_path_to_agent_parent pid)
              (Some \<lparr>aq_from = [(cp, all_descendants q)], aq_filter = f\<rparr>)))
      | _ \<Rightarrow> Inl (FailedPrecondition ''SUM/AVG aggregation is not supported for backend_mode=agent in v1''))"

text \<open>The loop over the pages of the agent, with a bound on the number of requests.\<close>

fun collect_pages ::
  "nat \<Rightarrow> (string \<Rightarrow> (core_error, string list \<times> string) result) \<Rightarrow> i32 \<Rightarrow> string list \<Rightarrow> string \<Rightarrow> (core_error, string list) result option" where
  "collect_pages 0 request lim collected token = None"
| "collect_pages (Suc n) request lim collected token =
     (case request token of
        Inl e \<Rightarrow> Some (Inl e)
      | Inr (ids, next) \<Rightarrow>
          (let collected = collected @ ids in
           if next = [] \<or> sint lim \<le> int (length collected) then Some (Inr collected)
           else collect_pages n request lim collected next))"

definition adapter_list_collection_ids ::
  "nat \<Rightarrow> (status \<Rightarrow> string) \<Rightarrow> list_ids \<Rightarrow> string \<Rightarrow> string \<Rightarrow> i32 \<Rightarrow> i32 \<Rightarrow> (core_error, string list) result option" where
  "adapter_list_collection_ids n show_status answer pid cp lim off =
     map_option (map_sum id (take (nat (sint lim))))
       (collect_pages n
         (\<lambda>token. map_sum (grpc_err show_status) id
           (agent_list_collection_ids answer (domain_collection_prefix_to_agent_parent pid cp) 100 token))
         lim [] (encode_page_token (if sint off < 0 then 0 else off)))"

definition adapter_begin_transaction ::
  "(status \<Rightarrow> string) \<Rightarrow> date_time \<Rightarrow> u8 list \<Rightarrow> string \<Rightarrow> string \<Rightarrow> database \<Rightarrow> (core_error, u8 list) result \<times> database" where
  "adapter_begin_transaction show_status now fresh configured pid db =
     (case agent_begin_transaction now fresh configured db of (r, db') \<Rightarrow> (map_sum (grpc_err show_status) id r, db'))"

definition adapter_commit_transaction ::
  "(status \<Rightarrow> string) \<Rightarrow> store_env \<Rightarrow> date_time \<Rightarrow> date_time \<Rightarrow> string \<Rightarrow> string \<Rightarrow> u8 list \<Rightarrow> db_write list \<Rightarrow> database \<Rightarrow>
     ((core_error, write_result list) result \<times> database) option" where
  "adapter_commit_transaction show_status env now now' configured pid tid ws db =
     map_option (\<lambda>(r, db'). (map_sum (grpc_err show_status)
         (map (\<lambda>t. \<lparr>wr_update_time = t, wr_create_time = None, transform_results = []\<rparr>)) r, db'))
       (agent_commit env now now' configured tid (map write_to_agent ws) db)"

definition adapter_rollback_transaction ::
  "(status \<Rightarrow> string) \<Rightarrow> string \<Rightarrow> string \<Rightarrow> u8 list \<Rightarrow> database \<Rightarrow> (core_error, unit) result \<times> database" where
  "adapter_rollback_transaction show_status configured pid tid db =
     (case agent_rollback configured tid db of (r, db') \<Rightarrow> (map_sum (grpc_err show_status) id r, db'))"

end
