(* ===== verification/Agent_Equivalence.thy ===== *)
theory Agent_Equivalence
  imports Agent_Protocol Transaction_Safety
begin

text \<open>
  A project behind an agent stores the same documents as one with a direct connection. Values, names, filters and
  writes come through the protocol unchanged; what the adapter does differently is stated exactly: versions and
  transform results are not returned, errors lose their kind, and a read in a transaction is not registered.
\<close>

section \<open>Values come through\<close>

lemma agent_encoders_agree: "agent_field_value_to_proto v = field_value_to_agent_value v"
  by (induction v) auto

lemma agent_value_roundtrip:
  shows "fv_wf v \<Longrightarrow> agent_value_to_field_value (field_value_to_agent_value v) = Some v"
    and "fv_wf_list xs \<Longrightarrow> those (map agent_value_to_field_value (map field_value_to_agent_value xs)) = Some xs"
    and "fv_wf_map m \<Longrightarrow> \<forall>e \<in> set m. agent_value_to_field_value (field_value_to_agent_value (snd e)) = Some (snd e)"
proof (induction v and xs and m rule: fv_wf_fv_wf_list_fv_wf_map.induct)
  case (2 m)
  then have "those (map (\<lambda>e. map_option (Pair (fst e)) (agent_value_to_field_value (snd e)))
      (map (\<lambda>e. (fst e, field_value_to_agent_value (snd e))) m)) = Some m"
    by (intro those_map_entries) simp
  then show ?case using 2 map_of_entries_sorted by simp
qed auto

lemma agent_receives:
  shows "fv_wf v \<Longrightarrow> agent_proto_to_field_value (field_value_to_agent_value v) = v"
    and "fv_wf_list xs \<Longrightarrow> map agent_proto_to_field_value (map field_value_to_agent_value xs) = xs"
    and "fv_wf_map m \<Longrightarrow> map (\<lambda>e. (fst e, agent_proto_to_field_value (field_value_to_agent_value (snd e)))) m = m"
proof (induction v and xs and m rule: fv_wf_fv_wf_list_fv_wf_map.induct)
  case (2 m)
  then show ?case using map_of_entries_sorted by (simp add: comp_def)
qed auto

lemma agent_fields_roundtrip: "bt_wf fs \<Longrightarrow> fv_wf_map fs \<Longrightarrow> agent_fields_to_domain (fields_to_agent_map fs) = fs"
  using agent_receives(3) [of fs] map_of_entries_sorted [of fs]
  by (simp add: agent_fields_to_domain_def fields_to_agent_map_def comp_def)

lemma agent_fields_returned:
  assumes "bt_wf fs" and "fv_wf_map fs"
  shows "map_option map_of_entries (those (map (\<lambda>e. map_option (Pair (fst e)) (agent_value_to_field_value (snd e)))
      (map (\<lambda>e. (fst e, agent_field_value_to_proto (snd e))) fs))) = Some fs"
  using those_map_entries [of fs agent_value_to_field_value field_value_to_agent_value] agent_value_roundtrip(3) [OF assms(2)]
    map_of_entries_sorted [OF assms(1)]
  by (simp add: agent_encoders_agree)

section \<open>Documents from the database are well formed\<close>

lemma fv_wf_all: "fv_wf_list xs \<longleftrightarrow> (\<forall>x \<in> set xs. fv_wf x)" "fv_wf_map m \<longleftrightarrow> (\<forall>e \<in> set m. fv_wf (snd e))"
proof -
  show "fv_wf_list xs \<longleftrightarrow> (\<forall>x \<in> set xs. fv_wf x)" by (induction xs) auto
  show "fv_wf_map m \<longleftrightarrow> (\<forall>e \<in> set m. fv_wf (snd e))" by (induction m) auto
qed

lemma map_of_entries_wf: "\<forall>e \<in> set es. fv_wf (snd e) \<Longrightarrow> bt_wf (map_of_entries es) \<and> fv_wf_map (map_of_entries es)"
proof
  show "bt_wf (map_of_entries es)"
    unfolding map_of_entries_fold by (intro bt.valid_fold_insert bt.valid_empty)
  have ins: "set (bt_insert k v m) \<subseteq> insert (k, v) (set m)" for k and v :: field_value and m
    by (induction m) (auto split: if_splits)
  have "\<forall>e \<in> set m. fv_wf (snd e) \<Longrightarrow> \<forall>e \<in> set es. fv_wf (snd e) \<Longrightarrow> \<forall>e \<in> set (fold (\<lambda>(k, v). bt_insert k v) es m). fv_wf (snd e)" for m
  proof (induction es arbitrary: m)
    case (Cons e es)
    obtain k v where e: "e = (k, v)" by force
    then have "\<forall>x \<in> set (bt_insert k v m). fv_wf (snd x)" using Cons.prems ins [of k v m] by auto
    from Cons.IH [OF this] show ?case using Cons.prems(2) unfolding e by simp
  qed simp
  from this [of "[]"] show "\<forall>e \<in> set es. fv_wf (snd e) \<Longrightarrow> fv_wf_map (map_of_entries es)"
    unfolding map_of_entries_fold fv_wf_all by auto
qed

lemma those_Some: "those ys = Some zs \<Longrightarrow> set ys = Some ` set zs"
  by (induction ys arbitrary: zs) (auto split: option.splits)

lemma those_entries_wf:
  assumes "those (map (\<lambda>e. map_option (Pair (fst e)) (f (snd e))) m) = Some es"
    and "\<And>e v. e \<in> set m \<Longrightarrow> f (snd e) = Some v \<Longrightarrow> fv_wf v"
  shows "\<forall>e \<in> set es. fv_wf (snd e)"
proof
  fix e assume "e \<in> set es"
  then have "Some e \<in> set (map (\<lambda>e. map_option (Pair (fst e)) (f (snd e))) m)"
    unfolding those_Some [OF assms(1)] by simp
  then obtain x where x: "x \<in> set m" "map_option (Pair (fst x)) (f (snd x)) = Some e" unfolding set_map by (elim imageE) (rule that, auto)
  from x(2) obtain v where "f (snd x) = Some v" "e = (fst x, v)" by (cases "f (snd x)") simp_all
  then show "fv_wf (snd e)" using assms(2) x(1) by simp
qed

lemma scalar_wf: "scalar_of_json dec t v = Some x \<Longrightarrow> fv_wf x"
  by (auto simp: scalar_of_json_def json_to_double_def split: if_splits option.splits bind_splits json.splits)

lemma decoded_value_wf: "json_to_field_value dec j = Some v \<Longrightarrow> fv_wf v"
proof (induction dec j arbitrary: v rule: json_to_field_value.induct)
  case (1 dec j)
  obtain t where t: "Option.bind (json_get j ''t'') json_as_str = Some t"
    using "1.prems" by (subst (asm) json_to_field_value.simps) (auto split: option.splits)
  consider items where "t = ''A''" "json_get j ''v'' = Some (JArray items)"
    | entries where "t \<noteq> ''A''" "t = ''M''" "json_get j ''v'' = Some (JObject entries)"
    | "t \<noteq> ''A''" "t \<noteq> ''M''" "scalar_of_json dec t j = Some v"
    using "1.prems" t by (subst (asm) json_to_field_value.simps) (auto split: option.splits json.splits if_splits)
  then show ?case
  proof cases
    case (1 items)
    then obtain xs where xs: "those (map (json_to_field_value dec) items) = Some xs" "v = FArray xs"
      using "1.prems" t by (subst (asm) json_to_field_value.simps) auto
    then have "\<forall>x \<in> set xs. \<exists>y \<in> set items. json_to_field_value dec y = Some x"
      using those_Some [OF xs(1)] by (force simp: image_iff)
    then show ?thesis using "1.IH"(1) [OF t 1] xs(2) by (auto simp: fv_wf_all)
  next
    case (2 entries)
    then obtain es where es: "those (map (\<lambda>e. map_option (Pair (fst e)) (json_to_field_value dec (snd e))) entries) = Some es"
      "v = FMap (map_of_entries es)"
      using "1.prems" t by (subst (asm) json_to_field_value.simps) auto
    show ?thesis
      using map_of_entries_wf [OF those_entries_wf [OF es(1) "1.IH"(2) [OF t 2]]] es(2) by simp
  qed (auto dest: scalar_wf)
qed

lemma decoded_fields_wf: "decode_fields env js = Inr fs \<Longrightarrow> bt_wf fs \<and> fv_wf_map fs"
proof -
  assume "decode_fields env js = Inr fs"
  then obtain m es where "those (map (\<lambda>e. map_option (Pair (fst e)) (json_to_field_value (b64_decode env) (snd e))) m) = Some es"
    "fs = map_of_entries es"
    by (auto simp: decode_fields_def ok_or_Inr_iff json_to_fields_def split: option.splits)
  then show ?thesis using map_of_entries_wf [OF those_entries_wf [of "json_to_field_value (b64_decode env)" m es]] decoded_value_wf by blast
qed

lemma read_document_wf: "read_document env p db = Inr (Some d) \<Longrightarrow> path d = p \<and> bt_wf (doc_fields d) \<and> fv_wf_map (doc_fields d)"
  using decoded_fields_wf by (fastforce simp: read_document_def rbind_Inr_iff split: option.splits)

section \<open>Names come through\<close>

text \<open>A path that its name leads back to on both sides.\<close>

definition addressable :: "document_path \<Rightarrow> bool" where
  "addressable p \<longleftrightarrow> is_valid_project_id (project_id p) \<and> collection_path p \<noteq> [] \<and> document_id p \<noteq> [] \<and>
     segment (document_id p) \<and> parse_document_path (document_name p) = Inr p"

lemma agent_name: "domain_path_to_agent_name p = document_name p" "ad_name (domain_doc_to_proto d) = document_name (path d)"
  by (simp_all add: domain_path_to_agent_name_def domain_doc_to_proto_def document_name_def)

lemma cut_project:
  assumes "is_valid_project_id pid"
  shows "cut_at ''/'' (pid @ CHR ''/'' # rest) = Some (pid, rest)"
  using cut_at_before [of "''/''" pid "CHR ''/'' # rest"] valid_project_segment [OF assms] by (simp add: segment_def)

lemma parse_own_name:
  assumes "is_valid_project_id (project_id p)" and "segment (document_id p)"
  shows "parse_document_name (document_name p) = Inr p"
proof -
  have "rsplit_once (CHR ''/'') (collection_path p @ CHR ''/'' # document_id p) = Some (collection_path p, document_id p)"
    using assms(2) by (intro rsplit_once_last) (simp add: segment_def)
  then show ?thesis
    using assms(1) cut_project [OF assms(1), of "''databases/(default)/documents/'' @ collection_path p @ ''/'' @ document_id p"]
    by (simp add: parse_document_name_def document_name_def project_id_new_def)
qed

lemma parse_returned_name:
  assumes "parse_document_path n = Inr p"
  shows "parse_agent_doc_name n = Some (project_id p, collection_path p, document_id p) \<and> project_id_new (project_id p) = Inr (project_id p)"
  using assms
  by (auto simp: parse_document_path_def extract_project_id_def parse_agent_doc_name_def rbind_Inr_iff ok_or_Inr_iff map_sum_Inr_iff
      project_id_new_def Let_def split: list.splits if_splits)

lemma returned_document:
  assumes "parse_document_path (document_name (path d)) = Inr (path d)" and "bt_wf (doc_fields d)" and "fv_wf_map (doc_fields d)"
  shows "agent_doc_to_domain (domain_doc_to_proto d) = Some (d\<lparr>version := 0\<rparr>)"
proof -
  have f: "ad_fields (domain_doc_to_proto d) = map (\<lambda>e. (fst e, agent_field_value_to_proto (snd e))) (doc_fields d)"
    "ad_create_time (domain_doc_to_proto d) = Some (create_time d)" "ad_update_time (domain_doc_to_proto d) = Some (update_time d)"
    by (simp_all add: domain_doc_to_proto_def)
  obtain es where "those (map (\<lambda>e. map_option (Pair (fst e)) (agent_value_to_field_value (snd e)))
      (map (\<lambda>e. (fst e, agent_field_value_to_proto (snd e))) (doc_fields d))) = Some es" "map_of_entries es = doc_fields d"
    using agent_fields_returned [OF assms(2,3)] by auto
  then show ?thesis
    using parse_returned_name [OF assms(1)] unfolding agent_doc_to_domain_def agent_name f by (simp add: Let_def)
qed

lemma cut_marker:
  "segment x \<Longrightarrow> cut_at ''databases/(default)/documents'' (x @ CHR ''/'' # ''databases/(default)/documents'' @ t) = Some (x @ ''/'', t)"
proof (induction x)
  case Nil
  show ?case by simp
next
  case (Cons c x)
  let ?m = "''databases/(default)/documents''"
  have "strip_prefix ?m (c # x @ CHR ''/'' # ?m @ t) = None"
  proof (cases "strip_prefix ?m (c # x @ CHR ''/'' # ?m @ t)")
    case (Some r)
    then have e: "(c # x) @ CHR ''/'' # ?m @ t = ''databases'' @ CHR ''/'' # ''(default)/documents'' @ r"
      unfolding strip_prefix_Some_iff by simp
    have "takeWhile (\<lambda>c. c \<noteq> CHR ''/'') ((c # x) @ CHR ''/'' # ?m @ t) = c # x"
      using Cons.prems by (auto simp: segment_def takeWhile_append)
    moreover have "takeWhile (\<lambda>c. c \<noteq> CHR ''/'') (''databases'' @ CHR ''/'' # ''(default)/documents'' @ r) = ''databases''" by simp
    ultimately have "c # x = ''databases''" using e by simp
    with e show ?thesis by simp
  qed
  then show ?case using Cons by (simp add: segment_def del: strip_prefix.simps)
qed

lemma cut_parent:
  assumes "is_valid_project_id pid"
  shows "cut_at ''databases/(default)/documents'' (''projects/'' @ pid @ ''/databases/(default)/documents'' @ t) =
    Some (''projects/'' @ pid @ ''/'', t)"
proof -
  have "cut_at ''databases/(default)/documents'' (''projects/'' @ s) =
      map_option (\<lambda>(a, b). (''projects/'' @ a, b)) (cut_at ''databases/(default)/documents'' s)" for s
    by (intro cut_at_before) simp_all
  then show ?thesis using cut_marker [of pid t] valid_project_segment [OF assms] by simp
qed

lemma agent_parent:
  assumes "is_valid_project_id pid"
  shows "parse_project_id_from_parent (domain_path_to_agent_parent pid) = Inr pid"
    and "build_collection_path (domain_path_to_agent_parent pid) cid = Inr cid"
  using cut_parent [OF assms, of "[]"] cut_project [OF assms, of "''databases/(default)/documents''"]
  by (simp_all add: parse_project_id_from_parent_def build_collection_path_def parent_prefix_def domain_path_to_agent_parent_def)

section \<open>Single documents\<close>

lemma agent_precondition [simp]: "parse_precondition (map_option precondition_to_agent pc) = pc"
  by (auto simp: parse_precondition_def precondition_to_agent_def split: option.splits write_precondition.splits)

lemma document_name_ne [simp]: "document_name p \<noteq> []"
  by (simp add: document_name_def)

lemma addressableD:
  assumes "addressable p"
  shows "parse_document_name (document_name p) = Inr p" "parse_document_path (document_name p) = Inr p"
    "project_id_new (project_id p) = Inr (project_id p)" "is_valid_project_id (project_id p)"
    "collection_path p \<noteq> []" "document_id p \<noteq> []"
  using assms parse_own_name [of p] by (simp_all add: addressable_def project_id_new_def)

lemma read_document_Inl: "read_document env p db = Inl e \<Longrightarrow> \<exists>s. e = BackendUnavailable s"
  by (auto simp: read_document_def rbind_def decode_fields_def ok_or_def split: option.splits sum.splits)

lemma agent_get:
  assumes "addressable p"
  shows "adapter_get_document show_status env p txn db =
    (case read_document env p db of
       Inl e \<Rightarrow> Inl (grpc_err show_status (Status CInternal ''internal server error''))
     | Inr d \<Rightarrow> Inr (map_option (\<lambda>d. d\<lparr>version := 0\<rparr>) d))"
proof (cases "read_document env p db")
  case (Inl e)
  then show ?thesis
    using read_document_Inl [OF Inl] addressableD(1) [OF assms]
    by (auto simp: adapter_get_document_def agent_get_document_def agent_name)
next
  case (Inr x)
  show ?thesis
  proof (cases x)
    case None
    then show ?thesis
      using Inr addressableD(1) [OF assms] by (simp add: adapter_get_document_def agent_get_document_def agent_name)
  next
    case (Some d)
    then have "path d = p" "agent_doc_to_domain (domain_doc_to_proto d) = Some (d\<lparr>version := 0\<rparr>)"
      using read_document_wf [of env p db d] returned_document [of d] Inr addressableD(2) [OF assms] by auto
    then show ?thesis
      using Inr Some addressableD(1) [OF assms] by (simp add: adapter_get_document_def agent_get_document_def agent_name)
  qed
qed

lemma response_of_document:
  "response_result (domain_doc_to_proto d) =
     \<lparr>wr_update_time = update_time d, wr_create_time = Some (create_time d), transform_results = []\<rparr>"
  by (simp add: response_result_def domain_doc_to_proto_def)

lemma update_result: "update_document env now p fs pc db = (Inr w, db') \<Longrightarrow> transform_results w = []"
  by (auto simp: update_document_def Let_def finish_update_Inr split: option.splits write_precondition.splits sum.splits if_splits)

lemma requested_document [simp]: "ad_name (request_document n fs) = n" "ad_fields (request_document n fs) = fields_to_agent_map fs"
  by (simp_all add: request_document_def)

lemma agent_update:
  assumes "addressable p" and "bt_wf fs" and "fv_wf_map fs"
    and "\<And>b. b64_decode env (b64_encode env b) = Some b"
    and "jsonb env (fields_to_json (b64_encode env) fs) = fields_to_json (b64_encode env) fs"
    and "update_document env now p fs pc db = (r, db')"
  shows "\<exists>r'. adapter_update_document show_status env now p fs pc db = (r', db') \<and>
    (case r of
       Inl e \<Rightarrow> r' = Inl (grpc_err show_status (agent_error_to_status e))
     | Inr w \<Rightarrow> \<exists>d. read_document env p db' = Inr (Some d) \<and> r' = Inr (w\<lparr>wr_create_time := Some (create_time d)\<rparr>))"
proof (cases r)
  case (Inl e)
  then show ?thesis
    using assms(6) addressableD(1) [OF assms(1)] agent_fields_roundtrip [OF assms(2,3)]
    by (simp add: adapter_update_document_def agent_update_document_def agent_name Let_def)
next
  case (Inr w)
  then have u: "update_document env now p fs pc db = (Inr w, db')" using assms(6) by simp
  then obtain d where d: "read_document env p db' = Inr (Some d)" "update_time d = now" "wr_update_time w = now"
    using put_get [OF assms(4,5,2,3) u] by blast
  have "adapter_update_document show_status env now p fs pc db = (Inr (response_result (domain_doc_to_proto d)), db')"
    using u d(1) addressableD(1) [OF assms(1)] agent_fields_roundtrip [OF assms(2,3)]
    by (simp add: adapter_update_document_def agent_update_document_def agent_name fetch_written_def Let_def)
  moreover have "response_result (domain_doc_to_proto d) = w\<lparr>wr_create_time := Some (create_time d)\<rparr>"
    using d(2,3) update_result [OF u] by (simp add: response_of_document)
  ultimately show ?thesis using Inr d(1) by auto
qed

lemma agent_create:
  assumes "addressable p" and "bt_wf fs" and "fv_wf_map fs"
    and "\<And>b. b64_decode env (b64_encode env b) = Some b"
    and "jsonb env (fields_to_json (b64_encode env) fs) = fields_to_json (b64_encode env) fs"
  shows "adapter_create_document show_status env now fresh p fs db =
    (case create_document env now p fs db of
       (r, db') \<Rightarrow> (map_sum (\<lambda>e. grpc_err show_status (agent_error_to_status e)) id r, db'))"
proof -
  note a = addressableD [OF assms(1)]
  have p: "\<lparr>project_id = project_id p, collection_path = collection_path p, document_id = document_id p\<rparr> = p" by simp
  have parent: "domain_path_to_agent_parent (project_id p) \<noteq> []" by (simp add: domain_path_to_agent_parent_def)
  obtain r db' where c: "create_document env now p fs db = (r, db')" by force
  have step: "adapter_create_document show_status env now fresh p fs db =
      (case r of Inl e \<Rightarrow> (Inl (grpc_err show_status (agent_error_to_status e)), db')
       | Inr w \<Rightarrow> (map_sum (grpc_err show_status) response_result (fetch_written env ''creation'' p db'), db'))"
    using a(3,5,6) parent c agent_parent [OF a(4)] agent_fields_roundtrip [OF assms(2,3)]
    by (simp add: adapter_create_document_def agent_create_document_def p split: sum.splits)
  show ?thesis
  proof (cases r)
    case (Inr w)
    let ?r = "new_row env (fields_to_json (b64_encode env) fs) now"
    have cr: "create_document env now p fs db = (Inr w, db')" using c Inr by simp
    have db': "db' = send_notify env p (put_row p ?r db)" using create_document_Inr [OF cr] by blast
    have w: "w = \<lparr>wr_update_time = now, wr_create_time = Some now, transform_results = []\<rparr>"
      using cr by (auto simp: create_document_def new_row_def from_datetime_def Let_def split: option.splits)
    have "live_row db' p = Some ?r" unfolding db' by (simp add: live_row_put_row new_row_def)
    moreover have "decode_fields env (row_fields ?r) = Inr (canon_map fs)"
      using decode_stored [OF assms(4,5,2,3)] by (simp add: new_row_def)
    ultimately obtain d where "read_document env p db' = Inr (Some d)" "create_time d = now" "update_time d = now"
      by (simp add: read_document_def from_datetime_def) (simp add: new_row_def)
    then show ?thesis using step c Inr w by (simp add: fetch_written_def response_of_document)
  qed (use step c in simp)
qed

lemma agent_delete:
  assumes "addressable p"
  shows "adapter_delete_document show_status env now p pc db =
    (case delete_document env now p pc db of
       (Inl (DocumentNotFound m), db') \<Rightarrow>
         (if pc = Some MustExist then Inl (grpc_err show_status (Status CNotFound (''document not found: '' @ m))) else Inr (), db')
     | (r, db') \<Rightarrow> (map_sum (\<lambda>e. grpc_err show_status (agent_error_to_status e)) id r, db'))"
  using addressableD(1) [OF assms]
  by (simp add: adapter_delete_document_def agent_delete_document_def agent_name Let_def split: prod.splits sum.splits core_error.splits)


lemma example_addressable: "addressable example_path"
  by code_simp


section \<open>Commits\<close>

fun sendable_transform :: "field_transform \<Rightarrow> bool" where
  "sendable_transform (ServerTimestamp p) = True"
| "sendable_transform (Increment p v) = is_numeric v"
| "sendable_transform (Maximum p v) = is_numeric v"
| "sendable_transform (Minimum p v) = is_numeric v"
| "sendable_transform (AppendMissingElements p vs) = fv_wf_list vs"
| "sendable_transform (RemoveAllFromArray p vs) = fv_wf_list vs"

fun sendable :: "db_write \<Rightarrow> bool" where
  "sendable (WUpdate p fs v pc ts) \<longleftrightarrow> is_valid_project_id (project_id p) \<and> segment (document_id p) \<and>
     bt_wf fs \<and> fv_wf_map fs \<and> v = None \<and> list_all sendable_transform ts"
| "sendable (WDelete p v pc) \<longleftrightarrow> is_valid_project_id (project_id p) \<and> segment (document_id p) \<and> v = None"
| "sendable (WTransform p ts) \<longleftrightarrow> is_valid_project_id (project_id p) \<and> segment (document_id p) \<and> list_all sendable_transform ts"

lemma numeric_wf: "is_numeric v \<Longrightarrow> fv_wf v"
  by (cases v) (auto simp: is_numeric_def)

lemma transform_roundtrip: "sendable_transform t \<Longrightarrow> agent_translate_transform (field_transform_to_agent t) = Inr t"
  using agent_receives(1) [OF numeric_wf] agent_receives(2)
  by (cases t) (simp_all add: agent_translate_transform_def agent_numeric_def)

lemma collect_results_Inr_map: "list_all (\<lambda>x. f x = Inr (g x)) xs \<Longrightarrow> collect_results (map f xs) = Inr (map g xs)"
  by (induction xs) auto

lemma transforms_roundtrip:
  "list_all sendable_transform ts \<Longrightarrow> agent_translate_transforms (map field_transform_to_agent ts) = Inr ts"
  using collect_results_Inr_map [of "\<lambda>t. agent_translate_transform (field_transform_to_agent t)" id ts] transform_roundtrip
  by (simp add: agent_translate_transforms_def comp_def list_all_iff)

lemma write_roundtrip: "sendable w \<Longrightarrow> proto_write_to_domain (write_to_agent w) = Inr w"
  by (cases w) (auto simp: proto_write_to_domain_def agent_name transforms_roundtrip agent_fields_roundtrip parse_own_name
      transforms_roundtrip [of "[]", simplified])

lemma agent_commit_same:
  assumes "is_valid_project_id pid" and "list_all sendable ws"
  shows "adapter_commit_transaction show_status env now now' pid pid' tid ws db =
      map_option (\<lambda>(r, db'). (map_sum (\<lambda>e. grpc_err show_status (agent_commit_error e))
          (map (\<lambda>w. w\<lparr>wr_create_time := None, transform_results := []\<rparr>)) r, db'))
        (commit_transaction env now now' pid tid ws db) \<and>
    adapter_begin_transaction show_status now fresh pid pid' db =
      (case begin_transaction now fresh pid db of
         (r, db') \<Rightarrow> (map_sum (\<lambda>e. grpc_err show_status (agent_error_to_status e)) id r, db')) \<and>
    snd (adapter_rollback_transaction show_status pid pid' tid db) = snd (rollback_transaction pid tid db) \<and>
    is_ok (fst (adapter_rollback_transaction show_status pid pid' tid db)) = is_ok (fst (rollback_transaction pid tid db))"
proof (intro conjI)
  have p: "agent_project pid = Inr pid" using assms(1) by (simp add: agent_project_def project_id_new_def)
  have strip: "(\<lambda>w. \<lparr>wr_update_time = wr_update_time w, wr_create_time = None, transform_results = []\<rparr>) =
      (\<lambda>w :: write_result. w\<lparr>wr_create_time := None, transform_results := []\<rparr>)" by (rule ext) simp
  have "collect_results (map (\<lambda>w. proto_write_to_domain (write_to_agent w)) ws) = Inr ws"
    using collect_results_Inr_map [of "\<lambda>w. proto_write_to_domain (write_to_agent w)" id ws] assms(2) write_roundtrip
    by (simp add: list_all_iff)
  then have w: "collect_results (map proto_write_to_domain (map write_to_agent ws)) = Inr ws" by (simp add: comp_def)
  show "adapter_commit_transaction show_status env now now' pid pid' tid ws db =
      map_option (\<lambda>(r, db'). (map_sum (\<lambda>e. grpc_err show_status (agent_commit_error e))
          (map (\<lambda>w. w\<lparr>wr_create_time := None, transform_results := []\<rparr>)) r, db'))
        (commit_transaction env now now' pid tid ws db)"
    using p w by (cases "commit_transaction env now now' pid tid ws db")
      (auto simp: adapter_commit_transaction_def agent_commit_def comp_def sum.map_comp strip split: prod.splits)
  show "adapter_begin_transaction show_status now fresh pid pid' db =
      (case begin_transaction now fresh pid db of
         (r, db') \<Rightarrow> (map_sum (\<lambda>e. grpc_err show_status (agent_error_to_status e)) id r, db'))"
    using p by (simp add: adapter_begin_transaction_def agent_begin_transaction_def sum.map_comp comp_def id_def split: prod.splits)
  show "snd (adapter_rollback_transaction show_status pid pid' tid db) = snd (rollback_transaction pid tid db)"
    "is_ok (fst (adapter_rollback_transaction show_status pid pid' tid db)) = is_ok (fst (rollback_transaction pid tid db))"
    using p by (auto simp: adapter_rollback_transaction_def agent_rollback_def split: prod.splits sum.splits core_error.splits)
qed

text \<open>
  C18: commits through the agent have the same effect. A commit of well-formed writes changes the database, transactions
  included, exactly as the same commit on a direct connection, and returns the same update times or an error; the
  results of transforms are not returned. Beginning and rolling back a transaction have the same effect too. The agent
  acts on the project it is configured for.
\<close>

theorem agent_commit_equivalent:
  assumes "is_valid_project_id pid" and "list_all sendable ws"
  shows "adapter_commit_transaction show_status env now now' pid pid' tid ws db =
      map_option (\<lambda>(r, db'). (map_sum (\<lambda>e. grpc_err show_status (agent_commit_error e))
          (map (\<lambda>w. w\<lparr>wr_create_time := None, transform_results := []\<rparr>)) r, db'))
        (commit_transaction env now now' pid tid ws db) \<and>
    adapter_begin_transaction show_status now fresh pid pid' db =
      (case begin_transaction now fresh pid db of
         (r, db') \<Rightarrow> (map_sum (\<lambda>e. grpc_err show_status (agent_error_to_status e)) id r, db')) \<and>
    snd (adapter_rollback_transaction show_status pid pid' tid db) = snd (rollback_transaction pid tid db) \<and>
    is_ok (fst (adapter_rollback_transaction show_status pid pid' tid db)) = is_ok (fst (rollback_transaction pid tid db))"
  by (rule agent_commit_same [OF assms])

lemma example_sendable: "is_valid_project_id ''p''" "list_all sendable [WUpdate example_path [(''n'', FInteger 2)] None (Some MustExist) []]"
  by code_simp+

theorem agent_commit_equivalent_witness:
  "\<exists>rs db'. adapter_commit_transaction status_message example_env (9, 0) (9, 1500) ''p'' ''p'' example_txn
      [WUpdate example_path [(''n'', FInteger 2)] None (Some MustExist) []] example_db = Some (Inr rs, db') \<and>
    commit_transaction example_env (9, 0) (9, 1500) ''p'' example_txn
      [WUpdate example_path [(''n'', FInteger 2)] None (Some MustExist) []] example_db = Some (Inr rs, db')"
proof -
  let ?c = "commit_transaction example_env (9, 0) (9, 1500) ''p'' example_txn [WUpdate example_path [(''n'', FInteger 2)] None (Some MustExist) []] example_db"
  have "map_option fst ?c = Some (Inr [\<lparr>wr_update_time = (9, 1500), wr_create_time = None, transform_results = []\<rparr>])"
    by code_simp
  then obtain db' where "?c = Some (Inr [\<lparr>wr_update_time = (9, 1500), wr_create_time = None, transform_results = []\<rparr>], db')" by auto
  then show ?thesis
    using conjunct1 [OF agent_commit_equivalent [OF example_sendable], of status_message example_env "(9, 0)" "(9, 1500)" "''p''" example_txn example_db]
    by simp
qed

text \<open>
  A transaction through the agent does not protect what it read. The identifier of the transaction does not reach
  the agent with a read, so the transaction row stays as it was begun, and a later commit of the transaction succeeds
  whatever the other clients did to the documents in between, to those it read as well.
\<close>

theorem agent_reads_unprotected:
  assumes "is_valid_project_id pid" and "length u = 16" and "begin_transaction now0 u pid db0 = (Inr u, db1)"
    and "transactions db2 = transactions db1" and "time_ns now - time_ns now0 \<le> txn_window"
    and "sendable (WUpdate p fs None None [])" and "\<And>r. documents db2 p = Some r \<Longrightarrow> checked_add (row_version r) 1 \<noteq> None"
  shows "\<exists>rs db3. adapter_commit_transaction show_status env now now' pid pid' u [WUpdate p fs None None []] db2 = Some (Inr rs, db3)"
proof -
  let ?ws = "[WUpdate p fs None None []]"
  have t: "transactions db2 u = Some \<lparr>txn_project = pid, txn_status = ''active'', txn_started_at = now0, txn_reads = []\<rparr>"
    using assms(3) unfolding assms(4) by (auto simp: begin_transaction_def split: option.splits)
  then have prep: "commit_prepare now pid u db2 = (Inr (u, JObject []), db2)"
    using assms(2,5) by (simp add: commit_prepare_def uuid_from_bytes_def)
  have checks: "commit_checks env pid (JObject []) ?ws db2 = Inr ()"
    by (simp add: commit_checks_def check_update_time_def check_existence_def verify_versions_def verify_version_def verify_reads_def Let_def)
  obtain r where "upsert_row env (fields_to_json (b64_encode env) fs) (column_time env now') (documents db2 p) = Some r"
    using assms(7) by (cases "documents db2 p") (auto simp: upsert_row_def overwrite_row_def)
  then have "\<exists>x. commit_apply env now' pid u (JObject []) ?ws db2 = Some (Inr (fst x), snd x)"
    using checks by (simp add: commit_apply_def lock_fields_def apply_write_def written_fields_def store_written_def pbind_def)
  then have "\<exists>rs db3. commit_transaction env now now' pid u ?ws db2 = Some (Inr rs, db3)"
    using prep by (simp add: commit_transaction_def)
  then show ?thesis
    using conjunct1 [OF agent_commit_same [OF assms(1), of ?ws show_status env now now' pid' u db2]] assms(6) by auto
qed

text \<open>The document is changed by another client between the read and the commit.\<close>

theorem agent_reads_unprotected_witness:
  "adapter_get_document status_message example_env example_path (Some example_txn) example_db =
     Inr (Some \<lparr>path = example_path, doc_fields = [(''n'', FInteger 1)], create_time = (8, 0), update_time = (8, 0), version = 0\<rparr>) \<and>
   (\<exists>rs db3. adapter_commit_transaction status_message example_env (9, 0) (9, 1500) ''p'' ''p'' example_txn
      [WUpdate example_path [(''n'', FInteger 2)] None None []]
      (snd (update_document example_env (8, 5) example_path [(''n'', FInteger 7)] None example_db)) = Some (Inr rs, db3))"
proof
  show "adapter_get_document status_message example_env example_path (Some example_txn) example_db =
     Inr (Some \<lparr>path = example_path, doc_fields = [(''n'', FInteger 1)], create_time = (8, 0), update_time = (8, 0), version = 0\<rparr>)"
    by code_simp
  let ?db0 = "snd (create_document example_env (8, 0) example_path [(''n'', FInteger 1)] empty_db)"
  let ?db2 = "snd (update_document example_env (8, 5) example_path [(''n'', FInteger 7)] None example_db)"
  show "\<exists>rs db3. adapter_commit_transaction status_message example_env (9, 0) (9, 1500) ''p'' ''p'' example_txn
      [WUpdate example_path [(''n'', FInteger 2)] None None []] ?db2 = Some (Inr rs, db3)"
  proof (rule agent_reads_unprotected)
    show "is_valid_project_id ''p''" "sendable (WUpdate example_path [(''n'', FInteger 2)] None None [])" by code_simp+
    show "length example_txn = 16" by (simp add: example_txn_def)
    show "begin_transaction (8, 0) example_txn ''p'' ?db0 = (Inr example_txn, example_db)"
      by (simp add: example_db_def run_def store_defs begin_transaction_def empty_db_def new_row_def example_txn_def)
    have "update_document example_env (8, 5) example_path [(''n'', FInteger 7)] None example_db =
        (fst (update_document example_env (8, 5) example_path [(''n'', FInteger 7)] None example_db), ?db2)" by simp
    then show "transactions ?db2 = transactions example_db"
      by (simp add: update_document_def finish_update_def Let_def split: option.splits)
    show "time_ns (9, 0) - time_ns (8, 0) \<le> txn_window" by code_simp
    have "map_option row_version (documents ?db2 example_path) = Some 2" by code_simp
    then show "checked_add (row_version r) 1 \<noteq> None" if "documents ?db2 example_path = Some r" for r
      using that by (simp add: checked_add_def fits_i64_def)
  qed
qed

section \<open>Queries\<close>

lemma map_sum_value: "map_sum g f x = Inr y \<longleftrightarrow> (\<exists>z. x = Inr z \<and> y = f z)"
  by (cases x) auto

lemma filter_op_roundtrip: "domain_filter_op_to_agent op = Inr n \<Longrightarrow> proto_filter_op_to_domain n = Inr op"
  by (cases op) (auto simp: proto_filter_op_to_domain_def)

fun filter_values_wf :: "query_filter \<Rightarrow> bool" where
  "filter_values_wf (Field ff) = fv_wf (filter_value ff)"
| "filter_values_wf (Composite fs) = list_all filter_values_wf fs"
| "filter_values_wf (CompositeOr fs) = list_all filter_values_wf fs"

text \<open>A filter that is sent is the filter that is received, unless the agent refuses one of its field paths.\<close>

lemma filter_roundtrip:
  "domain_filter_to_agent_filter f = Inr g \<Longrightarrow> filter_values_wf f \<Longrightarrow> proto_filter_to_domain g = Inr f' \<Longrightarrow> f' = f"
proof (induction f arbitrary: g f' rule: domain_filter_to_agent_filter.induct)
  case (1 ff)
  then show ?case
    using filter_op_roundtrip [of "filter_op ff"] agent_receives(1) [of "filter_value ff"]
    by (auto simp: map_sum_Inr_iff rbind_Inr_iff)
next
  case (2 fs)
  obtain gs where gs: "map domain_filter_to_agent_filter fs = map Inr gs" "g = ACompositeFilter 1 gs"
    using "2.prems"(1) by (auto simp: map_sum_Inr_iff collect_results_Inr)
  obtain hs where hs: "map proto_filter_to_domain gs = map Inr hs" "f' = Composite hs"
    using "2.prems"(3) gs(2) by (auto simp: map_sum_Inr_iff collect_results_Inr)
  have len: "length gs = length fs" "length hs = length fs" using gs(1) hs(1) by (metis length_map)+
  have "hs ! i = fs ! i" if "i < length fs" for i
  proof (rule "2.IH")
    show "fs ! i \<in> set fs" using that by simp
    show "domain_filter_to_agent_filter (fs ! i) = Inr (gs ! i)" "proto_filter_to_domain (gs ! i) = Inr (hs ! i)"
      using arg_cong [OF gs(1), of "\<lambda>l. l ! i"] arg_cong [OF hs(1), of "\<lambda>l. l ! i"] that len by simp_all
    show "filter_values_wf (fs ! i)" using "2.prems"(2) that by (simp add: list_all_length)
  qed
  then show ?case using hs(2) len by (simp add: nth_equalityI)
qed simp

text \<open>
  C19: no filter is lost on the way to the agent. Whenever a query through the agent is answered, the storage behind the
  agent has run a query on the same collection with exactly the filter of the request, and the documents returned are
  the ones it found. A filter that the protocol cannot express, an OR among them, is refused and never dropped.
\<close>

theorem agent_query_filtered:
  assumes "adapter_run_query show_status storage pid cp q txn = Inr docs" and "is_valid_project_id pid"
    and "\<And>f. query_filter_of q = Some f \<Longrightarrow> filter_values_wf f"
    and "\<And>found d. storage pid cp (bare_query cp False (query_filter_of q)) = Inr found \<Longrightarrow> d \<in> set found \<Longrightarrow>
      parse_document_path (document_name (path d)) = Inr (path d) \<and> bt_wf (doc_fields d) \<and> fv_wf_map (doc_fields d)"
  shows "\<exists>found. storage pid cp (bare_query cp False (query_filter_of q)) = Inr found \<and>
    docs = map (\<lambda>d. d\<lparr>version := 0\<rparr>) found"
proof -
  obtain g where g: "transpose_filter domain_filter_to_agent_filter (query_filter_of q) = Inr g"
    and r: "map_sum (grpc_err show_status) (List.map_filter agent_doc_to_domain)
      (agent_run_query storage (domain_path_to_agent_parent pid) (Some \<lparr>aq_from = [(cp, False)], aq_filter = g\<rparr>)) = Inr docs"
    using assms(1) by (auto simp: adapter_run_query_def rbind_Inr_iff)
  then obtain f found where f: "transpose_filter proto_filter_to_domain g = Inr f"
    and found: "storage pid cp (bare_query cp False f) = Inr found"
    and docs: "docs = List.map_filter agent_doc_to_domain (map domain_doc_to_proto found)"
    using agent_parent(1) [OF assms(2)] assms(2)
    by (cases "agent_run_query storage (domain_path_to_agent_parent pid) (Some \<lparr>aq_from = [(cp, False)], aq_filter = g\<rparr>)")
      (auto simp: agent_run_query_def rbind_Inr_iff map_sum_Inr_iff project_id_new_def map_sum_value)
  have "f = query_filter_of q"
    using g f assms(3) filter_roundtrip
    by (auto simp: transpose_filter_def map_sum_Inr_iff split: option.splits)
  moreover have "docs = map (\<lambda>d. d\<lparr>version := 0\<rparr>) found"
  proof -
    have "agent_doc_to_domain (domain_doc_to_proto d) = Some (d\<lparr>version := 0\<rparr>)" if "d \<in> set found" for d
      using assms(4) found \<open>f = _\<close> that by (intro returned_document) auto
    then have "List.map_filter agent_doc_to_domain (map domain_doc_to_proto ds) = map (\<lambda>d. d\<lparr>version := 0\<rparr>) ds"
      if "set ds \<subseteq> set found" for ds
      using that by (induction ds) (auto simp: List.map_filter_simps)
    then show ?thesis unfolding docs by blast
  qed
  ultimately show ?thesis using found by blast
qed

definition owned_by_ann :: query_filter where
  "owned_by_ann = Composite [Field \<lparr>field_path = ''owner'', filter_op = Equal, filter_value = FString ''ann''\<rparr>]"

text \<open>A storage that answers with Ann's document to the filtered query and with all documents to any other.\<close>

definition sample_storage :: run_query where
  "sample_storage pid cp q = Inr (if query_filter_of q = Some owned_by_ann then [post ''a'' 1] else [post ''a'' 1, post ''b'' 1])"

definition sample_query :: structured_query where
  "sample_query = (bare_query ''posts'' False (Some owned_by_ann))\<lparr>query_limit := Some 5\<rparr>"

theorem agent_query_filtered_witness:
  "\<exists>found. sample_storage ''p'' ''posts'' (bare_query ''posts'' False (Some owned_by_ann)) = Inr found \<and>
     [(post ''a'' 1)\<lparr>version := 0\<rparr>] = map (\<lambda>d. d\<lparr>version := 0\<rparr>) found"
proof -
  have q: "query_filter_of sample_query = Some owned_by_ann" by (simp add: sample_query_def bare_query_def)
  have "\<exists>found. sample_storage ''p'' ''posts'' (bare_query ''posts'' False (query_filter_of sample_query)) = Inr found \<and>
      [(post ''a'' 1)\<lparr>version := 0\<rparr>] = map (\<lambda>d. d\<lparr>version := 0\<rparr>) found"
  proof (rule agent_query_filtered)
    show "adapter_run_query status_message sample_storage ''p'' ''posts'' sample_query None = Inr [(post ''a'' 1)\<lparr>version := 0\<rparr>]"
      by code_simp
    show "is_valid_project_id ''p''" by code_simp
    show "query_filter_of sample_query = Some f \<Longrightarrow> filter_values_wf f" for f
      using q by (auto simp: owned_by_ann_def)
    fix found d
    assume "sample_storage ''p'' ''posts'' (bare_query ''posts'' False (query_filter_of sample_query)) = Inr found" "d \<in> set found"
    then have "d = post ''a'' 1" by (auto simp: sample_storage_def q bare_query_def)
    moreover have "parse_document_path (document_name (path (post ''a'' 1))) = Inr (path (post ''a'' 1))" by code_simp
    ultimately show "parse_document_path (document_name (path d)) = Inr (path d) \<and> bt_wf (doc_fields d) \<and> fv_wf_map (doc_fields d)"
      by (simp add: post_def bt_wf_def)
  qed
  then show ?thesis using q by simp
qed

text \<open>Nothing else of the query reaches the agent: order, limit, offset and cursors are ignored, and so is the request for
  all descendants.\<close>

lemma agent_query_ignores_rest:
  "adapter_run_query show_status storage pid cp q txn =
     adapter_run_query show_status storage pid cp (bare_query cid descendants (query_filter_of q)) None"
  by (simp add: adapter_run_query_def bare_query_def)

section \<open>Collection ids\<close>

text \<open>The agent's tokens are tokens of the listings.\<close>

interpretation agent_pages: page_tokens agent_encode_page_token agent_decode_page_token
proof unfold_locales
  fix off
  have same: "agent_encode_page_token = encode_page_token" by (rule ext) (simp add: agent_encode_page_token_def encode_page_token_def)
  have "encode_page_token off \<noteq> []" by (rule pages.encode_nonempty)
  moreover from this have "from_str_radix16 (encode_page_token off) = Some off"
    using pages.decode_encode [of off] by (simp add: decode_page_token_def ok_or_Inr_iff)
  ultimately show "agent_decode_page_token (agent_encode_page_token off) = Inr off" "agent_encode_page_token off \<noteq> []"
    unfolding same by (simp_all add: agent_decode_page_token_def)
qed (simp add: agent_decode_page_token_def)

context page_tokens
begin

lemma collect_all:
  assumes serves: "serves request page_size items"
    and len: "length items < 2 ^ 31" and ps: "1 \<le> unat page_size" "unat page_size \<le> 100"
    and "decode token = Inr off" and "unat off < 2 ^ 31" and "length items - unat off < n"
  shows "\<exists>xs. collect_pages n request lim collected token = Some (Inr xs) \<and>
    take (nat (sint lim)) xs = take (nat (sint lim)) (collected @ drop (unat off) items)"
  using assms(5-7)
proof (induction n arbitrary: token off collected)
  case (Suc n)
  note req = serves [unfolded serves_def, rule_format, OF conjI, OF Suc.prems(1,2)]
  let ?page = "take (unat page_size) (drop (unat off) items)" and ?off = "off + page_size"
  have all: "?page @ drop (unat off + unat page_size) items = drop (unat off) items"
    using append_take_drop_id [of "unat page_size" "drop (unat off) items"] by (simp add: add.commute)
  show ?case
  proof (cases "unat off + unat page_size < length items \<and> int (length (collected @ ?page)) < sint lim")
    case True
    have off: "unat ?off = unat off + unat page_size" using True len by (simp add: unat_word_ariths)
    have less: "length items - unat ?off < n" using conjunct1 [OF True] ps(1) Suc.prems(3) unfolding off by arith
    have "\<exists>xs. collect_pages n request lim (collected @ ?page) (encode ?off) = Some (Inr xs) \<and>
        take (nat (sint lim)) xs = take (nat (sint lim)) ((collected @ ?page) @ drop (unat ?off) items)"
      by (rule Suc.IH [OF decode_encode]) (use True len off less in simp_all)
    moreover have "collect_pages (Suc n) request lim collected token = collect_pages n request lim (collected @ ?page) (encode ?off)"
      using req True encode_nonempty by (simp add: Let_def)
    moreover have "(collected @ ?page) @ drop (unat ?off) items = collected @ drop (unat off) items" using all off by simp
    ultimately show ?thesis by metis
  next
    case False
    then have "collect_pages (Suc n) request lim collected token = Some (Inr (collected @ ?page))"
      using req by (auto simp: Let_def)
    moreover have "take (nat (sint lim)) (collected @ ?page) = take (nat (sint lim)) (collected @ drop (unat off) items)"
    proof (cases "unat off + unat page_size < length items")
      case True
      with False have "\<not> int (length (collected @ ?page)) < sint lim" by blast
      then have "nat (sint lim) \<le> length (collected @ ?page)" by linarith
      then have "take (nat (sint lim)) ((collected @ ?page) @ drop (unat off + unat page_size) items) = take (nat (sint lim)) (collected @ ?page)"
        by (simp only: take_append)  simp
      then show ?thesis using all by simp
    qed simp
    ultimately show ?thesis by blast
  qed
qed simp

end

lemma agent_prefix:
  assumes "is_valid_project_id pid" and "hd (cp @ ''x'') \<noteq> CHR ''/''"
  shows "parse_project_id_from_parent (domain_collection_prefix_to_agent_parent pid cp) = Inr pid"
    and "parent_prefix (domain_collection_prefix_to_agent_parent pid cp) = Inr cp"
proof -
  have "dropWhile (\<lambda>c. c = CHR ''/'') (CHR ''/'' # cp) = cp" if "cp \<noteq> []" using assms(2) that by (cases cp) auto
  then show "parse_project_id_from_parent (domain_collection_prefix_to_agent_parent pid cp) = Inr pid"
    "parent_prefix (domain_collection_prefix_to_agent_parent pid cp) = Inr cp"
    using cut_parent [OF assms(1), of "[]"] cut_parent [OF assms(1), of "CHR ''/'' # cp"]
      cut_project [OF assms(1), of "''databases/(default)/documents''"]
      cut_project [OF assms(1), of "''databases/(default)/documents/'' @ cp"]
    by (simp_all add: parse_project_id_from_parent_def parent_prefix_def domain_collection_prefix_to_agent_parent_def Let_def)
qed

text \<open>
  C23: listing collection ids through the agent gives what the storage would give directly. However many ids are asked
  for, the adapter's loop over the agent's pages of a hundred ends after at most one request per id and one more, and
  returns the requested part of the list, when the storage answers with the requested part of its ids, of which there are
  fewer than 2^31.
\<close>

theorem agent_collection_ids_complete:
  assumes "is_valid_project_id pid" and "hd (cp @ ''x'') \<noteq> CHR ''/''" and "0 \<le> sint off"
    and "\<And>lim off. 0 \<le> sint off \<Longrightarrow> answer pid cp lim off = Inr (take (nat (sint lim)) (drop (nat (sint off)) ids))"
    and "length ids < 2 ^ 31"
  shows "adapter_list_collection_ids (length ids + 1) show_status answer pid cp lim off =
    Some (Inr (take (nat (sint lim)) (drop (nat (sint off)) ids)))"
proof -
  let ?request = "\<lambda>token. map_sum (grpc_err show_status) id
    (agent_list_collection_ids answer (domain_collection_prefix_to_agent_parent pid cp) 100 token)"
  have hundred: "sint (100 :: i32) = 100" "unat (100 :: i32) = 100" "nat (sint (100 + 1 :: i32)) = 101" by simp_all
  have "?request token = Inr (take 100 (drop (unat o') ids), if unat o' + 100 < length ids then agent_encode_page_token (o' + 100) else [])"
    if "agent_decode_page_token token = Inr o'" "unat o' < 2 ^ 31" for token o'
  proof -
    have "answer pid cp (100 + 1) o' = Inr (take 101 (drop (unat o') ids))"
      using assms(4) [of o' "100 + 1"] small_signed [OF that(2)] hundred(3) by simp
    then show ?thesis
      using that(1) agent_prefix [OF assms(1,2)] assms(1)
      by (auto simp: agent_list_collection_ids_def project_id_new_def cut_page_def Let_def min_def)
  qed
  then have serves: "agent_pages.serves ?request 100 ids" by (simp add: agent_pages.serves_def)
  have o: "unat off = nat (sint off)" "unat off < 2 ^ 31"
    using unat_nonneg [OF assms(3)] sint_lt [of off] by simp_all
  have "agent_decode_page_token (encode_page_token off) = Inr off"
    using agent_pages.decode_encode [of off] by (simp add: agent_encode_page_token_def encode_page_token_def)
  moreover have "length ids - unat off < length ids + 1" by simp
  ultimately have "\<exists>xs. collect_pages (length ids + 1) ?request lim [] (encode_page_token off) = Some (Inr xs) \<and>
      take (nat (sint lim)) xs = take (nat (sint lim)) ([] @ drop (unat off) ids)"
    by (intro agent_pages.collect_all [OF serves assms(5) _ _ _ o(2)]) simp_all
  then obtain xs where
    "collect_pages (length ids + 1) ?request lim [] (encode_page_token off) = Some (Inr xs)"
    "take (nat (sint lim)) xs = take (nat (sint lim)) (drop (unat off) ids)" by (auto simp del: collect_pages.simps)
  then show ?thesis using assms(3) o(1) by (simp add: adapter_list_collection_ids_def del: collect_pages.simps)
qed

definition sample_ids :: list_ids where
  "sample_ids pid cp lim off = Inr (take (nat (sint lim)) (drop (nat (sint off)) [''a'', ''b'', ''c'']))"

theorem agent_collection_ids_complete_witness:
  "adapter_list_collection_ids 4 status_message sample_ids ''p'' ''users/u'' 2 1 = Some (Inr [''b'', ''c''])"
proof -
  have "adapter_list_collection_ids (length [''a'', ''b'', ''c''] + 1) status_message sample_ids ''p'' ''users/u'' 2 1 =
      Some (Inr (take (nat (sint (2 :: i32))) (drop (nat (sint (1 :: i32))) [''a'', ''b'', ''c''])))"
  proof (rule agent_collection_ids_complete)
    show "is_valid_project_id ''p''" by code_simp
  qed (simp_all add: sample_ids_def)
  then show ?thesis by (simp add: eval_nat_numeral)
qed

end
