(* ===== verification/Change_Feed.thy ===== *)
theory Change_Feed
  imports Listen Write_Stream Agent_Equivalence
begin

text \<open>
  From a write to the listeners: the task of \<open>embyr-server/src/adapters/postgres_notify_listener.rs\<close>, which turns the
  notifications of a project's database into events for the registry, and the bridge of
  \<open>embyr-agent/src/notify_bridge.rs\<close>, which does the same for subscribers of the agent. What a connection delivers, when
  it fails and when a new one is established are inputs; log lines and counters are left out.
\<close>

section \<open>Events of the server\<close>

definition fetch_event :: "store_env \<Rightarrow> string \<Rightarrow> string \<Rightarrow> database \<Rightarrow> listen_event" where
  "fetch_event env pid payload db =
     (case rsplit_once (CHR ''/'') payload of
        None \<Rightarrow> Removed \<lparr>project_id = pid, collection_path = [], document_id = payload\<rparr> []
      | Some (cp, did) \<Rightarrow>
          (let p = \<lparr>project_id = pid, collection_path = cp, document_id = did\<rparr> in
           case documents db p of
             Some row \<Rightarrow>
               (let fs = (case json_to_fields (b64_decode env) (row_fields row) of Some fs \<Rightarrow> fs | None \<Rightarrow> []) in
                if row_deleted row then Removed p fs
                else Changed \<lparr>path = p, doc_fields = fs, create_time = row_create_time row,
                       update_time = row_update_time row, version = row_version row\<rparr>)
           | None \<Rightarrow> Removed p []))"

definition reconnect_backoff :: "u32 \<Rightarrow> u64" where
  "reconnect_backoff failures =
     (let shift = min (unat failures - 1) 5 in min (push_bit shift 1) 30)"

section \<open>The task of the server\<close>

datatype listener_input = Notified string database | RecvFailed | Reconnected | ReconnectFailed

datatype listener_action = FanOut string listen_event | Sleep u64 | SetReconnecting bool

record listener =
  ls_failures :: u32
  ls_reconnecting :: bool

definition alert_threshold :: u32 where
  "alert_threshold = 5"

definition raise_alert :: "u32 \<Rightarrow> listener_action list" where
  "raise_alert failures = (if failures = alert_threshold then [SetReconnecting True] else [])"

text \<open>One turn: the outer loop receives, the inner one tries to connect until it succeeds. Inputs of the other loop do
  not occur.\<close>

definition listener_turn :: "store_env \<Rightarrow> string \<Rightarrow> listener_input \<Rightarrow> listener \<Rightarrow> listener_action list \<times> listener" where
  "listener_turn env pid inp s =
     (if \<not> ls_reconnecting s then
        (case inp of
           Notified payload db \<Rightarrow>
             ((if ls_failures s \<ge> alert_threshold then [SetReconnecting False] else []) @
                [FanOut (notify_channel env pid) (fetch_event env pid payload db)],
              s\<lparr>ls_failures := 0\<rparr>)
         | RecvFailed \<Rightarrow>
             (raise_alert (ls_failures s + 1), s\<lparr>ls_failures := ls_failures s + 1, ls_reconnecting := True\<rparr>)
         | _ \<Rightarrow> ([], s))
      else
        (case inp of
           Reconnected \<Rightarrow> ([], s\<lparr>ls_reconnecting := False\<rparr>)
         | ReconnectFailed \<Rightarrow>
             (raise_alert (ls_failures s + 1) @ [Sleep (reconnect_backoff (ls_failures s + 1))],
              s\<lparr>ls_failures := ls_failures s + 1\<rparr>)
         | _ \<Rightarrow> ([], s)))"

fun listener_run :: "store_env \<Rightarrow> string \<Rightarrow> listener_input list \<Rightarrow> listener \<Rightarrow> listener_action list" where
  "listener_run env pid [] s = []"
| "listener_run env pid (i # is) s = (case listener_turn env pid i s of (as, s') \<Rightarrow> as @ listener_run env pid is s')"

section \<open>The bridge of the agent\<close>

datatype doc_change = Upsert string i64 "(string \<times> agent_value) list" | DeleteChange string | ResetChange

text \<open>The JSON of the column, taken as it is.\<close>

fun convert_json :: "json \<Rightarrow> agent_value" where
  "convert_json JNull = ANull"
| "convert_json (JBool b) = ABoolean b"
| "convert_json (JNumber n) = (case as_i64 n of Some i \<Rightarrow> AInteger i | None \<Rightarrow> ADouble (as_f64 n))"
| "convert_json (JString s) = AString s"
| "convert_json (JArray xs) = AArray (map convert_json xs)"
| "convert_json (JObject m) = AMap (map (\<lambda>e. (fst e, convert_json (snd e))) m)"

definition json_fields_to_proto :: "json \<Rightarrow> (string \<times> agent_value) list" where
  "json_fields_to_proto v = (case json_as_object v of Some m \<Rightarrow> map (\<lambda>e. (fst e, convert_json (snd e))) m | None \<Rightarrow> [])"

definition translate_payload :: "string \<Rightarrow> string \<Rightarrow> database \<Rightarrow> doc_change" where
  "translate_payload pid payload db =
     (case rsplit_once (CHR ''/'') payload of
        None \<Rightarrow> ResetChange
      | Some (cp, did) \<Rightarrow>
          (let p = \<lparr>project_id = pid, collection_path = cp, document_id = did\<rparr> in
           case live_row db p of
             Some row \<Rightarrow> Upsert (document_name p) (row_version row) (json_fields_to_proto (row_fields row))
           | None \<Rightarrow> DeleteChange (document_name p)))"

text \<open>The channel to one subscriber. A change that finds the channel full is dropped and noted; the next change is
  preceded by a reset, which waits until there is room.\<close>

record bridge =
  br_queue :: "doc_change list"
  br_overflow :: bool

definition try_send :: "doc_change \<Rightarrow> bridge \<Rightarrow> bridge" where
  "try_send c b =
     (if length (br_queue b) < 64 then b\<lparr>br_queue := br_queue b @ [c]\<rparr> else b\<lparr>br_overflow := True\<rparr>)"

definition send_reset :: "bridge \<Rightarrow> bridge option" where
  "send_reset b =
     (if \<not> br_overflow b then Some b
      else if length (br_queue b) < 64 then Some \<lparr>br_queue = br_queue b @ [ResetChange], br_overflow = False\<rparr>
      else None)"

text \<open>The stream of \<open>Subscribe\<close> passes resets and the changes whose name contains the collection path.\<close>

definition passes :: "string \<Rightarrow> doc_change \<Rightarrow> bool" where
  "passes cp c =
     (case c of ResetChange \<Rightarrow> True | Upsert name _ _ \<Rightarrow> cut_at cp name \<noteq> None | DeleteChange name \<Rightarrow> cut_at cp name \<noteq> None)"

section \<open>A write reaches the listeners\<close>

definition payload :: "document_path \<Rightarrow> string" where
  "payload p = collection_path p @ ''/'' @ document_id p"

lemma rsplit_payload: "segment (document_id p) \<Longrightarrow> rsplit_once (CHR ''/'') (payload p) = Some (collection_path p, document_id p)"
  using rsplit_once_last [of "CHR ''/''" "document_id p" "collection_path p"] by (simp add: payload_def segment_def)

lemma fetch_own:
  assumes "segment (document_id p)"
  shows "fetch_event env (project_id p) (payload p) db =
    (case documents db p of
       Some row \<Rightarrow>
         (let fs = (case json_to_fields (b64_decode env) (row_fields row) of Some fs \<Rightarrow> fs | None \<Rightarrow> []) in
          if row_deleted row then Removed p fs
          else Changed \<lparr>path = p, doc_fields = fs, create_time = row_create_time row, update_time = row_update_time row, version = row_version row\<rparr>)
     | None \<Rightarrow> Removed p [])"
proof -
  have p: "\<lparr>project_id = project_id p, collection_path = collection_path p, document_id = document_id p\<rparr> = p" by simp
  show ?thesis unfolding fetch_event_def rsplit_payload [OF assms] by (simp only: option.case prod.case Let_def p)
qed

lemma notify_sent: "notifications (send_notify env p db) = notifications db @ [(notify_channel env (project_id p), payload p)]"
  by (simp add: send_notify_def payload_def)

lemma notifications_put_row [simp]: "notifications (put_row p r db) = notifications db"
  by (simp add: put_row_def)

lemma fetch_live:
  assumes "segment (document_id p)" and "read_document env p db = Inr (Some d)"
  shows "fetch_event env (project_id p) (payload p) db = Changed d"
proof -
  obtain r where r: "documents db p = Some r" "\<not> row_deleted r" "decode_fields env (row_fields r) = Inr (doc_fields d)"
    "d = \<lparr>path = p, doc_fields = doc_fields d, create_time = row_create_time r, update_time = row_update_time r, version = row_version r\<rparr>"
    using assms(2) by (auto simp: read_document_def live_row_Some_iff rbind_Inr_iff from_datetime_def split: option.splits)
  then show ?thesis unfolding fetch_own [OF assms(1)] by (simp add: decode_fields_def ok_or_Inr_iff)
qed

lemma update_announced:
  assumes "\<And>b. b64_decode env (b64_encode env b) = Some b"
    and "jsonb env (fields_to_json (b64_encode env) fs) = fields_to_json (b64_encode env) fs"
    and "bt_wf fs" and "fv_wf_map fs" and "segment (document_id p)"
    and "update_document env now p fs pc db = (Inr w, db')"
  shows "\<exists>d. notifications db' = notifications db @ [(notify_channel env (project_id p), payload p)] \<and>
    fetch_event env (project_id p) (payload p) db' = Changed d \<and> path d = p \<and> doc_fields d = canon_map fs \<and> update_time d = now"
proof -
  obtain r where "db' = send_notify env p (put_row p r db)" using update_document_Inr [OF assms(6)] by blast
  then have n: "notifications db' = notifications db @ [(notify_channel env (project_id p), payload p)]" by (simp add: notify_sent)
  obtain d where d: "read_document env p db' = Inr (Some d)" "doc_fields d = canon_map fs" "update_time d = now"
    using put_get [OF assms(1-4,6)] by blast
  then show ?thesis using n fetch_live [OF assms(5) d(1)] read_document_wf [OF d(1)] by auto
qed

lemma delete_announced:
  assumes "segment (document_id p)" and "read_document env p db = Inr (Some d)"
    and "delete_document env now p pc db = (Inr (), db')"
  shows "notifications db' = notifications db @ [(notify_channel env (project_id p), payload p)] \<and>
    fetch_event env (project_id p) (payload p) db' = Removed p (doc_fields d)"
proof -
  obtain r r' where r: "live_row db p = Some r" "delete_row now r = Some r'" "db' = send_notify env p (put_row p r' db)"
    using delete_document_Inr [OF assms(3)] by blast
  then have "row_deleted r'" "row_fields r' = row_fields r" by (auto simp: delete_row_def)
  moreover have "decode_fields env (row_fields r) = Inr (doc_fields d)"
    using assms(2) r(1) by (auto simp: read_document_def rbind_Inr_iff)
  ultimately show ?thesis
    unfolding fetch_own [OF assms(1)] using r(3) by (simp add: notify_sent decode_fields_def ok_or_Inr_iff)
qed


text \<open>A subscription under the rule that everything in the collection may be read.\<close>

definition sample_subscription :: subscription where
  "sample_subscription = \<lparr>sub_target = 1, sub_project = ''p'', sub_collection = ''users'', sub_condition = None, sub_bindings = [],
     sub_recheck = False, sub_query = bare_query ''users'' False None\<rparr>"


section \<open>Commits are not announced\<close>

lemma commit_silent:
  assumes "commit_transaction env now now' pid tid ws db = Some (r, db')"
  shows "notifications db' = notifications db"
proof (cases r)
  case (Inl e)
  then show ?thesis using assms commit_Inl [of env now now' pid tid ws db e db'] by auto
next
  case (Inr rs)
  then have "commit_transaction env now now' pid tid ws db = Some (Inr rs, db')" using assms by simp
  then show ?thesis by (elim commit_Inr) (auto dest: apply_writes_tables)
qed

lemma begin_silent: "begin_transaction now u pid db = (r, db') \<Longrightarrow> notifications db' = notifications db"
  by (auto simp: begin_transaction_def split: option.splits)

lemma batch_one_silent: "batch_one env pid s tr db = Some (r, db') \<Longrightarrow> notifications db' = notifications db"
proof -
  assume b: "batch_one env pid s tr db = Some (r, db')"
  show ?thesis
  proof (cases tr)
    case (Inr w)
    obtain x db1 where x: "begin_transaction (step_begin s) (step_id s) pid db = (x, db1)" by force
    then have "notifications db1 = notifications db" by (rule begin_silent)
    moreover have "db' = db1 \<or> (\<exists>y tid. commit_transaction env (step_commit s) (step_apply s) pid tid [w] db1 = Some (y, db'))"
      using b Inr x by (cases x) (auto simp: batch_one_def)
    ultimately show ?thesis using commit_silent by metis
  qed (use b in \<open>simp add: batch_one_def\<close>)
qed

lemma batch_loop_silent: "batch_loop env pid steps db = Some (rs, db') \<Longrightarrow> notifications db' = notifications db"
proof (induction env pid steps db arbitrary: rs rule: batch_loop.induct)
  case (2 env pid s tr rest db)
  then obtain r db1 rs' where "batch_one env pid s tr db = Some (r, db1)" "batch_loop env pid rest db1 = Some (rs', db')"
    by (auto simp: Option.bind_eq_Some_conv)
  from "2.IH" [OF this(1) refl this(2)] batch_one_silent [OF this(1)] show ?case by simp
qed simp



section \<open>Waiting between connections\<close>

text \<open>The waits double from one second to thirty.\<close>

lemma backoff_curve:
  "map (\<lambda>n. unat (reconnect_backoff n)) [1, 2, 3, 4, 5, 6, 7, 1000] = [1, 2, 4, 8, 16, 30, 30, 30]"
  by code_simp

lemma backoff_bounded: "1 \<le> unat (reconnect_backoff n) \<and> unat (reconnect_backoff n) \<le> 30"
proof -
  have "min (unat n - 1) 5 \<in> {0, 1, 2, 3, 4, 5}" by auto
  then show ?thesis by (auto simp: reconnect_backoff_def Let_def push_bit_eq_mult min_def word_le_nat_alt)
qed

section \<open>Losses of the agent's bridge\<close>

text \<open>A run: the channel, what the subscriber has received, and the changes that were to be sent.\<close>

inductive bridge_step :: "bridge \<times> doc_change list \<times> doc_change list \<Rightarrow> bridge \<times> doc_change list \<times> doc_change list \<Rightarrow> bool" where
  notifies: "send_reset b = Some b' \<Longrightarrow> bridge_step (b, got, sent) (try_send c b', got, sent @ [c])"
| takes: "br_queue b = c # q \<Longrightarrow> bridge_step (b, got, sent) (b\<lparr>br_queue := q\<rparr>, got @ [c], sent)"

inductive signalled :: "doc_change list \<Rightarrow> doc_change list \<Rightarrow> bool" where
  nothing: "signalled [] []"
| kept: "signalled stream sent \<Longrightarrow> signalled (stream @ [c]) (sent @ [c])"
| lost: "signalled stream sent \<Longrightarrow> signalled (stream @ [ResetChange]) (sent @ missing)"

definition bridge_ok :: "bridge \<times> doc_change list \<times> doc_change list \<Rightarrow> bool" where
  "bridge_ok st \<longleftrightarrow> (case st of (b, got, sent) \<Rightarrow> length (br_queue b) \<le> 64 \<and>
     (\<exists>told missing. sent = told @ missing \<and> signalled (got @ br_queue b) told \<and> (missing = [] \<or> br_overflow b)))"

lemma try_send_ok:
  assumes "signalled (got @ br_queue b) sent" and "length (br_queue b) \<le> 64"
  shows "bridge_ok (try_send c b, got, sent @ [c])"
proof (cases "length (br_queue b) < 64")
  case True
  then show ?thesis using kept [OF assms(1), of c] by (auto simp: bridge_ok_def try_send_def)
next
  case False
  then show ?thesis using assms by (auto simp: bridge_ok_def try_send_def)
qed

lemma bridge_step_ok: "bridge_step st st' \<Longrightarrow> bridge_ok st \<Longrightarrow> bridge_ok st'"
proof (induction rule: bridge_step.induct)
  case (notifies b b' got sent c)
  obtain told missing where t: "sent = told @ missing" "signalled (got @ br_queue b) told" "missing = [] \<or> br_overflow b"
      "length (br_queue b) \<le> 64"
    using notifies.prems by (auto simp: bridge_ok_def)
  have "signalled (got @ br_queue b') sent \<and> length (br_queue b') \<le> 64"
  proof (cases "br_overflow b")
    case True
    then have "length (br_queue b) < 64" "br_queue b' = br_queue b @ [ResetChange]"
      using notifies.hyps by (auto simp: send_reset_def split: if_splits)
    then show ?thesis using lost [OF t(2), of missing] t(1) by simp
  next
    case False
    then show ?thesis using t notifies.hyps by (simp add: send_reset_def)
  qed
  then show ?case using try_send_ok by blast
next
  case (takes b c q got sent)
  then show ?case by (simp add: bridge_ok_def)
qed



text \<open>The fields of a change are the column's JSON, not the values it stands for: an integer arrives as a map of a tag
  and a value.\<close>

lemma bridge_sends_tags:
  "json_fields_to_proto (fields_to_json enc [(''n'', FInteger 5)]) = [(''n'', AMap [(''t'', AString ''I''), (''v'', AInteger 5)])]"
  by (simp add: json_fields_to_proto_def fields_to_json_def tagged_def)

end
