(* ===== verification/Admin_Members.thy ===== *)
theory Admin_Members
  imports Prelude
begin

text \<open>
  Accounts of the admin interface: the roles and \<open>check_rbac\<close> of \<open>embyr-core/src/admin/rbac.rs\<close>, and the
  handlers that change members, admin keys and service accounts and authenticate requests, from
  \<open>embyr-server/src/admin\<close>. The state is the tables of the system database that they use; a failed statement is
  not modelled. Parsing a UUID, the hash of a token and generated ids are arguments.
\<close>

section \<open>Roles\<close>

datatype role = Viewer | Admin | Owner

fun role_rank :: "role \<Rightarrow> nat" where
  "role_rank Viewer = 1"
| "role_rank Admin = 2"
| "role_rank Owner = 3"

lemma role_rank_inj: "role_rank a = role_rank b \<Longrightarrow> a = b"
  by (cases a; cases b) simp_all

instantiation role :: linorder
begin

definition less_eq_role :: "role \<Rightarrow> role \<Rightarrow> bool" where
  "less_eq_role a b \<longleftrightarrow> role_rank a \<le> role_rank b"

definition less_role :: "role \<Rightarrow> role \<Rightarrow> bool" where
  "less_role a b \<longleftrightarrow> role_rank a < role_rank b"

instance
  by standard (auto simp: less_eq_role_def less_role_def role_rank_inj)

end

fun parse_role :: "string \<Rightarrow> role option" where
  "parse_role s =
     (if s = ''Owner'' then Some Owner else if s = ''Admin'' then Some Admin else if s = ''Viewer'' then Some Viewer else None)"

section \<open>Authorization of actions\<close>

type_synonym uuid = "128 word"

record account_member =
  am_user :: uuid
  am_role :: role

datatype rbac_action =
    RemoveMember uuid
  | ChangeMemberRole uuid role
  | CreateAdminKey role
  | DeleteServiceAccount uuid

datatype rbac_error =
    InsufficientRole role role
  | LastOwner
  | AdminCannotModifyOwner
  | RoleEscalation role role

definition owner_count :: "account_member list \<Rightarrow> nat" where
  "owner_count ms = length (filter (\<lambda>m. am_role m = Owner) ms)"

fun check_rbac :: "rbac_action \<Rightarrow> role \<Rightarrow> account_member list \<Rightarrow> (rbac_error, unit) result" where
  "check_rbac (RemoveMember target) actor ms =
     (if actor < Admin then Inl (InsufficientRole actor Admin)
      else case find (\<lambda>m. am_user m = target) ms of
        None \<Rightarrow> Inr ()
      | Some m \<Rightarrow>
          if am_role m = Owner then
            if actor < Owner then Inl AdminCannotModifyOwner
            else if owner_count ms \<le> 1 then Inl LastOwner
            else Inr ()
          else Inr ())"
| "check_rbac (ChangeMemberRole target new_role) actor ms =
     (if actor < Admin then Inl (InsufficientRole actor Admin)
      else if new_role > actor then Inl (RoleEscalation actor new_role)
      else case find (\<lambda>m. am_user m = target) ms of
        None \<Rightarrow> Inr ()
      | Some m \<Rightarrow>
          if am_role m = Owner then
            if actor < Owner then Inl AdminCannotModifyOwner
            else if new_role < Owner \<and> owner_count ms \<le> 1 then Inl LastOwner
            else Inr ()
          else Inr ())"
| "check_rbac (CreateAdminKey requested) actor ms =
     (if actor < Admin then Inl (InsufficientRole actor Admin)
      else if requested > actor then Inl (RoleEscalation actor requested)
      else Inr ())"
| "check_rbac (DeleteServiceAccount i) actor ms =
     (if actor < Admin then Inl (InsufficientRole actor Admin) else Inr ())"

section \<open>Tables\<close>

text \<open>Times are seconds on the clock of the database. A role column holds text.\<close>

record member_row =
  mr_user :: uuid
  mr_account :: uuid
  mr_role :: string

record session_row =
  sn_id :: uuid
  sn_user :: uuid
  sn_account :: uuid
  sn_token_hash :: "u8 list"
  sn_expires_at :: int

record key_row =
  ak_id :: uuid
  ak_account :: uuid
  ak_hash :: "u8 list"
  ak_role :: string
  ak_member :: "uuid option"
  ak_service_account :: "uuid option"
  ak_revoked_at :: "int option"

record service_account_row =
  sa_id :: uuid
  sa_account :: uuid
  sa_role :: string

record admin_db =
  account_members :: "member_row list"
  admin_sessions :: "session_row list"
  admin_api_keys :: "key_row list"
  service_accounts :: "service_account_row list"

record session_context =
  cx_session :: uuid
  cx_user :: uuid
  cx_account :: uuid
  cx_role :: role

datatype http_status =
    Http200 | Http201 | Http204 | Http401 | Http403 | Http404 | Http409 | Http422 | Http429 | Http500 | Http502

section \<open>Members\<close>

definition load_account_members :: "uuid \<Rightarrow> admin_db \<Rightarrow> account_member list" where
  "load_account_members acct db =
     List.map_filter (\<lambda>r. if mr_account r = acct then map_option (\<lambda>x. \<lparr>am_user = mr_user r, am_role = x\<rparr>) (parse_role (mr_role r)) else None)
       (account_members db)"

definition row_of :: "uuid \<Rightarrow> uuid \<Rightarrow> member_row \<Rightarrow> bool" where
  "row_of user acct r \<longleftrightarrow> mr_user r = user \<and> mr_account r = acct"

text \<open>What a handler decides from the members it has loaded, and the statements that it runs then.\<close>

definition decide_role_change ::
  "(string \<Rightarrow> uuid option) \<Rightarrow> string \<Rightarrow> string \<Rightarrow> session_context \<Rightarrow> account_member list \<Rightarrow> (http_status, uuid) result" where
  "decide_role_change parse_uuid member_id new_role cx ms =
     (if cx_role cx < Admin then Inl Http403
      else rbind (ok_or Http404 (parse_uuid member_id)) (\<lambda>target.
        rbind (ok_or Http422 (parse_role new_role)) (\<lambda>x.
          map_sum (\<lambda>_. Http403) (\<lambda>_. target) (check_rbac (ChangeMemberRole target x) (cx_role cx) ms))))"

definition apply_role_change :: "uuid \<Rightarrow> string \<Rightarrow> uuid \<Rightarrow> admin_db \<Rightarrow> http_status \<times> admin_db" where
  "apply_role_change target new_role acct db =
     (if \<not> list_ex (row_of target acct) (account_members db) then (Http404, db)
      else (Http200, db\<lparr>account_members :=
        map (\<lambda>r. if row_of target acct r then r\<lparr>mr_role := new_role\<rparr> else r) (account_members db)\<rparr>))"

definition change_member_role ::
  "(string \<Rightarrow> uuid option) \<Rightarrow> string \<Rightarrow> string \<Rightarrow> session_context \<Rightarrow> admin_db \<Rightarrow> http_status \<times> admin_db" where
  "change_member_role parse_uuid member_id new_role cx db =
     (case decide_role_change parse_uuid member_id new_role cx (load_account_members (cx_account cx) db) of
        Inl st \<Rightarrow> (st, db)
      | Inr target \<Rightarrow> apply_role_change target new_role (cx_account cx) db)"

definition decide_removal ::
  "(string \<Rightarrow> uuid option) \<Rightarrow> string \<Rightarrow> session_context \<Rightarrow> account_member list \<Rightarrow> (http_status, uuid) result" where
  "decide_removal parse_uuid member_id cx ms =
     (if cx_role cx < Admin then Inl Http403
      else rbind (ok_or Http404 (parse_uuid member_id)) (\<lambda>target.
        map_sum (\<lambda>e. if e = LastOwner then Http409 else Http403) (\<lambda>_. target) (check_rbac (RemoveMember target) (cx_role cx) ms)))"

definition apply_removal :: "int \<Rightarrow> uuid \<Rightarrow> uuid \<Rightarrow> admin_db \<Rightarrow> admin_db" where
  "apply_removal now target acct db =
     db\<lparr>admin_sessions := map (\<lambda>s. if sn_user s = target \<and> sn_account s = acct then s\<lparr>sn_expires_at := now\<rparr> else s) (admin_sessions db),
        admin_api_keys := map (\<lambda>k. if ak_member k = Some target \<and> ak_account k = acct \<and> ak_revoked_at k = None
          then k\<lparr>ak_revoked_at := Some now\<rparr> else k) (admin_api_keys db),
        account_members := filter (\<lambda>r. \<not> row_of target acct r) (account_members db)\<rparr>"

definition remove_member ::
  "(string \<Rightarrow> uuid option) \<Rightarrow> int \<Rightarrow> string \<Rightarrow> session_context \<Rightarrow> admin_db \<Rightarrow> http_status \<times> admin_db" where
  "remove_member parse_uuid now member_id cx db =
     (case decide_removal parse_uuid member_id cx (load_account_members (cx_account cx) db) of
        Inl st \<Rightarrow> (st, db)
      | Inr target \<Rightarrow> (Http204, apply_removal now target (cx_account cx) db))"

section \<open>Keys and service accounts\<close>

definition parse_optional :: "(string \<Rightarrow> uuid option) \<Rightarrow> string option \<Rightarrow> (http_status, uuid option) result" where
  "parse_optional parse_uuid x = (case x of None \<Rightarrow> Inr None | Some s \<Rightarrow> map_sum id Some (ok_or Http422 (parse_uuid s)))"

text \<open>The foreign keys of the inserted row are those of existing users and service accounts; a violation is a
  failed statement.\<close>

definition create_admin_key ::
  "(string \<Rightarrow> uuid option) \<Rightarrow> uuid \<Rightarrow> u8 list \<Rightarrow> string \<Rightarrow> string option \<Rightarrow> string option \<Rightarrow> session_context \<Rightarrow> admin_db \<Rightarrow> http_status \<times> admin_db" where
  "create_admin_key parse_uuid fresh key_hash requested member sa cx db =
     (case (if cx_role cx < Admin then Inl Http403
            else rbind (ok_or Http422 (parse_role requested)) (\<lambda>x.
              rbind (map_sum (\<lambda>_. Http403) id (check_rbac (CreateAdminKey x) (cx_role cx) [])) (\<lambda>_.
              rbind (parse_optional parse_uuid member) (\<lambda>m.
                map_sum id (Pair m) (parse_optional parse_uuid sa))))) of
        Inl st \<Rightarrow> (st, db)
      | Inr (m, s) \<Rightarrow>
          (Http201, db\<lparr>admin_api_keys := admin_api_keys db @
             [\<lparr>ak_id = fresh, ak_account = cx_account cx, ak_hash = key_hash, ak_role = requested, ak_member = m,
               ak_service_account = s, ak_revoked_at = None\<rparr>]\<rparr>))"

definition revoke_admin_key ::
  "(string \<Rightarrow> uuid option) \<Rightarrow> int \<Rightarrow> string \<Rightarrow> session_context \<Rightarrow> admin_db \<Rightarrow> http_status \<times> admin_db" where
  "revoke_admin_key parse_uuid now key_id cx db =
     (if cx_role cx < Admin then (Http403, db)
      else case parse_uuid key_id of
        None \<Rightarrow> (Http404, db)
      | Some i \<Rightarrow>
          let hit = (\<lambda>k. ak_id k = i \<and> ak_account k = cx_account cx \<and> ak_revoked_at k = None) in
          if \<not> list_ex hit (admin_api_keys db) then (Http404, db)
          else (Http204, db\<lparr>admin_api_keys := map (\<lambda>k. if hit k then k\<lparr>ak_revoked_at := Some now\<rparr> else k) (admin_api_keys db)\<rparr>))"

definition create_service_account :: "uuid \<Rightarrow> string \<Rightarrow> session_context \<Rightarrow> admin_db \<Rightarrow> http_status \<times> admin_db" where
  "create_service_account fresh requested cx db =
     (if cx_role cx < Admin then (Http403, db)
      else if parse_role requested = None then (Http422, db)
      else (Http201, db\<lparr>service_accounts := service_accounts db @ [\<lparr>sa_id = fresh, sa_account = cx_account cx, sa_role = requested\<rparr>]\<rparr>))"

text \<open>Deleting a service account revokes its keys; the reference of a key to the deleted row is cleared.\<close>

definition delete_service_account ::
  "(string \<Rightarrow> uuid option) \<Rightarrow> int \<Rightarrow> string \<Rightarrow> session_context \<Rightarrow> admin_db \<Rightarrow> http_status \<times> admin_db" where
  "delete_service_account parse_uuid now sid cx db =
     (if cx_role cx < Admin then (Http403, db)
      else case parse_uuid sid of
        None \<Rightarrow> (Http404, db)
      | Some i \<Rightarrow>
          (case find (\<lambda>s. sa_id s = i) (service_accounts db) of
             None \<Rightarrow> (Http404, db)
           | Some s \<Rightarrow>
               if sa_account s \<noteq> cx_account cx then (Http404, db)
               else (Http204, db\<lparr>
                 admin_api_keys := map (\<lambda>k. if ak_service_account k = Some i
                   then k\<lparr>ak_revoked_at := (case ak_revoked_at k of None \<Rightarrow> Some now | r \<Rightarrow> r), ak_service_account := None\<rparr> else k) (admin_api_keys db),
                 service_accounts := filter (\<lambda>x. sa_id x \<noteq> i) (service_accounts db)\<rparr>)))"

section \<open>Authentication\<close>

text \<open>\<open>session_auth_middleware\<close>: a session cookie decides alone when it is present; otherwise an admin key.\<close>

definition session_by_cookie :: "int \<Rightarrow> u8 list \<Rightarrow> admin_db \<Rightarrow> (http_status, session_context) result" where
  "session_by_cookie now h db =
     (case List.map_filter (\<lambda>s. if sn_token_hash s = h \<and> sn_expires_at s > now
             then map_option (Pair s) (find (row_of (sn_user s) (sn_account s)) (account_members db)) else None) (admin_sessions db) of
        [] \<Rightarrow> Inl Http401
      | (s, m) # _ \<Rightarrow>
          map_sum id (\<lambda>x. \<lparr>cx_session = sn_id s, cx_user = sn_user s, cx_account = sn_account s, cx_role = x\<rparr>)
            (ok_or Http401 (parse_role (mr_role m))))"

definition session_by_key :: "u8 list \<Rightarrow> admin_db \<Rightarrow> (http_status, session_context) result" where
  "session_by_key h db =
     (case find (\<lambda>k. ak_hash k = h \<and> ak_revoked_at k = None) (admin_api_keys db) of
        None \<Rightarrow> Inl Http401
      | Some k \<Rightarrow>
          map_sum id (\<lambda>x. \<lparr>cx_session = ak_id k, cx_user = (case ak_member k of Some u \<Rightarrow> u | None \<Rightarrow> 0),
              cx_account = ak_account k, cx_role = x\<rparr>)
            (ok_or Http401 (parse_role (ak_role k))))"

definition session_auth ::
  "(string \<Rightarrow> u8 list) \<Rightarrow> int \<Rightarrow> string option \<Rightarrow> string option \<Rightarrow> admin_db \<Rightarrow> (http_status, session_context) result" where
  "session_auth hash now cookie bearer db =
     (case cookie of
        Some c \<Rightarrow> session_by_cookie now (hash c) db
      | None \<Rightarrow> (case bearer of Some k \<Rightarrow> session_by_key (hash k) db | None \<Rightarrow> Inl Http401))"

end
