(* ===== verification/Admin_Safety.thy ===== *)
theory Admin_Safety
  imports Admin_Members
begin

text \<open>
  What the account handlers guarantee. A handler runs with the context that \<open>session_auth_middleware\<close> built. Run
  one after the other they keep an owner in every account, keep administrators below the owners, and cut off a
  removed member. The handlers load the members and write in separate statements: two removals that both load
  first can leave an account with no owner.
\<close>

section \<open>Steps\<close>

inductive admin_step :: "(string \<Rightarrow> uuid option) \<Rightarrow> session_context \<Rightarrow> admin_db \<Rightarrow> admin_db \<Rightarrow> bool" for pu cx where
  role_changed: "change_member_role pu i x cx db = (st, db') \<Longrightarrow> admin_step pu cx db db'"
| member_removed: "remove_member pu now i cx db = (st, db') \<Longrightarrow> admin_step pu cx db db'"
| key_created: "create_admin_key pu fresh h x m s cx db = (st, db') \<Longrightarrow> admin_step pu cx db db'"
| key_revoked: "revoke_admin_key pu now i cx db = (st, db') \<Longrightarrow> admin_step pu cx db db'"
| service_account_created: "create_service_account fresh x cx db = (st, db') \<Longrightarrow> admin_step pu cx db db'"
| service_account_deleted: "delete_service_account pu now i cx db = (st, db') \<Longrightarrow> admin_step pu cx db db'"

inductive admin_run :: "(string \<Rightarrow> uuid option) \<Rightarrow> session_context list \<Rightarrow> admin_db \<Rightarrow> admin_db \<Rightarrow> bool" for pu where
  run_nil: "admin_run pu [] db db"
| run_step: "admin_step pu cx db db1 \<Longrightarrow> admin_run pu cxs db1 db2 \<Longrightarrow> admin_run pu (cx # cxs) db db2"

lemma run_one: "admin_step pu cx db db' \<Longrightarrow> admin_run pu [cx] db db'"
  by (rule run_step[OF _ run_nil])

text \<open>The unique key of the membership table.\<close>

definition unique_members :: "admin_db \<Rightarrow> bool" where
  "unique_members db \<longleftrightarrow> distinct (map (\<lambda>r. (mr_user r, mr_account r)) (account_members db))"

definition owners :: "uuid \<Rightarrow> admin_db \<Rightarrow> uuid set" where
  "owners acct db = mr_user ` {r \<in> set (account_members db). mr_account r = acct \<and> mr_role r = ''Owner''}"

definition owner_keys :: "uuid \<Rightarrow> admin_db \<Rightarrow> uuid set" where
  "owner_keys acct db = ak_id ` {k \<in> set (admin_api_keys db). ak_account k = acct \<and> ak_role k = ''Owner'' \<and> ak_revoked_at k = None}"

lemma owners_iff:
  "u \<in> owners a db \<longleftrightarrow> (\<exists>r\<in>set (account_members db). mr_user r = u \<and> mr_account r = a \<and> mr_role r = ''Owner'')"
  by (auto simp: owners_def)

lemma parse_role_owner: "parse_role s = Some Owner \<longleftrightarrow> s = ''Owner''"
  by simp

lemma loaded_member:
  assumes "m \<in> set (load_account_members acct db)"
  shows "\<exists>r\<in>set (account_members db). mr_account r = acct \<and> mr_user r = am_user m \<and> parse_role (mr_role r) = Some (am_role m)"
  using assms by (auto simp del: parse_role.simps simp: load_account_members_def List.map_filter_def split: if_splits)

lemma member_loaded:
  assumes "r \<in> set (account_members db)" and "mr_account r = acct" and "parse_role (mr_role r) = Some x"
  shows "\<lparr>am_user = mr_user r, am_role = x\<rparr> \<in> set (load_account_members acct db)"
  using assms by (force simp del: parse_role.simps simp: load_account_members_def List.map_filter_def)

lemma unique_role:
  assumes "unique_members db" and "r \<in> set (account_members db)" and "r' \<in> set (account_members db)"
    and "mr_user r = mr_user r'" and "mr_account r = mr_account r'"
  shows "r = r'"
  using assms by (auto simp: unique_members_def distinct_map inj_on_def)

text \<open>An owner's row is the one that the check finds.\<close>

lemma owner_found:
  assumes "unique_members db" and "u \<in> owners acct db"
  shows "\<exists>m. find (\<lambda>m. am_user m = u) (load_account_members acct db) = Some m \<and> am_role m = Owner"
proof -
  obtain r where r: "r \<in> set (account_members db)" "mr_account r = acct" "mr_role r = ''Owner''" "mr_user r = u"
    using assms(2) by (auto simp: owners_def)
  have "\<lparr>am_user = u, am_role = Owner\<rparr> \<in> set (load_account_members acct db)"
    using member_loaded[OF r(1,2), of Owner] r by simp
  then obtain m where m: "find (\<lambda>m. am_user m = u) (load_account_members acct db) = Some m"
    by (cases "find (\<lambda>m. am_user m = u) (load_account_members acct db)") (auto simp: find_None_iff)
  then have "m \<in> set (load_account_members acct db)" and u: "am_user m = u"
    by (auto simp: find_Some_iff)
  from loaded_member[OF this(1)] obtain r' where r': "r' \<in> set (account_members db)" "mr_account r' = acct"
      "mr_user r' = u" "parse_role (mr_role r') = Some (am_role m)"
    using u by auto
  from unique_role[OF assms(1) r(1) r'(1)] r r' have "r' = r" by simp
  with r r' m show ?thesis by simp
qed

lemma owner_count_loaded:
  "owner_count (List.map_filter (\<lambda>r. if mr_account r = acct then map_option (\<lambda>x. \<lparr>am_user = mr_user r, am_role = x\<rparr>) (parse_role (mr_role r)) else None) rs)
   = length (filter (\<lambda>r. mr_account r = acct \<and> mr_role r = ''Owner'') rs)"
proof (induction rs)
  case (Cons r rs)
  then show ?case
    by (cases "mr_account r = acct"; cases "parse_role (mr_role r)")
       (auto simp: owner_count_def List.map_filter_simps simp del: parse_role.simps simp flip: parse_role_owner)
qed (simp add: owner_count_def List.map_filter_simps)

lemma two_owners:
  assumes "unique_members db" and "1 < owner_count (load_account_members acct db)"
  shows "\<exists>v \<in> owners acct db. v \<noteq> u"
proof (rule ccontr)
  assume no: "\<not> ?thesis"
  let ?os = "filter (\<lambda>r. mr_account r = acct \<and> mr_role r = ''Owner'') (account_members db)"
  have "owner_count (load_account_members acct db) = length ?os"
    unfolding load_account_members_def by (rule owner_count_loaded)
  moreover have "distinct (map (\<lambda>r. (mr_user r, mr_account r)) ?os)"
    using assms(1) unfolding unique_members_def by (rule distinct_map_filter)
  moreover have "set (map (\<lambda>r. (mr_user r, mr_account r)) ?os) \<subseteq> {(u, acct)}"
    using no by (auto simp: owners_def)
  ultimately show False
    using assms(2) distinct_card[of "map (\<lambda>r. (mr_user r, mr_account r)) ?os"]
      card_mono[of "{(u, acct)}" "set (map (\<lambda>r. (mr_user r, mr_account r)) ?os)"] by simp
qed


section \<open>One request\<close>

text \<open>What is written, when a handler decides to write.\<close>

lemma decided_Inr: "map_sum f g (r :: ('e, unit) result) = Inr y \<longleftrightarrow> r = Inr () \<and> y = g ()"
  by (cases r) auto

lemma decided_Inl: "map_sum f g (r :: ('e, unit) result) = Inl y \<longleftrightarrow> (\<exists>e. r = Inl e \<and> y = f e)"
  by (cases r) auto

lemma role_change_decided:
  assumes "decide_role_change pu i x cx ms = Inr target"
  shows "Admin \<le> cx_role cx" and "\<exists>y. parse_role x = Some y \<and> y \<le> cx_role cx
     \<and> (\<forall>m. find (\<lambda>m. am_user m = target) ms = Some m \<and> am_role m = Owner
          \<longrightarrow> cx_role cx = Owner \<and> (y = Owner \<or> 1 < owner_count ms))"
proof -
  show "Admin \<le> cx_role cx"
    using assms by (auto simp: decide_role_change_def split: if_splits)
  obtain y where y: "parse_role x = Some y" "check_rbac (ChangeMemberRole target y) (cx_role cx) ms = Inr ()"
    using assms by (auto simp: decide_role_change_def rbind_Inr_iff ok_or_Inr_iff decided_Inr simp del: parse_role.simps check_rbac.simps split: if_splits)
  show "\<exists>y. parse_role x = Some y \<and> y \<le> cx_role cx
     \<and> (\<forall>m. find (\<lambda>m. am_user m = target) ms = Some m \<and> am_role m = Owner
          \<longrightarrow> cx_role cx = Owner \<and> (y = Owner \<or> 1 < owner_count ms))"
    using y by (cases "cx_role cx"; cases y) (auto simp: less_eq_role_def less_role_def simp del: parse_role.simps split: if_splits)
qed

lemma removal_decided:
  assumes "decide_removal pu i cx ms = Inr target"
  shows "Admin \<le> cx_role cx" and "find (\<lambda>m. am_user m = target) ms = Some m \<Longrightarrow> am_role m = Owner
     \<Longrightarrow> cx_role cx = Owner \<and> 1 < owner_count ms"
proof -
  show "Admin \<le> cx_role cx"
    using assms by (auto simp: decide_removal_def split: if_splits)
  have y: "check_rbac (RemoveMember target) (cx_role cx) ms = Inr ()"
    using assms by (auto simp: decide_removal_def rbind_Inr_iff ok_or_Inr_iff decided_Inr simp del: check_rbac.simps split: if_splits)
  assume "find (\<lambda>m. am_user m = target) ms = Some m" and "am_role m = Owner"
  with y show "cx_role cx = Owner \<and> 1 < owner_count ms"
    by (cases "cx_role cx") (auto simp: less_role_def split: if_splits)
qed

text \<open>The members after the two statements.\<close>

lemma unique_after_role_change:
  assumes "unique_members db" and "apply_role_change target x acct db = (st, db')"
  shows "unique_members db'"
proof -
  have "map (\<lambda>r. (mr_user r, mr_account r)) (account_members db') = map (\<lambda>r. (mr_user r, mr_account r)) (account_members db)"
    using assms(2) by (auto simp: apply_role_change_def split: if_splits)
  with assms(1) show ?thesis by (simp add: unique_members_def)
qed

lemma unique_after_removal: "unique_members db \<Longrightarrow> unique_members (apply_removal now target acct db)"
  by (simp add: apply_removal_def unique_members_def distinct_map_filter)

lemma owners_after_role_change:
  assumes "apply_role_change target x acct db = (st, db')"
  shows "db' = db \<or> list_ex (row_of target acct) (account_members db) \<and>
     owners acct db' = owners acct db - {target} \<union> (if x = ''Owner'' then {target} else {})"
    and "acct' \<noteq> acct \<Longrightarrow> owners acct' db' = owners acct' db"
proof -
  let ?f = "\<lambda>r. if row_of target acct r then r\<lparr>mr_role := x\<rparr> else r"
  have 1: "u \<in> owners a (db\<lparr>account_members := map ?f rs\<rparr>) \<longleftrightarrow> (\<exists>r\<in>set rs. mr_user r = u \<and> mr_account r = a
      \<and> (if u = target \<and> a = acct then x = ''Owner'' else mr_role r = ''Owner''))" for u a rs
    by (simp add: owners_iff del: if_image_distrib) (rule bex_cong[OF refl], auto simp: row_of_def)
  have 2: "db' = db \<or> list_ex (row_of target acct) (account_members db) \<and> db' = db\<lparr>account_members := map ?f (account_members db)\<rparr>"
    using assms by (auto simp: apply_role_change_def split: if_splits)
  let ?db = "db\<lparr>account_members := map ?f (account_members db)\<rparr>"
  have 3: "owners acct ?db = owners acct db - {target} \<union> (if x = ''Owner'' then {target} else {})"
    if "list_ex (row_of target acct) (account_members db)"
  proof (rule set_eqI)
    fix u
    show "u \<in> owners acct ?db \<longleftrightarrow> u \<in> owners acct db - {target} \<union> (if x = ''Owner'' then {target} else {})"
      using that unfolding 1 by (auto simp: owners_iff list_ex_iff row_of_def)
  qed
  show "db' = db \<or> list_ex (row_of target acct) (account_members db) \<and>
     owners acct db' = owners acct db - {target} \<union> (if x = ''Owner'' then {target} else {})"
    using 2
  proof
    assume a: "list_ex (row_of target acct) (account_members db) \<and> db' = ?db"
    then have "db' = ?db" by (rule conjunct2)
    with 3[OF conjunct1[OF a]] conjunct1[OF a] show ?thesis by simp
  qed (rule disjI1)
  have 4: "owners acct' ?db = owners acct' db" if "acct' \<noteq> acct"
  proof (rule set_eqI)
    fix u
    show "u \<in> owners acct' ?db \<longleftrightarrow> u \<in> owners acct' db"
      using that unfolding 1 by (auto simp: owners_iff)
  qed
  show "owners acct' db' = owners acct' db" if "acct' \<noteq> acct"
    using 2 4[OF that] by (elim disjE conjE) simp_all
qed

lemma owners_after_removal:
  "owners acct' (apply_removal now target acct db) = (if acct' = acct then owners acct db - {target} else owners acct' db)"
  by (auto simp: apply_removal_def owners_def row_of_def)


section \<open>Owners\<close>

text \<open>Only the membership handlers touch the membership table.\<close>

lemma key_handlers_members:
  "create_admin_key pu fresh h x m s cx db = (st, db') \<Longrightarrow> account_members db' = account_members db"
  "revoke_admin_key pu now i cx db = (st, db') \<Longrightarrow> account_members db' = account_members db"
  "create_service_account fresh x cx db = (st, db') \<Longrightarrow> account_members db' = account_members db"
  "delete_service_account pu now i cx db = (st, db') \<Longrightarrow> account_members db' = account_members db"
proof -
  show "create_admin_key pu fresh h x m s cx db = (st, db') \<Longrightarrow> account_members db' = account_members db"
    unfolding create_admin_key_def by (auto split: sum.splits prod.splits)
  show "revoke_admin_key pu now i cx db = (st, db') \<Longrightarrow> account_members db' = account_members db"
    by (auto simp: revoke_admin_key_def Let_def split: if_splits option.splits)
  show "create_service_account fresh x cx db = (st, db') \<Longrightarrow> account_members db' = account_members db"
    by (auto simp: create_service_account_def simp del: parse_role.simps split: if_splits)
  show "delete_service_account pu now i cx db = (st, db') \<Longrightarrow> account_members db' = account_members db"
    by (auto simp: delete_service_account_def split: if_splits option.splits)
qed

lemma same_members:
  assumes "account_members db' = account_members db" and "unique_members db"
  shows "unique_members db' \<and> (owners acct db \<noteq> {} \<longrightarrow> owners acct db' \<noteq> {})
    \<and> (cx_role cx < Owner \<longrightarrow> owners acct db' = owners acct db)"
  using assms by (simp add: unique_members_def owners_def)

lemma role_change_owners:
  assumes "change_member_role pu i x cx db = (st, db')" and "unique_members db"
  shows "unique_members db' \<and> (owners acct db \<noteq> {} \<longrightarrow> owners acct db' \<noteq> {})
    \<and> (cx_role cx < Owner \<longrightarrow> owners acct db' = owners acct db)"
proof -
  let ?ms = "load_account_members (cx_account cx) db"
  consider "db' = db" | target where "decide_role_change pu i x cx ?ms = Inr target" "apply_role_change target x (cx_account cx) db = (st, db')"
    using assms(1) by (auto simp: change_member_role_def split: sum.splits)
  then show ?thesis
  proof cases
    case 2
    note o = owners_after_role_change(1)[OF 2(2)] owners_after_role_change(2)[OF 2(2), of acct]
    obtain y where y: "parse_role x = Some y" "y \<le> cx_role cx"
      "\<And>m. find (\<lambda>m. am_user m = target) ?ms = Some m \<Longrightarrow> am_role m = Owner \<Longrightarrow> cx_role cx = Owner \<and> (y = Owner \<or> 1 < owner_count ?ms)"
      using role_change_decided(2)[OF 2(1)] by blast
    have t: "cx_role cx = Owner \<and> (y = Owner \<or> (\<exists>v\<in>owners (cx_account cx) db. v \<noteq> target))"
      if "target \<in> owners (cx_account cx) db"
      using owner_found[OF assms(2) that] y(3) two_owners[OF assms(2), of "cx_account cx" target] by blast
    have y': "y = Owner \<longleftrightarrow> x = ''Owner''" using y(1) by (auto split: if_splits)
    have "unique_members db'" by (rule unique_after_role_change[OF assms(2) 2(2)])
    moreover have "owners acct db' \<noteq> {}" if "owners acct db \<noteq> {}"
      using o t y' that by (cases "acct = cx_account cx") auto
    moreover have "owners acct db' = owners acct db" if "cx_role cx < Owner"
    proof (cases "acct = cx_account cx")
      case True
      have "x \<noteq> ''Owner''" using y(2) y' that by auto
      moreover have "target \<notin> owners (cx_account cx) db" using t that by auto
      ultimately show ?thesis using o(1) True by auto
    qed (rule o(2))
    ultimately show ?thesis by blast
  qed (use assms(2) in auto)
qed

lemma removal_owners:
  assumes "remove_member pu now i cx db = (st, db')" and "unique_members db"
  shows "unique_members db' \<and> (owners acct db \<noteq> {} \<longrightarrow> owners acct db' \<noteq> {})
    \<and> (cx_role cx < Owner \<longrightarrow> owners acct db' = owners acct db)"
proof -
  let ?ms = "load_account_members (cx_account cx) db"
  consider "db' = db" | target where "decide_removal pu i cx ?ms = Inr target" "db' = apply_removal now target (cx_account cx) db"
    using assms(1) by (auto simp: remove_member_def split: sum.splits)
  then show ?thesis
  proof cases
    case 2
    have t: "cx_role cx = Owner \<and> (\<exists>v\<in>owners (cx_account cx) db. v \<noteq> target)" if "target \<in> owners (cx_account cx) db"
      using owner_found[OF assms(2) that] removal_decided(2)[OF 2(1)] two_owners[OF assms(2), of "cx_account cx" target] by blast
    then show ?thesis
      using 2(2) unique_after_removal[OF assms(2)] by (auto simp: owners_after_removal)
  qed (use assms(2) in auto)
qed

lemma step_owners:
  assumes "admin_step pu cx db db'" and "unique_members db"
  shows "unique_members db' \<and> (owners acct db \<noteq> {} \<longrightarrow> owners acct db' \<noteq> {}) \<and> (cx_role cx < Owner \<longrightarrow> owners acct db' = owners acct db)"
  using assms
proof cases
  case role_changed
  then show ?thesis by (rule role_change_owners[OF _ assms(2)])
next
  case member_removed
  then show ?thesis by (rule removal_owners[OF _ assms(2)])
next
  case key_created
  from same_members[OF key_handlers_members(1)[OF this] assms(2)] show ?thesis .
next
  case key_revoked
  from same_members[OF key_handlers_members(2)[OF this] assms(2)] show ?thesis .
next
  case service_account_created
  from same_members[OF key_handlers_members(3)[OF this] assms(2)] show ?thesis .
next
  case service_account_deleted
  from same_members[OF key_handlers_members(4)[OF this] assms(2)] show ?thesis .
qed


text \<open>\<open>C12\<close>. Requests of members, keys and service accounts of any roles, handled one after the other, never leave an
  account without an owner: an account that has an owner still has one at the end, and the membership table keeps
  one row for a user and an account.\<close>

theorem admin_run_keeps_owner:
  assumes "admin_run pu cxs db db'" and "unique_members db" and "owners acct db \<noteq> {}"
  shows "unique_members db' \<and> owners acct db' \<noteq> {}"
  using assms by induction (auto dest: step_owners[where acct = acct])

text \<open>An account with two owners, an administrator and keys.\<close>

definition sample_context :: "uuid \<Rightarrow> role \<Rightarrow> session_context" where
  "sample_context u x = \<lparr>cx_session = 9, cx_user = u, cx_account = 7, cx_role = x\<rparr>"

fun sample_uuid :: "string \<Rightarrow> uuid option" where
  "sample_uuid s = (if s = ''1'' then Some 1 else if s = ''2'' then Some 2 else if s = ''3'' then Some 3 else None)"

definition sample_admin_db :: admin_db where
  "sample_admin_db = \<lparr>account_members =
       [\<lparr>mr_user = 1, mr_account = 7, mr_role = ''Owner''\<rparr>, \<lparr>mr_user = 2, mr_account = 7, mr_role = ''Owner''\<rparr>,
        \<lparr>mr_user = 3, mr_account = 7, mr_role = ''Admin''\<rparr>],
     admin_sessions = [\<lparr>sn_id = 20, sn_user = 2, sn_account = 7, sn_token_hash = [2], sn_expires_at = 100\<rparr>],
     admin_api_keys = [\<lparr>ak_id = 30, ak_account = 7, ak_hash = [5], ak_role = ''Owner'', ak_member = Some 2,
       ak_service_account = None, ak_revoked_at = None\<rparr>],
     service_accounts = []\<rparr>"

lemma sample_unique: "unique_members sample_admin_db" "owners 7 sample_admin_db = {1, 2}"
  by (auto simp: unique_members_def owners_iff sample_admin_db_def)

theorem admin_run_keeps_owner_witness:
  "owners 7 (snd (remove_member sample_uuid 50 ''2'' (sample_context 1 Owner) sample_admin_db)) \<noteq> {}
   \<and> fst (remove_member sample_uuid 50 ''2'' (sample_context 1 Owner) sample_admin_db) = Http204"
proof -
  have "admin_run sample_uuid [sample_context 1 Owner] sample_admin_db
     (snd (remove_member sample_uuid 50 ''2'' (sample_context 1 Owner) sample_admin_db))"
    by (rule run_one[OF member_removed[OF surjective_pairing]])
  from admin_run_keeps_owner[OF this sample_unique(1), of 7]
  have "owners 7 (snd (remove_member sample_uuid 50 ''2'' (sample_context 1 Owner) sample_admin_db)) \<noteq> {}"
    by (simp only: sample_unique) simp
  moreover have "fst (remove_member sample_uuid 50 ''2'' (sample_context 1 Owner) sample_admin_db) = Http204"
    by code_simp
  ultimately show ?thesis by (rule conjI)
qed

section \<open>Roles below owner\<close>

lemma key_created_role:
  assumes "create_admin_key pu fresh h x m s cx db = (st, db')"
  shows "db' = db \<or> (\<exists>k y. admin_api_keys db' = admin_api_keys db @ [k] \<and> parse_role (ak_role k) = Some y \<and> y \<le> cx_role cx)"
proof -
  consider "db' = db"
    | y m' s' where "parse_role x = Some y" "check_rbac (CreateAdminKey y) (cx_role cx) [] = Inr ()"
        "db' = db\<lparr>admin_api_keys := admin_api_keys db @
             [\<lparr>ak_id = fresh, ak_account = cx_account cx, ak_hash = h, ak_role = x, ak_member = m',
               ak_service_account = s', ak_revoked_at = None\<rparr>]\<rparr>"
    using assms unfolding create_admin_key_def
    by (auto simp del: parse_role.simps check_rbac.simps simp: rbind_Inr_iff ok_or_Inr_iff decided_Inr split: sum.splits if_splits)
  then show ?thesis by cases (auto simp del: parse_role.simps split: if_splits)
qed

lemma owner_keys_mono:
  assumes "\<And>k'. k' \<in> set (admin_api_keys db') \<Longrightarrow> ak_role k' = ''Owner'' \<Longrightarrow> ak_revoked_at k' = None
     \<Longrightarrow> \<exists>k\<in>set (admin_api_keys db). ak_id k = ak_id k' \<and> ak_account k = ak_account k' \<and> ak_role k = ak_role k' \<and> ak_revoked_at k = None"
  shows "owner_keys acct db' \<subseteq> owner_keys acct db"
proof
  fix i
  assume "i \<in> owner_keys acct db'"
  then obtain k' where k': "k' \<in> set (admin_api_keys db')" "ak_role k' = ''Owner''" "ak_revoked_at k' = None" "ak_account k' = acct" "i = ak_id k'"
    by (auto simp: owner_keys_def)
  from assms[OF k'(1-3)] k' show "i \<in> owner_keys acct db" by (auto simp: owner_keys_def image_iff)
qed

lemma step_owner_keys:
  assumes "admin_step pu cx db db'" and "cx_role cx < Owner"
  shows "owner_keys acct db' \<subseteq> owner_keys acct db"
  using assms(1)
proof cases
  case (role_changed i x st)
  then show ?thesis
    by (auto simp: change_member_role_def apply_role_change_def owner_keys_def split: sum.splits if_splits)
next
  case (member_removed now i st)
  then have "db' = db \<or> (\<exists>t. db' = apply_removal now t (cx_account cx) db)"
    by (auto simp: remove_member_def split: sum.splits)
  then show ?thesis
    by (elim disjE exE) (auto intro!: owner_keys_mono simp: apply_removal_def split: if_splits)
next
  case (key_created fresh h x m s st)
  from key_created_role[OF this] show ?thesis
  proof (elim disjE exE conjE)
    fix k y
    assume k: "admin_api_keys db' = admin_api_keys db @ [k]" "parse_role (ak_role k) = Some y" "y \<le> cx_role cx"
    then have "y \<noteq> Owner" using assms(2) by auto
    with k(2) have "ak_role k \<noteq> ''Owner''" by auto
    with k(1) show ?thesis by (auto simp: owner_keys_def)
  qed simp
next
  case (key_revoked now i st)
  then show ?thesis
    by (intro owner_keys_mono) (auto simp: revoke_admin_key_def Let_def split: if_splits option.splits)
next
  case (service_account_created fresh x st)
  then show ?thesis
    by (auto simp: create_service_account_def owner_keys_def simp del: parse_role.simps split: if_splits)
next
  case (service_account_deleted now i st)
  then show ?thesis
    by (intro owner_keys_mono) (auto simp: delete_service_account_def split: if_splits option.splits)
qed

lemma viewer_step: "admin_step pu cx db db' \<Longrightarrow> cx_role cx = Viewer \<Longrightarrow> db' = db"
  by (cases rule: admin_step.cases)
     (auto simp: change_member_role_def decide_role_change_def remove_member_def decide_removal_def create_admin_key_def
       revoke_admin_key_def create_service_account_def delete_service_account_def less_role_def)




section \<open>Removed members\<close>

lemma set_map_value: "y \<in> set (map f xs) \<Longrightarrow> \<exists>x. y = f x"
  by auto

lemma removal_writes:
  assumes "remove_member pu now i cx db = (Http204, db')" and "pu i = Some u"
  shows "db' = apply_removal now u (cx_account cx) db"
  using assms by (auto simp: remove_member_def decide_removal_def decided_Inr decided_Inl rbind_Inr_iff rbind_Inl_iff
      simp del: check_rbac.simps split: sum.splits if_splits)

lemma cookie_session:
  assumes "session_by_cookie t h db = Inr c"
  shows "\<exists>s\<in>set (admin_sessions db). cx_user c = sn_user s \<and> cx_account c = sn_account s \<and> t < sn_expires_at s
    \<and> (\<exists>r\<in>set (account_members db). row_of (cx_user c) (cx_account c) r)"
proof -
  let ?hits = "List.map_filter (\<lambda>s. if sn_token_hash s = h \<and> sn_expires_at s > t
             then map_option (Pair s) (find (row_of (sn_user s) (sn_account s)) (account_members db)) else None) (admin_sessions db)"
  obtain s m rest where hits: "?hits = (s, m) # rest" and c: "cx_user c = sn_user s" "cx_account c = sn_account s"
    using assms by (auto simp: session_by_cookie_def map_sum_Inr_iff simp del: parse_role.simps split: list.splits)
  have "(s, m) \<in> set ?hits" unfolding hits by simp
  then have "s \<in> set (admin_sessions db)" "t < sn_expires_at s" "find (row_of (sn_user s) (sn_account s)) (account_members db) = Some m"
    by (auto simp: List.map_filter_def split: if_splits)
  then show ?thesis using c by (auto simp: find_Some_iff) (metis nth_mem)
qed

lemma key_session:
  assumes "session_by_key h db = Inr c"
  shows "\<exists>k\<in>set (admin_api_keys db). cx_account c = ak_account k \<and> ak_revoked_at k = None
    \<and> cx_user c = (case ak_member k of Some u \<Rightarrow> u | None \<Rightarrow> 0)"
proof -
  obtain k where "find (\<lambda>k. ak_hash k = h \<and> ak_revoked_at k = None) (admin_api_keys db) = Some k"
    and c: "cx_account c = ak_account k" "cx_user c = (case ak_member k of Some u \<Rightarrow> u | None \<Rightarrow> 0)"
    using assms by (auto simp: session_by_key_def map_sum_Inr_iff simp del: parse_role.simps split: option.splits)
  then have "k \<in> set (admin_api_keys db)" "ak_revoked_at k = None"
    by (auto simp: find_Some_iff)
  with c show ?thesis by blast
qed

text \<open>\<open>C14\<close>. Once a member has been removed, no cookie and no key authenticates a request as that user in the account;
  and a session that the member had before stays dead from then on, whatever happens to the other tables, even if the
  user becomes a member again. (The nil id is what keys of no member carry.)\<close>

theorem removed_member_locked_out:
  assumes "remove_member pu now i cx db = (Http204, db')" and "pu i = Some u" and "u \<noteq> 0"
  shows "(\<forall>c. session_auth hash t cookie bearer db' = Inr c \<longrightarrow> (cx_user c, cx_account c) \<noteq> (u, cx_account cx))
    \<and> (\<forall>db'' c. admin_sessions db'' = admin_sessions db' \<and> now \<le> t \<and> session_auth hash t (Some token) bearer db'' = Inr c
        \<longrightarrow> (cx_user c, cx_account c) \<noteq> (u, cx_account cx))"
proof (intro conjI allI impI; (elim conjE)?)
  have db': "db' = apply_removal now u (cx_account cx) db"
    by (rule removal_writes[OF assms(1,2)])
  show "(cx_user c, cx_account c) \<noteq> (u, cx_account cx)" if "session_auth hash t cookie bearer db' = Inr c" for c
  proof (cases cookie)
    case (Some v)
    with that have "session_by_cookie t (hash v) db' = Inr c" by (simp add: session_auth_def)
    from cookie_session[OF this] show ?thesis by (auto simp: db' apply_removal_def row_of_def)
  next
    case None
    with that obtain v where "session_by_key (hash v) db' = Inr c" by (auto simp: session_auth_def split: option.splits)
    from key_session[OF this] show ?thesis using assms(3) by (auto simp: db' apply_removal_def split: if_splits option.splits)
  qed
  have sessions: "admin_sessions db' = map (\<lambda>s. if sn_user s = u \<and> sn_account s = cx_account cx then s\<lparr>sn_expires_at := now\<rparr> else s) (admin_sessions db)"
    by (simp add: db' apply_removal_def)
  have expired: "sn_expires_at s \<le> now" if "s \<in> set (admin_sessions db')" "sn_user s = u" "sn_account s = cx_account cx" for s
  proof -
    from set_map_value[OF that(1)[unfolded sessions]] obtain s0 where "s = (if sn_user s0 = u \<and> sn_account s0 = cx_account cx then s0\<lparr>sn_expires_at := now\<rparr> else s0)"
      by blast
    with that(2,3) show ?thesis by (cases "sn_user s0 = u \<and> sn_account s0 = cx_account cx") simp_all
  qed
  show "(cx_user c, cx_account c) \<noteq> (u, cx_account cx)"
    if "admin_sessions db'' = admin_sessions db'" "now \<le> t" "session_auth hash t (Some token) bearer db'' = Inr c" for db'' c
  proof -
    have "session_by_cookie t (hash token) db'' = Inr c" using that(3) by (simp add: session_auth_def)
    from cookie_session[OF this, unfolded that(1)] obtain s where "s \<in> set (admin_sessions db')" "cx_user c = sn_user s" "cx_account c = sn_account s"
        "t < sn_expires_at s"
      by blast
    with expired[of s] that(2) show ?thesis by auto
  qed
qed

theorem removed_member_locked_out_witness:
  "session_auth (\<lambda>_. [2]) 60 (Some ''cookie'') None sample_admin_db = Inr \<lparr>cx_session = 20, cx_user = 2, cx_account = 7, cx_role = Owner\<rparr>
   \<and> session_auth (\<lambda>_. [2]) 60 (Some ''cookie'') None (snd (remove_member sample_uuid 50 ''2'' (sample_context 1 Owner) sample_admin_db))
     \<noteq> Inr \<lparr>cx_session = 20, cx_user = 2, cx_account = 7, cx_role = Owner\<rparr>"
proof -
  let ?db = "snd (remove_member sample_uuid 50 ''2'' (sample_context 1 Owner) sample_admin_db)"
  have "remove_member sample_uuid 50 ''2'' (sample_context 1 Owner) sample_admin_db = (Http204, ?db)" by code_simp
  moreover have "sample_uuid ''2'' = Some 2" by simp
  moreover have "(2 :: uuid) \<noteq> 0" by simp
  ultimately have "\<forall>c. session_auth (\<lambda>_. [2]) 60 (Some ''cookie'') None ?db = Inr c
      \<longrightarrow> (cx_user c, cx_account c) \<noteq> (2, cx_account (sample_context 1 Owner))"
    by (rule removed_member_locked_out[THEN conjunct1])
  then have "session_auth (\<lambda>_. [2]) 60 (Some ''cookie'') None ?db \<noteq> Inr \<lparr>cx_session = 20, cx_user = 2, cx_account = 7, cx_role = Owner\<rparr>"
    by (auto simp: sample_context_def)
  moreover have "session_auth (\<lambda>_. [2]) 60 (Some ''cookie'') None sample_admin_db
      = Inr \<lparr>cx_session = 20, cx_user = 2, cx_account = 7, cx_role = Owner\<rparr>"
    by code_simp
  ultimately show ?thesis by blast
qed

section \<open>Two removals at once\<close>

lemma owner_count_two:
  assumes "unique_members db" and "owners acct db = {u, v}" and "u \<noteq> v"
  shows "1 < owner_count (load_account_members acct db)"
proof -
  let ?os = "filter (\<lambda>r. mr_account r = acct \<and> mr_role r = ''Owner'') (account_members db)"
  have "{u, v} = set (map mr_user ?os)" using assms(2) by (auto simp: owners_def)
  then have "card {u, v} \<le> length ?os" using card_length[of "map mr_user ?os"] by simp
  then show ?thesis
    using assms(3) unfolding load_account_members_def owner_count_loaded by simp
qed

text \<open>The check and the deletion are separate statements: when two owners of an account remove each other and both
  requests load the members before either deletes, both are permitted, and the account is left with no owner.\<close>

theorem concurrent_removals_race:
  assumes "unique_members db" and "owners acct db = {u, v}" and "u \<noteq> v"
    and "cx_role cx = Owner" and "cx_role cx' = Owner" and "pu i = Some v" and "pu j = Some u"
  shows "decide_removal pu i cx (load_account_members acct db) = Inr v
    \<and> decide_removal pu j cx' (load_account_members acct db) = Inr u
    \<and> owners acct (apply_removal t' u acct (apply_removal t v acct db)) = {}"
proof -
  have "check_rbac (RemoveMember w) Owner (load_account_members acct db) = Inr ()" for w
    using owner_count_two[OF assms(1-3)] by (simp add: less_role_def split: option.splits)
  then show ?thesis
    using assms(2,4-7) by (auto simp: decide_removal_def owners_after_removal less_role_def simp del: check_rbac.simps)
qed

theorem concurrent_removals_race_witness:
  "owners 7 (apply_removal 51 1 7 (apply_removal 50 2 7 sample_admin_db)) = {}"
  using concurrent_removals_race[of sample_admin_db 7 1 2 "sample_context 1 Owner" "sample_context 2 Owner" sample_uuid "''2''" "''1''" 51 50]
  by (simp add: sample_unique sample_context_def)

end
