(* ===== verification/Project_Access.thy ===== *)
theory Project_Access
  imports Admin_Members Resource_Names Field_Encoding
begin

text \<open>
  Projects of the system database and who may use them: \<open>authenticate\<close> of \<open>grpc/handler.rs\<close> with the credential cache
  of \<open>adapters/credential_cache.rs\<close>, the lifecycle handlers of \<open>admin/handlers/lifecycle.rs\<close>, the project update of
  \<open>projects.rs\<close>, the SDK keys of \<open>sdk_keys.rs\<close> and the sweeper that purges credentials. The libraries behind the
  key hash (Argon2), the cache key (BLAKE3), the encryption of connection strings, JSON text, the secret stores and
  the connections are fields of an argument. The cache is a map; that the library drops the entry used least
  recently when it is full is a step of its own. A failed statement of the system database is not modelled.
\<close>

section \<open>Projects\<close>

record project_row =
  pj_status :: string
  pj_account :: "uuid option"
  pj_name :: "string option"
  pj_logging :: bool
  pj_retention :: "i32 option"
  pj_backend_mode :: string
  pj_key_current :: string
  pj_key_previous :: "string option"
  pj_encrypted_dsn :: "u8 list option"
  pj_pg_dsn :: "u8 list option"
  pj_agent_endpoint :: "string option"
  pj_agent_bundle :: "u8 list option"
  pj_secret_arn :: "string option"
  pj_secret_gcp :: "string option"
  pj_deleted_at :: "int option"

record sdk_key_row =
  sk_id :: uuid
  sk_project :: string
  sk_hash :: "u8 list"
  sk_revoked_at :: "int option"

datatype backend = PostgresBackend string | AgentBackend string string string string

record cached_entry =
  ce_adapter :: backend
  ce_status :: string
  ce_dsn :: string

type_synonym cache_key = "string \<times> u8 list"

text \<open>The server: the tables, and the cache of this instance.\<close>

record server =
  projects :: "string \<Rightarrow> project_row option"
  sdk_keys :: "sdk_key_row list"
  cache :: "cache_key \<Rightarrow> cached_entry option"

record auth_env =
  derive_cache_key :: "string \<Rightarrow> u8 list"
  verify_api_key :: "string \<Rightarrow> string \<Rightarrow> bool"
  ecies_decrypt :: "string \<Rightarrow> u8 list \<Rightarrow> (string, u8 list) result"
  from_utf8 :: "u8 list \<Rightarrow> string option"
  parse_json :: "string \<Rightarrow> (string, json) result"
  aws_fetcher :: "(string \<Rightarrow> (string, string) result) option"
  gcp_fetcher :: "(string \<Rightarrow> (string, string) result) option"
  connects :: "backend \<Rightarrow> bool"

section \<open>Authentication\<close>

definition internal :: "string \<Rightarrow> status" where
  "internal msg = Status CInternal msg"

definition status_refusal :: "string \<Rightarrow> status option" where
  "status_refusal st =
     (if st = ''suspended'' then Some (Status CPermissionDenied ''project is suspended'')
      else if st = ''deleted'' then Some (Status CNotFound ''project not found'')
      else None)"

definition connected :: "auth_env \<Rightarrow> backend \<Rightarrow> string \<Rightarrow> (status, backend \<times> string) result" where
  "connected env b dsn = (if connects env b then Inr (b, dsn) else Inl (internal ''internal server error''))"

definition secret_backend ::
  "auth_env \<Rightarrow> string \<Rightarrow> string \<Rightarrow> (string \<Rightarrow> (string, string) result) option \<Rightarrow> string option \<Rightarrow> (status, backend \<times> string) result" where
  "secret_backend env kind column fetcher stored =
     rbind (ok_or (internal (kind @ ''_secret project missing backend_secret_'' @ column)) stored) (\<lambda>name.
     rbind (ok_or (internal (kind @ ''_secret_fetcher not configured on this server'')) fetcher) (\<lambda>fetch.
     rbind (map_sum (\<lambda>e. internal (kind @ '' secret fetch failed: '' @ e)) id (fetch name)) (\<lambda>dsn.
       connected env (PostgresBackend dsn) dsn)))"

definition bundle_field :: "json \<Rightarrow> string \<Rightarrow> (status, string) result" where
  "bundle_field bundle k =
     ok_or (internal (''TLS bundle missing '' @ k)) (Option.bind (json_get bundle k) json_as_str)"

definition agent_backend :: "auth_env \<Rightarrow> string \<Rightarrow> project_row \<Rightarrow> (status, backend \<times> string) result" where
  "agent_backend env api_key row =
     rbind (ok_or (internal ''agent project missing backend_agent_endpoint'') (pj_agent_endpoint row)) (\<lambda>endpoint.
     rbind (ok_or (internal ''agent project missing agent_tls_bundle_enc'') (pj_agent_bundle row)) (\<lambda>enc.
     rbind (map_sum internal id (ecies_decrypt env api_key enc)) (\<lambda>bytes.
     rbind (ok_or (internal ''TLS bundle is not valid UTF-8'') (from_utf8 env bytes)) (\<lambda>s.
     rbind (map_sum (\<lambda>e. internal (''TLS bundle JSON parse error: '' @ e)) id (parse_json env s)) (\<lambda>bundle.
     rbind (bundle_field bundle ''ca_pem'') (\<lambda>ca.
     rbind (bundle_field bundle ''client_cert_pem'') (\<lambda>cert.
     rbind (bundle_field bundle ''client_key_pem'') (\<lambda>pem.
       connected env (AgentBackend endpoint ca cert pem) []))))))))"

definition direct_backend :: "auth_env \<Rightarrow> string \<Rightarrow> project_row \<Rightarrow> (status, backend \<times> string) result" where
  "direct_backend env api_key row =
     rbind (ok_or (internal ''project has no stored DSN'') (pj_encrypted_dsn row)) (\<lambda>enc.
     rbind (map_sum internal id (ecies_decrypt env api_key enc)) (\<lambda>bytes.
     rbind (ok_or (internal ''DSN is not valid UTF-8'') (from_utf8 env bytes)) (\<lambda>dsn.
       connected env (PostgresBackend dsn) dsn)))"

definition build_adapter :: "auth_env \<Rightarrow> string \<Rightarrow> project_row \<Rightarrow> (status, backend \<times> string) result" where
  "build_adapter env api_key row =
     (if pj_backend_mode row = ''aws_secret'' then secret_backend env ''aws'' ''arn'' (aws_fetcher env) (pj_secret_arn row)
      else if pj_backend_mode row = ''gcp_secret'' then secret_backend env ''gcp'' ''gcp'' (gcp_fetcher env) (pj_secret_gcp row)
      else if pj_backend_mode row = ''agent'' then agent_backend env api_key row
      else direct_backend env api_key row)"

definition key_verified :: "auth_env \<Rightarrow> string \<Rightarrow> project_row \<Rightarrow> bool" where
  "key_verified env api_key row \<longleftrightarrow>
     verify_api_key env api_key (pj_key_current row) \<or>
     (\<exists>prev \<in> set_option (pj_key_previous row). verify_api_key env api_key prev)"

text \<open>After a miss: the decision on the row that was loaded, and the entry for the cache.\<close>

definition decide_row :: "auth_env \<Rightarrow> string \<Rightarrow> project_row option \<Rightarrow> (status, cached_entry) result" where
  "decide_row env api_key loaded =
     rbind (ok_or (Status CUnauthenticated ''project not found'') loaded) (\<lambda>row.
       case status_refusal (pj_status row) of
         Some e \<Rightarrow> Inl e
       | None \<Rightarrow>
           if \<not> key_verified env api_key row then Inl (Status CUnauthenticated ''invalid api key'')
           else map_sum id (\<lambda>(b, dsn). \<lparr>ce_adapter = b, ce_status = pj_status row, ce_dsn = dsn\<rparr>) (build_adapter env api_key row))"

definition authenticate :: "auth_env \<Rightarrow> string \<Rightarrow> string \<Rightarrow> server \<Rightarrow> (status, cached_entry) result \<times> server" where
  "authenticate env pid api_key sv =
     (case project_id_new pid of
        Inl e \<Rightarrow> (Inl (Status CInvalidArgument (core_error_message e)), sv)
      | Inr pid \<Rightarrow>
          let key = (pid, derive_cache_key env api_key) in
          (case cache sv key of
             Some entry \<Rightarrow>
               (case status_refusal (ce_status entry) of Some e \<Rightarrow> (Inl e, sv) | None \<Rightarrow> (Inr entry, sv))
           | None \<Rightarrow>
               (case decide_row env api_key (projects sv pid) of
                  Inl e \<Rightarrow> (Inl e, sv)
                | Inr entry \<Rightarrow> (Inr entry, sv\<lparr>cache := (cache sv)(key \<mapsto> entry)\<rparr>))))"

definition extract_api_key :: "string option \<Rightarrow> (status, string) result" where
  "extract_api_key header =
     rbind (ok_or (Status CUnauthenticated ''missing authorization header'') header) (\<lambda>v.
       ok_or (Status CUnauthenticated ''authorization must be bearer token'')
         (case strip_prefix ''bearer '' v of Some k \<Rightarrow> Some k | None \<Rightarrow> strip_prefix ''Bearer '' v))"

section \<open>Lifecycle\<close>

definition evict_project :: "string \<Rightarrow> server \<Rightarrow> server" where
  "evict_project pid sv = sv\<lparr>cache := (\<lambda>k. if fst k = pid then None else cache sv k)\<rparr>"

definition set_project_status :: "string \<Rightarrow> string \<Rightarrow> server \<Rightarrow> http_status \<times> server" where
  "set_project_status pid new_status sv =
     (case projects sv pid of
        Some row \<Rightarrow>
          if pj_status row = ''active'' \<or> pj_status row = ''suspended''
          then (Http200, evict_project pid (sv\<lparr>projects := (projects sv)(pid \<mapsto> row\<lparr>pj_status := new_status\<rparr>)\<rparr>))
          else (Http404, sv)
      | None \<Rightarrow> (Http404, sv))"

definition suspend_project :: "string \<Rightarrow> server \<Rightarrow> http_status \<times> server" where
  "suspend_project pid = set_project_status pid ''suspended''"

definition activate_project :: "string \<Rightarrow> server \<Rightarrow> http_status \<times> server" where
  "activate_project pid = set_project_status pid ''active''"

text \<open>The ids of the account's projects in a status, in the order of the table, and the loop over them.\<close>

definition account_projects :: "string list \<Rightarrow> uuid \<Rightarrow> string \<Rightarrow> server \<Rightarrow> string list" where
  "account_projects ids acct st sv =
     filter (\<lambda>pid. case projects sv pid of Some row \<Rightarrow> pj_account row = Some acct \<and> pj_status row = st | None \<Rightarrow> False) ids"

fun set_each_status :: "string list \<Rightarrow> string \<Rightarrow> server \<Rightarrow> nat \<times> server" where
  "set_each_status [] st sv = (0, sv)"
| "set_each_status (pid # pids) st sv =
     (let (code, sv') = set_project_status pid st sv; (n, sv'') = set_each_status pids st sv'
      in ((if code = Http200 then 1 else 0) + n, sv''))"

definition activate_account_projects :: "string list \<Rightarrow> uuid \<Rightarrow> server \<Rightarrow> nat \<times> server" where
  "activate_account_projects ids acct sv = set_each_status (account_projects ids acct ''suspended'' sv) ''active'' sv"

definition suspend_account_projects :: "string list \<Rightarrow> uuid \<Rightarrow> server \<Rightarrow> nat \<times> server" where
  "suspend_account_projects ids acct sv = set_each_status (account_projects ids acct ''active'' sv) ''suspended'' sv"

definition revoke_all_sdk_keys :: "int \<Rightarrow> string \<Rightarrow> server \<Rightarrow> server" where
  "revoke_all_sdk_keys now pid sv =
     sv\<lparr>sdk_keys := map (\<lambda>k. if sk_project k = pid \<and> sk_revoked_at k = None then k\<lparr>sk_revoked_at := Some now\<rparr> else k) (sdk_keys sv)\<rparr>"

definition delete_project :: "int \<Rightarrow> string \<Rightarrow> server \<Rightarrow> http_status \<times> server" where
  "delete_project now pid sv =
     (let sv = revoke_all_sdk_keys now pid sv in
      case projects sv pid of
        Some row \<Rightarrow>
          if pj_status row \<noteq> ''deleted''
          then (Http200, evict_project pid
            (sv\<lparr>projects := (projects sv)(pid \<mapsto> row\<lparr>pj_status := ''deleted'', pj_deleted_at := Some now\<rparr>)\<rparr>))
          else (Http404, sv)
      | None \<Rightarrow> (Http404, sv))"

section \<open>Updates by the account\<close>

record patch_body =
  pb_name :: "string option"
  pb_status :: "string option"
  pb_logging :: "bool option"
  pb_retention :: "i32 option"
  pb_dsn :: "string option"

definition coalesce :: "'a option \<Rightarrow> 'a option \<Rightarrow> 'a option" where
  "coalesce x y = (case x of Some v \<Rightarrow> Some v | None \<Rightarrow> y)"

text \<open>The encryption of the connection string, with its nonce, is an argument; it yields \<^const>\<open>None\<close> on a failure.\<close>

definition patch_project ::
  "(string \<Rightarrow> u8 list option) \<Rightarrow> string \<Rightarrow> session_context \<Rightarrow> patch_body \<Rightarrow> server \<Rightarrow> http_status \<times> server" where
  "patch_project encrypt pid cx body sv =
     (if pb_status body = Some ''deleted'' then (Http422, sv)
      else case projects sv pid of
        None \<Rightarrow> (Http404, sv)
      | Some row \<Rightarrow>
          if pj_status row = ''deleted'' then (Http404, sv)
          else if pj_account row \<noteq> Some (cx_account cx) then (Http403, sv)
          else (case map_option encrypt (pb_dsn body) of
            Some None \<Rightarrow> (Http500, sv)
          | enc \<Rightarrow>
              let row' = row\<lparr>pj_name := coalesce (pb_name body) (pj_name row),
                    pj_status := (case pb_status body of Some s \<Rightarrow> s | None \<Rightarrow> pj_status row),
                    pj_logging := (case pb_logging body of Some b \<Rightarrow> b | None \<Rightarrow> pj_logging row),
                    pj_retention := coalesce (pb_retention body) (pj_retention row),
                    pj_pg_dsn := coalesce (Option.bind enc id) (pj_pg_dsn row)\<rparr>;
                  sv' = sv\<lparr>projects := (projects sv)(pid \<mapsto> row')\<rparr>
              in (Http200, if pb_dsn body = None then sv' else evict_project pid sv')))"

definition verify_project_ownership :: "string \<Rightarrow> uuid \<Rightarrow> server \<Rightarrow> (http_status, unit) result" where
  "verify_project_ownership pid acct sv =
     (case projects sv pid of
        None \<Rightarrow> Inl Http404
      | Some row \<Rightarrow>
          if pj_status row = ''deleted'' then Inl Http404
          else case pj_account row of
            None \<Rightarrow> Inl Http500
          | Some a \<Rightarrow> if a \<noteq> acct then Inl Http403 else Inr ())"

text \<open>The length of a name is counted in bytes.\<close>

definition create_sdk_key ::
  "uuid \<Rightarrow> u8 list \<Rightarrow> string \<Rightarrow> string \<Rightarrow> session_context \<Rightarrow> server \<Rightarrow> http_status \<times> server" where
  "create_sdk_key fresh key_hash pid name cx sv =
     (if cx_role cx < Admin then (Http403, sv)
      else if name = [] \<or> 64 < length name then (Http422, sv)
      else case verify_project_ownership pid (cx_account cx) sv of
        Inl e \<Rightarrow> (e, sv)
      | Inr _ \<Rightarrow>
          (Http201, evict_project pid (sv\<lparr>sdk_keys := sdk_keys sv @
             [\<lparr>sk_id = fresh, sk_project = pid, sk_hash = key_hash, sk_revoked_at = None\<rparr>]\<rparr>)))"

definition revoke_sdk_key ::
  "(string \<Rightarrow> uuid option) \<Rightarrow> int \<Rightarrow> string \<Rightarrow> string \<Rightarrow> session_context \<Rightarrow> server \<Rightarrow> http_status \<times> server" where
  "revoke_sdk_key parse_uuid now pid key_id cx sv =
     (if cx_role cx < Admin then (Http403, sv)
      else case verify_project_ownership pid (cx_account cx) sv of
        Inl e \<Rightarrow> (e, sv)
      | Inr _ \<Rightarrow>
          (case parse_uuid key_id of
             None \<Rightarrow> (Http404, sv)
           | Some i \<Rightarrow>
               let hit = (\<lambda>k. sk_id k = i \<and> sk_project k = pid \<and> sk_revoked_at k = None) in
               if \<not> list_ex hit (sdk_keys sv) then (Http404, sv)
               else (Http204, evict_project pid
                 (sv\<lparr>sdk_keys := map (\<lambda>k. if hit k then k\<lparr>sk_revoked_at := Some now\<rparr> else k) (sdk_keys sv)\<rparr>))))"

section \<open>Purging credentials\<close>

definition purge_row :: "int \<Rightarrow> project_row \<Rightarrow> project_row" where
  "purge_row cutoff row =
     (if pj_status row = ''deleted'' \<and> (\<exists>t \<in> set_option (pj_deleted_at row). t < cutoff) \<and>
         (pj_encrypted_dsn row \<noteq> None \<or> pj_pg_dsn row \<noteq> None \<or> pj_agent_bundle row \<noteq> None)
      then row\<lparr>pj_encrypted_dsn := None, pj_pg_dsn := None, pj_agent_bundle := None\<rparr> else row)"

definition purge_cycle :: "int \<Rightarrow> int \<Rightarrow> server \<Rightarrow> server" where
  "purge_cycle now grace_days sv =
     sv\<lparr>projects := (\<lambda>pid. map_option (purge_row (now - grace_days * 86400)) (projects sv pid))\<rparr>"

section \<open>Facts about the operations\<close>

lemma evict_project_simps [simp]:
  "projects (evict_project pid sv) = projects sv"
  "sdk_keys (evict_project pid sv) = sdk_keys sv"
  "cache (evict_project pid sv) k = (if fst k = pid then None else cache sv k)"
  by (simp_all add: evict_project_def)

lemma project_id_new_same: "project_id_new pid = Inr p \<Longrightarrow> p = pid"
  by (auto simp: project_id_new_def split: if_splits)

text \<open>What a successful authentication rests on.\<close>

lemma authenticate_Inr:
  assumes "authenticate env pid key sv = (Inr entry, sv')"
  shows "status_refusal (ce_status entry) = None \<and>
    (cache sv (pid, derive_cache_key env key) = Some entry \<and> sv' = sv \<or>
     cache sv (pid, derive_cache_key env key) = None \<and> decide_row env key (projects sv pid) = Inr entry \<and>
       sv' = sv\<lparr>cache := (cache sv)((pid, derive_cache_key env key) \<mapsto> entry)\<rparr>)"
proof -
  obtain p where "project_id_new pid = Inr p" using assms by (cases "project_id_new pid") (auto simp: authenticate_def)
  then have p: "project_id_new pid = Inr pid" using project_id_new_same by auto
  show ?thesis
  proof (cases "cache sv (pid, derive_cache_key env key)")
    case (Some e)
    then show ?thesis using assms p by (auto simp: authenticate_def Let_def split: option.splits)
  next
    case None
    then have d: "decide_row env key (projects sv pid) = Inr entry"
        "sv' = sv\<lparr>cache := (cache sv)((pid, derive_cache_key env key) \<mapsto> entry)\<rparr>"
      using assms p by (auto simp: authenticate_def Let_def split: sum.splits)
    then have "status_refusal (ce_status entry) = None"
      by (auto simp: decide_row_def rbind_Inr_iff map_sum_Inr_iff split: option.splits if_splits)
    with None d show ?thesis by simp
  qed
qed

lemma authenticate_Inl: "authenticate env pid key sv = (Inl e, sv') \<Longrightarrow> sv' = sv"
  by (auto simp: authenticate_def Let_def split: sum.splits option.splits)

lemma decide_row_Inr:
  assumes "decide_row env key loaded = Inr entry"
  shows "\<exists>row. loaded = Some row \<and> key_verified env key row \<and> ce_status entry = pj_status row \<and>
    build_adapter env key row = Inr (ce_adapter entry, ce_dsn entry)"
  using assms by (auto simp: decide_row_def rbind_Inr_iff ok_or_Inr_iff map_sum_Inr_iff split: option.splits if_splits)

text \<open>A change of status touches the status and the cache of its project only, and empties the latter.\<close>

lemma set_project_status_cases:
  assumes "set_project_status pid st sv = (code, sv')"
  obtains "code = Http404" and "sv' = sv"
    | row where "code = Http200" and "projects sv pid = Some row" and "pj_status row \<in> {''active'', ''suspended''}"
      and "sv' = evict_project pid (sv\<lparr>projects := (projects sv)(pid \<mapsto> row\<lparr>pj_status := st\<rparr>)\<rparr>)"
  using assms by (auto simp: set_project_status_def split: option.splits if_splits)

end
