(* ===== verification/Access_Safety.thy ===== *)
theory Access_Safety
  imports Project_Access
begin

text \<open>
  Who gets at the data of a project. Handled one after the other, the lifecycle handlers and \<open>authenticate\<close> keep the
  credential cache in step with the projects table, so that a suspended or deleted project is refused and an accepted
  key is one that the stored hash accepts. The update of a project by its account is not among those handlers: it
  writes the status without clearing the cache, and writes statuses that nothing recognises. Two requests at once
  can put an outdated entry into the cache.
\<close>

section \<open>Runs of the server\<close>

definition same_keys :: "auth_env \<Rightarrow> auth_env \<Rightarrow> bool" where
  "same_keys env env' \<longleftrightarrow> derive_cache_key env = derive_cache_key env' \<and> verify_api_key env = verify_api_key env'"

text \<open>The key functions are fixed; connections and secret stores may answer differently at every step. The last rule
  is the cache dropping entries. Updates of a project are included as long as they leave the status alone.\<close>

inductive server_step :: "auth_env \<Rightarrow> server \<Rightarrow> server \<Rightarrow> bool" for keys where
  authenticates: "same_keys env keys \<Longrightarrow> authenticate env pid key sv = (r, sv') \<Longrightarrow> server_step keys sv sv'"
| suspends: "suspend_project pid sv = (r, sv') \<Longrightarrow> server_step keys sv sv'"
| activates: "activate_project pid sv = (r, sv') \<Longrightarrow> server_step keys sv sv'"
| suspends_account: "suspend_account_projects ids acct sv = (n, sv') \<Longrightarrow> server_step keys sv sv'"
| activates_account: "activate_account_projects ids acct sv = (n, sv') \<Longrightarrow> server_step keys sv sv'"
| deletes: "delete_project now pid sv = (r, sv') \<Longrightarrow> server_step keys sv sv'"
| patches: "patch_project encrypt pid cx body sv = (r, sv') \<Longrightarrow> pb_status body = None \<Longrightarrow> server_step keys sv sv'"
| creates_key: "create_sdk_key fresh h pid name cx sv = (r, sv') \<Longrightarrow> server_step keys sv sv'"
| revokes_key: "revoke_sdk_key pu now pid i cx sv = (r, sv') \<Longrightarrow> server_step keys sv sv'"
| purges: "sv' = purge_cycle now days sv \<Longrightarrow> server_step keys sv sv'"
| forgets: "sv' = sv\<lparr>cache := c\<rparr> \<Longrightarrow> c \<subseteq>\<^sub>m cache sv \<Longrightarrow> server_step keys sv sv'"

definition entry_ok :: "auth_env \<Rightarrow> server \<Rightarrow> cache_key \<Rightarrow> cached_entry \<Rightarrow> bool" where
  "entry_ok keys sv k e \<longleftrightarrow>
     (\<exists>row key. projects sv (fst k) = Some row \<and> derive_cache_key keys key = snd k \<and> key_verified keys key row \<and>
       ce_status e = pj_status row)"

definition cache_ok :: "auth_env \<Rightarrow> server \<Rightarrow> bool" where
  "cache_ok keys sv \<longleftrightarrow> (\<forall>k e. cache sv k = Some e \<longrightarrow> entry_ok keys sv k e)"

text \<open>A step that changes rows only where it empties the cache, and neither keys nor statuses elsewhere, keeps the
  cache in step.\<close>

lemma cache_ok_frame:
  assumes "cache_ok keys sv"
    and "\<And>k e. cache sv' k = Some e \<Longrightarrow> cache sv k = Some e"
    and "\<And>k e row. cache sv' k = Some e \<Longrightarrow> projects sv (fst k) = Some row \<Longrightarrow>
      \<exists>row'. projects sv' (fst k) = Some row' \<and> pj_status row' = pj_status row \<and>
        pj_key_current row' = pj_key_current row \<and> pj_key_previous row' = pj_key_previous row"
  shows "cache_ok keys sv'"
  unfolding cache_ok_def
proof (intro allI impI)
  fix k e
  assume e: "cache sv' k = Some e"
  then have "entry_ok keys sv k e" using assms(1) assms(2)[OF e] unfolding cache_ok_def by blast
  then obtain row key where "projects sv (fst k) = Some row" and k: "derive_cache_key keys key = snd k" "key_verified keys key row"
    "ce_status e = pj_status row"
    unfolding entry_ok_def by blast
  with assms(3)[OF e] obtain row' where "projects sv' (fst k) = Some row'" "pj_status row' = pj_status row"
    "pj_key_current row' = pj_key_current row" "pj_key_previous row' = pj_key_previous row" by blast
  with k show "entry_ok keys sv' k e" by (auto simp: entry_ok_def key_verified_def)
qed

lemma cache_ok_authenticate:
  assumes "cache_ok keys sv" and "same_keys env keys" and "authenticate env pid key sv = (r, sv')"
  shows "cache_ok keys sv'"
proof (cases r)
  case (Inl e)
  then show ?thesis using assms authenticate_Inl by blast
next
  case (Inr entry)
  with assms(3) have "authenticate env pid key sv = (Inr entry, sv')" by simp
  from authenticate_Inr[OF this] consider "sv' = sv"
    | "decide_row env key (projects sv pid) = Inr entry" "sv' = sv\<lparr>cache := (cache sv)((pid, derive_cache_key env key) \<mapsto> entry)\<rparr>"
    by blast
  then show ?thesis
  proof cases
    case 2
    from decide_row_Inr[OF 2(1)] have "entry_ok keys sv' (pid, derive_cache_key env key) entry"
      using assms(2) 2(2) by (auto simp: entry_ok_def same_keys_def key_verified_def)
    moreover have "entry_ok keys sv' k e" if "entry_ok keys sv k e" for k e
      using that 2(2) by (auto simp: entry_ok_def)
    ultimately show ?thesis using assms(1) 2(2) by (auto simp: cache_ok_def)
  qed (use assms in auto)
qed

lemma cache_ok_set_status:
  assumes "cache_ok keys sv" and "set_project_status pid st sv = (r, sv')"
  shows "cache_ok keys sv'"
  using assms(2)
proof (cases rule: set_project_status_cases)
  case 2
  then show ?thesis by (intro cache_ok_frame[OF assms(1)]) (auto split: if_splits)
qed (use assms(1) in simp)

lemma cache_ok_set_each:
  "cache_ok keys sv \<Longrightarrow> set_each_status pids st sv = (n, sv') \<Longrightarrow> cache_ok keys sv'"
proof (induction pids st sv arbitrary: n sv' rule: set_each_status.induct)
  case (2 pid pids st sv)
  obtain code sv1 where s: "set_project_status pid st sv = (code, sv1)" by fastforce
  obtain m sv2 where t: "set_each_status pids st sv1 = (m, sv2)" by fastforce
  show ?case using "2.IH"[OF s[symmetric] refl cache_ok_set_status[OF "2.prems"(1) s] t] "2.prems"(2) s t by simp
qed simp


lemma server_step_ok:
  assumes "server_step keys sv sv'" and "cache_ok keys sv"
  shows "cache_ok keys sv'"
  using assms(1)
proof cases
  case (authenticates env pid key r)
  then show ?thesis using cache_ok_authenticate[OF assms(2)] by blast
next
  case (suspends pid r)
  then show ?thesis unfolding suspend_project_def by (rule cache_ok_set_status[OF assms(2)])
next
  case (activates pid r)
  then show ?thesis unfolding activate_project_def by (rule cache_ok_set_status[OF assms(2)])
next
  case (suspends_account ids acct n)
  then show ?thesis unfolding suspend_account_projects_def by (rule cache_ok_set_each[OF assms(2)])
next
  case (activates_account ids acct n)
  then show ?thesis unfolding activate_account_projects_def by (rule cache_ok_set_each[OF assms(2)])
next
  case (deletes now pid r)
  then show ?thesis
    by (intro cache_ok_frame[OF assms(2)])
      (auto simp: delete_project_def revoke_all_sdk_keys_def Let_def split: option.splits if_splits)
next
  case (patches encrypt pid cx body r)
  then show ?thesis
    by (intro cache_ok_frame[OF assms(2)]) (auto simp: patch_project_def Let_def split: option.splits if_splits)
next
  case (creates_key fresh h pid name cx r)
  then show ?thesis
    by (intro cache_ok_frame[OF assms(2)]) (auto simp: create_sdk_key_def split: sum.splits if_splits)
next
  case (revokes_key pu now pid i cx r)
  then show ?thesis
    by (intro cache_ok_frame[OF assms(2)]) (auto simp: revoke_sdk_key_def Let_def split: sum.splits option.splits if_splits)
next
  case (purges now days)
  then show ?thesis
    by (intro cache_ok_frame[OF assms(2)]) (auto simp: purge_cycle_def purge_row_def)
next
  case (forgets c)
  then show ?thesis
    by (intro cache_ok_frame[OF assms(2)]) (auto simp: map_le_def dom_def)
qed

definition fresh_server :: "(string \<Rightarrow> project_row option) \<Rightarrow> sdk_key_row list \<Rightarrow> server" where
  "fresh_server ps ks = \<lparr>projects = ps, sdk_keys = ks, cache = (\<lambda>_. None)\<rparr>"

lemma server_run_ok: "(server_step keys)\<^sup>*\<^sup>* (fresh_server ps ks) sv \<Longrightarrow> cache_ok keys sv"
proof (induction rule: rtranclp_induct)
  case base
  then show ?case by (simp add: cache_ok_def fresh_server_def)
qed (rule server_step_ok)

section \<open>What authentication guarantees\<close>

lemma authenticated_entry:
  assumes "cache_ok keys sv" and "same_keys env keys" and "authenticate env pid key sv = (Inr entry, sv')"
  shows "status_refusal (ce_status entry) = None \<and> (\<exists>row key'. projects sv pid = Some row \<and> ce_status entry = pj_status row \<and>
    derive_cache_key keys key' = derive_cache_key keys key \<and> key_verified keys key' row)"
proof -
  note a = authenticate_Inr[OF assms(3)]
  have dk: "derive_cache_key env = derive_cache_key keys" "key_verified env = key_verified keys"
    using assms(2) by (auto simp: same_keys_def key_verified_def fun_eq_iff)
  consider "cache sv (pid, derive_cache_key env key) = Some entry" | "decide_row env key (projects sv pid) = Inr entry"
    using a by blast
  then have "\<exists>row key'. projects sv pid = Some row \<and> ce_status entry = pj_status row \<and>
    derive_cache_key keys key' = derive_cache_key keys key \<and> key_verified keys key' row"
  proof cases
    case 1
    then have "entry_ok keys sv (pid, derive_cache_key env key) entry" using assms(1) by (simp add: cache_ok_def)
    then show ?thesis by (auto simp: entry_ok_def dk)
  next
    case 2
    from decide_row_Inr[OF this] show ?thesis by (auto simp: dk)
  qed
  with a show ?thesis by blast
qed

lemma suspended_run_refused:
  assumes "(server_step keys)\<^sup>*\<^sup>* (fresh_server ps ks) sv" and "same_keys env keys"
    and "projects sv pid = Some row" and "pj_status row = ''suspended'' \<or> pj_status row = ''deleted''"
  shows "\<exists>e. authenticate env pid key sv = (Inl e, sv)"
proof -
  obtain r sv' where a: "authenticate env pid key sv = (r, sv')" by fastforce
  show ?thesis
  proof (cases r)
    case (Inl e)
    then show ?thesis using a authenticate_Inl by blast
  next
    case (Inr entry)
    with a have "authenticate env pid key sv = (Inr entry, sv')" by simp
    from authenticated_entry[OF server_run_ok[OF assms(1)] assms(2) this] show ?thesis
      using assms(3,4) by (auto simp: status_refusal_def split: if_splits)
  qed
qed


text \<open>\<open>C16\<close>. A request is accepted only with a key of its project: in the same runs, an accepted key is one that the
  current or the previous hash stored for that project accepts, unless another key has the same cache hash, and the
  project is there and neither suspended nor deleted.\<close>

theorem authenticated_key_verified:
  assumes "(server_step keys)\<^sup>*\<^sup>* (fresh_server ps ks) sv" and "same_keys env keys"
    and "\<And>key'. derive_cache_key keys key' = derive_cache_key keys key \<Longrightarrow> key' = key"
    and "authenticate env pid key sv = (Inr entry, sv')"
  shows "\<exists>row. projects sv pid = Some row \<and> key_verified env key row \<and> pj_status row \<noteq> ''suspended'' \<and> pj_status row \<noteq> ''deleted''"
proof -
  obtain row key' where "projects sv pid = Some row" "ce_status entry = pj_status row" "derive_cache_key keys key' = derive_cache_key keys key"
    "key_verified keys key' row" and s: "status_refusal (ce_status entry) = None"
    using authenticated_entry[OF server_run_ok[OF assms(1)] assms(2,4)] by blast
  moreover from this assms(3) have "key' = key" by blast
  moreover have "key_verified env = key_verified keys"
    using assms(2) by (auto simp: same_keys_def key_verified_def fun_eq_iff)
  ultimately show ?thesis by (auto simp: status_refusal_def split: if_splits)
qed


section \<open>Ways around a suspension\<close>

definition status_patch :: "string \<Rightarrow> patch_body" where
  "status_patch s = \<lparr>pb_name = None, pb_status = Some s, pb_logging = None, pb_retention = None, pb_dsn = None\<rparr>"

lemma status_patched:
  assumes "projects sv pid = Some row" and "pj_account row = Some (cx_account cx)" and "pj_status row \<noteq> ''deleted''"
    and "s \<noteq> ''deleted''"
  shows "patch_project encrypt pid cx (status_patch s) sv = (Http200, sv\<lparr>projects := (projects sv)(pid \<mapsto> row\<lparr>pj_status := s\<rparr>)\<rparr>)"
  using assms by (simp add: patch_project_def status_patch_def coalesce_def Let_def)

lemma build_adapter_status [simp]: "build_adapter env key (row\<lparr>pj_status := s\<rparr>) = build_adapter env key row"
  by (simp add: build_adapter_def agent_backend_def direct_backend_def)

lemma key_verified_status [simp]: "key_verified env key (row\<lparr>pj_status := s\<rparr>) = key_verified env key row"
  by (simp add: key_verified_def)

lemma authenticate_miss:
  assumes "project_id_new pid = Inr pid" and "cache sv (pid, derive_cache_key env key) = None"
    and "projects sv pid = Some row" and "status_refusal (pj_status row) = None" and "key_verified env key row"
    and "build_adapter env key row = Inr (b, dsn)"
  shows "\<exists>entry sv'. authenticate env pid key sv = (Inr entry, sv')"
  using assms by (simp add: authenticate_def decide_row_def Let_def)


text \<open>A suspension that is written by the account does not reach the cache: a key accepted before is accepted still.\<close>

lemma patched_suspension_cached:
  assumes "projects sv pid = Some row" and "pj_account row = Some (cx_account cx)" and "pj_status row \<noteq> ''deleted''"
    and "project_id_new pid = Inr pid" and "cache sv (pid, derive_cache_key env key) = Some entry" and "status_refusal (ce_status entry) = None"
    and "patch_project encrypt pid cx (status_patch ''suspended'') sv = (code, sv')"
  shows "map_option pj_status (projects sv' pid) = Some ''suspended'' \<and> authenticate env pid key sv' = (Inr entry, sv')"
  using assms status_patched[OF assms(1-3), of "''suspended''" encrypt] by (auto simp: authenticate_def Let_def)

text \<open>The row is loaded, and the entry is put into the cache, in separate steps. When a suspension falls between
  the two, the entry outlives it: the project is suspended, and the key is accepted from the cache from then on.\<close>

theorem suspension_race:
  assumes "project_id_new pid = Inr pid" and "decide_row env key (projects sv pid) = Inr entry"
    and "suspend_project pid sv = (Http200, sv1)"
    and "sv2 = sv1\<lparr>cache := (cache sv1)((pid, derive_cache_key env key) \<mapsto> entry)\<rparr>"
  shows "map_option pj_status (projects sv2 pid) = Some ''suspended'' \<and> authenticate env pid key sv2 = (Inr entry, sv2)"
proof -
  have "status_refusal (ce_status entry) = None"
    using assms(2) by (auto simp: decide_row_def rbind_Inr_iff map_sum_Inr_iff split: option.splits if_splits)
  then have "authenticate env pid key sv2 = (Inr entry, sv2)"
    using assms(1,4) by (simp add: authenticate_def Let_def)
  moreover have "map_option pj_status (projects sv2 pid) = Some ''suspended''"
    using assms(3) unfolding suspend_project_def
    by (cases rule: set_project_status_cases) (auto simp: assms(4))
  ultimately show ?thesis by blast
qed

text \<open>The keys of the SDK are not consulted: with any other table of them the answer is the same, so that creating one
  opens nothing and revoking one closes nothing.\<close>

lemma sdk_keys_not_consulted:
  "authenticate env pid key (sv\<lparr>sdk_keys := ks\<rparr>) =
     (fst (authenticate env pid key sv), (snd (authenticate env pid key sv))\<lparr>sdk_keys := ks\<rparr>)"
  by (simp add: authenticate_def Let_def split: sum.splits option.splits)

section \<open>Examples\<close>

definition sample_env :: auth_env where
  "sample_env = \<lparr>derive_cache_key = (\<lambda>k. if k = ''secret'' then [1] else [0]), verify_api_key = (\<lambda>k h. k @ ''#'' = h),
     ecies_decrypt = (\<lambda>_ bs. Inr bs), from_utf8 = (\<lambda>_. Some ''dsn''), parse_json = (\<lambda>s. Inl s),
     aws_fetcher = None, gcp_fetcher = None, connects = (\<lambda>_. True)\<rparr>"

definition sample_project :: project_row where
  "sample_project = \<lparr>pj_status = ''active'', pj_account = Some 7, pj_name = None, pj_logging = False, pj_retention = None,
     pj_backend_mode = ''direct_pg'', pj_key_current = ''secret#'', pj_key_previous = None, pj_encrypted_dsn = Some [1],
     pj_pg_dsn = None, pj_agent_endpoint = None, pj_agent_bundle = None, pj_secret_arn = None, pj_secret_gcp = None,
     pj_deleted_at = None\<rparr>"

definition sample_server :: server where
  "sample_server = fresh_server [''my-app'' \<mapsto> sample_project] []"

lemma sample_entry:
  "project_id_new ''my-app'' = Inr ''my-app''"
  "authenticate sample_env ''my-app'' ''secret'' sample_server =
     (Inr \<lparr>ce_adapter = PostgresBackend ''dsn'', ce_status = ''active'', ce_dsn = ''dsn''\<rparr>,
      sample_server\<lparr>cache := [(''my-app'', [1]) \<mapsto> \<lparr>ce_adapter = PostgresBackend ''dsn'', ce_status = ''active'', ce_dsn = ''dsn''\<rparr>]\<rparr>)"
  "key_verified sample_env ''secret'' sample_project" "build_adapter sample_env ''secret'' sample_project = Inr (PostgresBackend ''dsn'', ''dsn'')"
proof -
  show p: "project_id_new ''my-app'' = Inr ''my-app''" by code_simp
  show k: "key_verified sample_env ''secret'' sample_project" by (simp add: key_verified_def sample_env_def sample_project_def)
  show b: "build_adapter sample_env ''secret'' sample_project = Inr (PostgresBackend ''dsn'', ''dsn'')"
    by (simp add: build_adapter_def direct_backend_def connected_def sample_env_def sample_project_def)
  have s: "status_refusal (pj_status sample_project) = None" by (simp add: status_refusal_def sample_project_def)
  show "authenticate sample_env ''my-app'' ''secret'' sample_server =
     (Inr \<lparr>ce_adapter = PostgresBackend ''dsn'', ce_status = ''active'', ce_dsn = ''dsn''\<rparr>,
      sample_server\<lparr>cache := [(''my-app'', [1]) \<mapsto> \<lparr>ce_adapter = PostgresBackend ''dsn'', ce_status = ''active'', ce_dsn = ''dsn''\<rparr>]\<rparr>)"
    using p k b s by (simp add: authenticate_def decide_row_def Let_def sample_server_def fresh_server_def sample_env_def sample_project_def)
qed


definition sample_accepted :: server where
  "sample_accepted = snd (authenticate sample_env ''my-app'' ''secret'' sample_server)"

lemma sample_run: "(server_step sample_env)\<^sup>*\<^sup>* (fresh_server [''my-app'' \<mapsto> sample_project] []) sample_accepted"
  unfolding sample_accepted_def sample_server_def[symmetric]
  by (intro r_into_rtranclp authenticates[where env = sample_env, OF _ surjective_pairing]) (simp add: same_keys_def)

lemma sample_suspended:
  "projects (snd (suspend_project ''my-app'' sample_accepted)) ''my-app'' = Some (sample_project\<lparr>pj_status := ''suspended''\<rparr>)"
  "fst (suspend_project ''my-app'' sample_server) = Http200"
  unfolding sample_accepted_def sample_entry(2)
  by (simp_all add: suspend_project_def set_project_status_def sample_server_def fresh_server_def sample_project_def)


theorem authenticated_key_verified_witness:
  "\<exists>row. projects sample_accepted ''my-app'' = Some row \<and> key_verified sample_env ''secret'' row \<and>
     pj_status row \<noteq> ''suspended'' \<and> pj_status row \<noteq> ''deleted''"
proof (rule authenticated_key_verified[OF sample_run])
  show "same_keys sample_env sample_env" by (simp add: same_keys_def)
  show "derive_cache_key sample_env key' = derive_cache_key sample_env ''secret'' \<Longrightarrow> key' = ''secret''" for key'
    by (simp add: sample_env_def split: if_splits)
  show "authenticate sample_env ''my-app'' ''secret'' sample_accepted =
      (Inr \<lparr>ce_adapter = PostgresBackend ''dsn'', ce_status = ''active'', ce_dsn = ''dsn''\<rparr>, sample_accepted)"
    unfolding sample_accepted_def sample_entry
    by (simp add: authenticate_def sample_entry Let_def sample_env_def status_refusal_def)
qed


theorem suspension_race_witness:
  "let sv1 = snd (suspend_project ''my-app'' sample_server);
       entry = \<lparr>ce_adapter = PostgresBackend ''dsn'', ce_status = ''active'', ce_dsn = ''dsn''\<rparr>;
       sv2 = sv1\<lparr>cache := (cache sv1)((''my-app'', derive_cache_key sample_env ''secret'') \<mapsto> entry)\<rparr>
   in map_option pj_status (projects sv2 ''my-app'') = Some ''suspended'' \<and> authenticate sample_env ''my-app'' ''secret'' sv2 = (Inr entry, sv2)"
proof -
  have "suspend_project ''my-app'' sample_server = (Http200, snd (suspend_project ''my-app'' sample_server))"
    using sample_suspended(2) by (simp add: prod_eq_iff)
  moreover have "decide_row sample_env ''secret'' (projects sample_server ''my-app'') =
      Inr \<lparr>ce_adapter = PostgresBackend ''dsn'', ce_status = ''active'', ce_dsn = ''dsn''\<rparr>"
    using sample_entry(3,4) by (simp add: decide_row_def sample_server_def fresh_server_def status_refusal_def sample_project_def)
  ultimately show ?thesis
    unfolding Let_def by (intro suspension_race[OF sample_entry(1)]) simp_all
qed

end
