(* ===== verification/Billing.thy ===== *)
theory Billing
  imports Access_Safety
begin

text \<open>
  Subscriptions: the caps of \<open>embyr-core/src/admin/billing.rs\<close>, the refresher that suspends accounts over their cap
  (\<open>sweepers/cap_usage_refresher.rs\<close>), the subscription handlers (\<open>billing_subscription.rs\<close>) and the webhooks of the
  payment provider (\<open>webhooks_stripe.rs\<close>). The sums of usage, the answers of the payment provider, the order of rows
  and which timestamps exist are arguments. The constraint of the status column is modelled, because a webhook can
  violate it; other failures of statements are not.
\<close>

section \<open>Caps\<close>

datatype subscription_plan = FreePlan | ProPlan

fun plan_as_str :: "subscription_plan \<Rightarrow> string" where
  "plan_as_str FreePlan = ''free''"
| "plan_as_str ProPlan = ''pro''"

definition parse_plan :: "string \<Rightarrow> subscription_plan option" where
  "parse_plan s = (if s = ''free'' then Some FreePlan else if s = ''pro'' then Some ProPlan else None)"

datatype subscription_status = SActive | SPastDue | SFreeCapExceeded | SCanceled

fun status_as_str :: "subscription_status \<Rightarrow> string" where
  "status_as_str SActive = ''active''"
| "status_as_str SPastDue = ''past_due''"
| "status_as_str SFreeCapExceeded = ''free_cap_exceeded''"
| "status_as_str SCanceled = ''canceled''"

definition parse_status :: "string \<Rightarrow> subscription_status option" where
  "parse_status s =
     (if s = ''active'' then Some SActive else if s = ''past_due'' then Some SPastDue
      else if s = ''free_cap_exceeded'' then Some SFreeCapExceeded else if s = ''canceled'' then Some SCanceled else None)"

datatype usage_dimension = Reads | Writes | Deletes | Storage

record dimension_cap_entry =
  dc_dimension :: usage_dimension
  dc_used :: u64
  dc_cap :: u64
  dc_pct :: u64

definition free_plan_caps :: "(usage_dimension \<times> u64) list" where
  "free_plan_caps = [(Reads, 2000000), (Writes, 500000), (Deletes, 100000)]"

text \<open>The entries come from iterating over a hash map, in no particular order. The product wraps around.\<close>

definition cap_entry :: "(usage_dimension \<Rightarrow> u64 option) \<Rightarrow> usage_dimension \<times> u64 \<Rightarrow> dimension_cap_entry" where
  "cap_entry usage dc =
     (let used = (case usage (fst dc) of Some n \<Rightarrow> n | None \<Rightarrow> 0)
      in \<lparr>dc_dimension = fst dc, dc_used = used, dc_cap = snd dc, dc_pct = (used * 100) div snd dc\<rparr>)"

definition compute_cap_status :: "(usage_dimension \<Rightarrow> u64 option) \<Rightarrow> dimension_cap_entry set" where
  "compute_cap_status usage = cap_entry usage ` set free_plan_caps"

definition cap_exceeded :: "dimension_cap_entry set \<Rightarrow> bool" where
  "cap_exceeded entries \<longleftrightarrow> (\<exists>e \<in> entries. dc_pct e \<ge> 100)"

section \<open>State\<close>

record subscription_row =
  sb_plan :: string
  sb_status :: string
  sb_stripe_id :: "string option"
  sb_period_end :: "i64 option"

text \<open>The accounts with the id of their customer, if they have one; the server holds the projects.\<close>

record billing =
  bl_server :: server
  bl_accounts :: "uuid \<Rightarrow> string option option"
  bl_subscriptions :: "uuid \<Rightarrow> subscription_row option"
  bl_cap_cache :: "uuid \<Rightarrow> dimension_cap_entry set option"
  bl_processed :: "string set"

definition with_server :: "('a \<times> server) \<Rightarrow> billing \<Rightarrow> billing" where
  "with_server r bl = bl\<lparr>bl_server := snd r\<rparr>"

section \<open>Refresh of usage\<close>

definition usage_of :: "i64 \<times> i64 \<times> i64 \<Rightarrow> usage_dimension \<Rightarrow> u64 option" where
  "usage_of u d =
     (let clamp = (\<lambda>n :: i64. if sint n < 0 then 0 else n) in
      case d of Reads \<Rightarrow> Some (clamp (fst u)) | Writes \<Rightarrow> Some (clamp (fst (snd u))) | Deletes \<Rightarrow> Some (clamp (snd (snd u))) | Storage \<Rightarrow> None)"

definition set_subscription_status :: "uuid \<Rightarrow> string \<Rightarrow> billing \<Rightarrow> billing" where
  "set_subscription_status acct st bl =
     bl\<lparr>bl_subscriptions := (bl_subscriptions bl)(acct := map_option (\<lambda>r. r\<lparr>sb_status := st\<rparr>) (bl_subscriptions bl acct))\<rparr>"

definition refresh_account :: "string list \<Rightarrow> uuid \<times> string \<Rightarrow> (i64 \<times> i64 \<times> i64) option \<Rightarrow> billing \<Rightarrow> billing" where
  "refresh_account ids a sums bl =
     (case sums of
        None \<Rightarrow> bl
      | Some u \<Rightarrow>
          let entries = compute_cap_status (usage_of u);
              bl = bl\<lparr>bl_cap_cache := (bl_cap_cache bl)(fst a \<mapsto> entries)\<rparr>
          in if cap_exceeded entries \<and> snd a \<noteq> ''free_cap_exceeded''
             then set_subscription_status (fst a) ''free_cap_exceeded''
               (with_server (suspend_account_projects ids (fst a) (bl_server bl)) bl)
             else bl)"

text \<open>The accounts on the free plan with their statuses, in the order of the table.\<close>

definition free_accounts :: "uuid list \<Rightarrow> billing \<Rightarrow> (uuid \<times> string) list" where
  "free_accounts accts bl =
     List.map_filter (\<lambda>a. case bl_subscriptions bl a of
         Some r \<Rightarrow> if sb_plan r = ''free'' \<and> (sb_status r = ''active'' \<or> sb_status r = ''free_cap_exceeded'') then Some (a, sb_status r) else None
       | None \<Rightarrow> None) accts"

definition run_cap_cycle :: "string list \<Rightarrow> uuid list \<Rightarrow> (uuid \<Rightarrow> (i64 \<times> i64 \<times> i64) option) \<Rightarrow> billing \<Rightarrow> billing" where
  "run_cap_cycle ids accts sums bl = fold (\<lambda>a. refresh_account ids a (sums (fst a))) (free_accounts accts bl) bl"

section \<open>Subscriptions\<close>

record subscription_response =
  rs_plan :: string
  rs_status :: string
  rs_customer :: string
  rs_period_end :: "i64 option"
  rs_cap_status :: "dimension_cap_entry set option"

definition provision_new_customer :: "(string, string) result \<Rightarrow> uuid \<Rightarrow> billing \<Rightarrow> (http_status, string) result \<times> billing" where
  "provision_new_customer created acct bl =
     (case created of
        Inl _ \<Rightarrow> (Inl Http502, bl)
      | Inr customer \<Rightarrow>
          (Inr customer, bl\<lparr>bl_accounts := (bl_accounts bl)(acct := map_option (\<lambda>_. Some customer) (bl_accounts bl acct)),
             bl_subscriptions := (bl_subscriptions bl)(acct := (case bl_subscriptions bl acct of
               Some r \<Rightarrow> Some r
             | None \<Rightarrow> Some \<lparr>sb_plan = ''free'', sb_status = ''active'', sb_stripe_id = None, sb_period_end = None\<rparr>))\<rparr>))"

definition get_subscription ::
  "(string, string) result \<Rightarrow> session_context \<Rightarrow> billing \<Rightarrow> (http_status, subscription_response) result \<times> billing" where
  "get_subscription created cx bl =
     (case bl_accounts bl (cx_account cx) of
        None \<Rightarrow> (Inl Http500, bl)
      | Some existing \<Rightarrow>
          (case (case existing of Some c \<Rightarrow> (Inr c, bl) | None \<Rightarrow> provision_new_customer created (cx_account cx) bl) of
             (Inl e, bl') \<Rightarrow> (Inl e, bl')
           | (Inr customer, bl') \<Rightarrow>
               (case bl_subscriptions bl' (cx_account cx) of
                  None \<Rightarrow> (Inl Http500, bl')
                | Some r \<Rightarrow> (Inr \<lparr>rs_plan = sb_plan r, rs_status = sb_status r, rs_customer = customer,
                    rs_period_end = sb_period_end r, rs_cap_status = bl_cap_cache bl' (cx_account cx)\<rparr>, bl'))))"

definition post_subscription ::
  "string list \<Rightarrow> (string \<Rightarrow> subscription_plan \<Rightarrow> (string, string \<times> i64) result) \<Rightarrow> session_context \<Rightarrow> string \<Rightarrow> billing \<Rightarrow>
     (http_status, subscription_response) result \<times> billing" where
  "post_subscription ids upsert cx wanted bl =
     (if cx_role cx < Admin then (Inl Http403, bl)
      else case parse_plan wanted of
        None \<Rightarrow> (Inl Http422, bl)
      | Some plan \<Rightarrow>
          (case (bl_accounts bl (cx_account cx), bl_subscriptions bl (cx_account cx)) of
             (Some (Some customer), Some r) \<Rightarrow>
               (case upsert customer plan of
                  Inl _ \<Rightarrow> (Inl Http502, bl)
                | Inr (stripe_id, period_end) \<Rightarrow>
                    let capped = sb_status r = ''free_cap_exceeded'';
                        new_status = (if capped then ''active'' else sb_status r);
                        bl' = bl\<lparr>bl_subscriptions := (bl_subscriptions bl)(cx_account cx \<mapsto>
                          \<lparr>sb_plan = plan_as_str plan, sb_status = new_status, sb_stripe_id = Some stripe_id, sb_period_end = Some period_end\<rparr>)\<rparr>;
                        bl'' = (if capped then with_server (activate_account_projects ids (cx_account cx) (bl_server bl')) bl' else bl')
                    in (Inr \<lparr>rs_plan = plan_as_str plan, rs_status = new_status, rs_customer = customer,
                          rs_period_end = Some period_end, rs_cap_status = None\<rparr>, bl''))
           | _ \<Rightarrow> (Inl Http500, bl)))"

section \<open>Webhooks\<close>

record webhook_event =
  we_id :: string
  we_type :: string
  we_payload :: json

text \<open>Indexing a JSON value yields null where there is nothing.\<close>

definition json_index :: "json \<Rightarrow> string \<Rightarrow> json" where
  "json_index v k = (case json_get v k of Some x \<Rightarrow> x | None \<Rightarrow> JNull)"

definition event_object :: "webhook_event \<Rightarrow> json" where
  "event_object ev = json_index (json_index (we_payload ev) ''data'') ''object''"

definition is_final_failure :: "json \<Rightarrow> bool" where
  "is_final_failure obj \<longleftrightarrow> json_index obj ''next_payment_attempt'' = JNull"

definition resolve_account_id :: "uuid list \<Rightarrow> string \<Rightarrow> billing \<Rightarrow> uuid option" where
  "resolve_account_id accts stripe_id bl =
     find (\<lambda>a. \<exists>r \<in> set_option (bl_subscriptions bl a). sb_stripe_id r = Some stripe_id) accts"

text \<open>The update of all rows with a Stripe id; the constraint of the column refuses other statuses.\<close>

definition update_by_stripe_id :: "string \<Rightarrow> (subscription_row \<Rightarrow> subscription_row) \<Rightarrow> uuid list \<Rightarrow> billing \<Rightarrow> http_status \<times> billing" where
  "update_by_stripe_id stripe_id f accts bl =
     (let hit = (\<lambda>r. sb_stripe_id r = Some stripe_id) in
      if list_ex (\<lambda>a. \<exists>r \<in> set_option (bl_subscriptions bl a). hit r \<and> parse_status (sb_status (f r)) = None) accts then (Http500, bl)
      else (Http200, bl\<lparr>bl_subscriptions := (\<lambda>a. map_option (\<lambda>r. if hit r then f r else r) (bl_subscriptions bl a))\<rparr>))"

definition handle_invoice_payment_failed :: "string list \<Rightarrow> uuid list \<Rightarrow> webhook_event \<Rightarrow> billing \<Rightarrow> http_status \<times> billing" where
  "handle_invoice_payment_failed ids accts ev bl =
     (if \<not> is_final_failure (event_object ev) then (Http200, bl)
      else case json_as_str (json_index (event_object ev) ''subscription'') of
        None \<Rightarrow> (Http200, bl)
      | Some stripe_id \<Rightarrow>
          (case resolve_account_id accts stripe_id bl of
             None \<Rightarrow> (Http200, bl)
           | Some acct \<Rightarrow>
               update_by_stripe_id stripe_id (\<lambda>r. r\<lparr>sb_status := status_as_str SPastDue\<rparr>) accts
                 (with_server (suspend_account_projects ids acct (bl_server bl)) bl)))"

definition handle_invoice_payment_succeeded :: "string list \<Rightarrow> uuid list \<Rightarrow> webhook_event \<Rightarrow> billing \<Rightarrow> http_status \<times> billing" where
  "handle_invoice_payment_succeeded ids accts ev bl =
     (case json_as_str (json_index (event_object ev) ''subscription'') of
        None \<Rightarrow> (Http200, bl)
      | Some stripe_id \<Rightarrow>
          (case resolve_account_id accts stripe_id bl of
             None \<Rightarrow> (Http200, bl)
           | Some acct \<Rightarrow>
               update_by_stripe_id stripe_id (\<lambda>r. r\<lparr>sb_status := status_as_str SActive\<rparr>) accts
                 (with_server (activate_account_projects ids acct (bl_server bl)) bl)))"

definition subscription_item_price_id :: "json \<Rightarrow> string option" where
  "subscription_item_price_id obj =
     (case json_index (json_index obj ''items'') ''data'' of
        JArray (item # _) \<Rightarrow> json_as_str (json_index (json_index item ''price'') ''id'')
      | _ \<Rightarrow> None)"

definition pro_plan_stripe_price_id :: string where
  "pro_plan_stripe_price_id = ''price_1U3IuADomd8yk6u5rAtzmWPt''"

definition sync_subscription_updated ::
  "(i64 \<Rightarrow> bool) \<Rightarrow> uuid list \<Rightarrow> webhook_event \<Rightarrow> billing \<Rightarrow> http_status \<times> billing" where
  "sync_subscription_updated representable accts ev bl =
     (let obj = event_object ev in
      case json_as_str (json_index obj ''id'') of
        None \<Rightarrow> (Http200, bl)
      | Some stripe_id \<Rightarrow>
          let st = (case json_as_str (json_index obj ''status'') of Some s \<Rightarrow> s | None \<Rightarrow> ''active'');
              period_end = (case json_as_i64 (json_index obj ''current_period_end'') of
                Some t \<Rightarrow> if representable t then Some t else None | None \<Rightarrow> None);
              plan = (if subscription_item_price_id obj = Some pro_plan_stripe_price_id then Some (plan_as_str ProPlan) else None)
          in update_by_stripe_id stripe_id (\<lambda>r. r\<lparr>sb_status := st, sb_period_end := coalesce period_end (sb_period_end r),
               sb_plan := (case plan of Some p \<Rightarrow> p | None \<Rightarrow> sb_plan r)\<rparr>) accts bl)"

definition sync_subscription_deleted :: "uuid list \<Rightarrow> webhook_event \<Rightarrow> billing \<Rightarrow> http_status \<times> billing" where
  "sync_subscription_deleted accts ev bl =
     (case json_as_str (json_index (event_object ev) ''id'') of
        None \<Rightarrow> (Http200, bl)
      | Some stripe_id \<Rightarrow> update_by_stripe_id stripe_id (\<lambda>r. r\<lparr>sb_status := status_as_str SCanceled\<rparr>) accts bl)"

record webhook_env =
  wh_projects :: "string list"
  wh_accounts :: "uuid list"
  wh_representable :: "i64 \<Rightarrow> bool"

definition dispatch_event :: "webhook_env \<Rightarrow> webhook_event \<Rightarrow> billing \<Rightarrow> http_status \<times> billing" where
  "dispatch_event wh ev =
     (if we_type ev = ''customer.subscription.updated'' then sync_subscription_updated (wh_representable wh) (wh_accounts wh) ev
      else if we_type ev = ''customer.subscription.deleted'' then sync_subscription_deleted (wh_accounts wh) ev
      else if we_type ev = ''invoice.payment_failed'' then handle_invoice_payment_failed (wh_projects wh) (wh_accounts wh) ev
      else if we_type ev = ''invoice.payment_succeeded'' then handle_invoice_payment_succeeded (wh_projects wh) (wh_accounts wh) ev
      else Pair Http200)"

definition stripe_webhook_handler :: "webhook_env \<Rightarrow> webhook_event \<Rightarrow> billing \<Rightarrow> http_status \<times> billing" where
  "stripe_webhook_handler wh ev bl =
     (if we_id ev \<in> bl_processed bl then (Http200, bl)
      else dispatch_event wh ev (bl\<lparr>bl_processed := insert (we_id ev) (bl_processed bl)\<rparr>))"

section \<open>Caps in numbers\<close>

lemma pct_exact:
  assumes "unat used * 100 < 2 ^ 64"
  shows "100 \<le> (used * 100) div cap \<longleftrightarrow> cap \<noteq> 0 \<and> cap \<le> (used :: u64)"
proof -
  have m: "unat (used * 100) = unat used * 100"
    using assms by (simp add: unat_word_ariths)
  have "100 \<le> (used * 100) div cap \<longleftrightarrow> 100 \<le> unat used * 100 div unat cap"
    by (simp add: word_le_nat_alt unat_div_distrib m)
  also have "\<dots> \<longleftrightarrow> unat cap \<noteq> 0 \<and> unat cap \<le> unat used"
    by (cases "unat cap = 0") (auto simp: less_eq_div_iff_mult_less_eq)
  finally show ?thesis by (simp add: word_le_nat_alt unat_eq_0)
qed

text \<open>\<open>C25\<close>. The caps are enforced exactly at their limits: an account is over its cap if and only if it has used at least
  as much of some dimension as the free plan includes, as long as a hundred times the usage fits in 64 bits.\<close>

theorem cap_exceeded_exact:
  assumes "\<And>d n. usage d = Some n \<Longrightarrow> unat n * 100 < 2 ^ 64"
  shows "cap_exceeded (compute_cap_status usage) \<longleftrightarrow>
    (\<exists>(d, cap) \<in> set free_plan_caps. \<exists>n. usage d = Some n \<and> cap \<le> n)"
proof -
  have "100 \<le> dc_pct (cap_entry usage (d, cap)) \<longleftrightarrow> (\<exists>n. usage d = Some n \<and> cap \<le> n)"
    if "(d, cap) \<in> set free_plan_caps" for d cap
  proof -
    have "cap \<noteq> 0" using that by (auto simp: free_plan_caps_def)
    then show ?thesis
      using pct_exact[OF assms, of d _ cap] by (cases "usage d") (auto simp: cap_entry_def Let_def)
  qed
  then show ?thesis
    unfolding cap_exceeded_def compute_cap_status_def by fastforce
qed

theorem cap_exceeded_exact_witness:
  "cap_exceeded (compute_cap_status [Deletes \<mapsto> 100000]) \<and> \<not> cap_exceeded (compute_cap_status [Deletes \<mapsto> 99999])"
proof -
  have "cap_exceeded (compute_cap_status [Deletes \<mapsto> 100000])"
    by (subst cap_exceeded_exact) (auto simp: free_plan_caps_def split: if_splits)
  moreover have "\<not> cap_exceeded (compute_cap_status [Deletes \<mapsto> 99999])"
    by (subst cap_exceeded_exact) (auto simp: free_plan_caps_def split: if_splits)
  ultimately show ?thesis ..
qed

text \<open>Beyond that the product wraps around, and a larger usage counts as none.\<close>

lemma cap_wraps: "\<not> cap_exceeded (compute_cap_status [Reads \<mapsto> 184467440737095517])"
  by (simp add: cap_exceeded_def compute_cap_status_def free_plan_caps_def cap_entry_def Let_def)

section \<open>Webhooks are handled once\<close>

definition handle_event_id :: "webhook_env \<Rightarrow> webhook_event \<Rightarrow> billing \<Rightarrow> billing" where
  "handle_event_id wh ev bl = snd (stripe_webhook_handler wh ev bl)"

fun first_deliveries :: "string set \<Rightarrow> webhook_event list \<Rightarrow> webhook_event list" where
  "first_deliveries seen [] = []"
| "first_deliveries seen (ev # evs) =
     (if we_id ev \<in> seen then first_deliveries seen evs else ev # first_deliveries (insert (we_id ev) seen) evs)"

lemma update_by_stripe_id_processed: "update_by_stripe_id i f accts bl = (code, bl') \<Longrightarrow> bl_processed bl' = bl_processed bl"
  by (auto simp: update_by_stripe_id_def Let_def split: if_splits)

lemma dispatch_processed: "bl_processed (snd (dispatch_event wh ev bl)) = bl_processed bl"
  by (auto simp: dispatch_event_def sync_subscription_updated_def sync_subscription_deleted_def handle_invoice_payment_failed_def
      handle_invoice_payment_succeeded_def Let_def with_server_def update_by_stripe_id_def split: option.splits)

lemma handled_processed: "bl_processed (handle_event_id wh ev bl) = insert (we_id ev) (bl_processed bl)"
  by (auto simp: handle_event_id_def stripe_webhook_handler_def dispatch_processed)

text \<open>\<open>C26\<close>. Redeliveries do nothing: handling any sequence of events, with whatever repetitions, leads to the same state
  as handling each event once, when it first arrives.\<close>

theorem webhooks_idempotent:
  "fold (handle_event_id wh) evs bl = fold (handle_event_id wh) (first_deliveries (bl_processed bl) evs) bl"
proof (induction evs arbitrary: bl)
  case (Cons ev evs)
  show ?case
  proof (cases "we_id ev \<in> bl_processed bl")
    case True
    then have "handle_event_id wh ev bl = bl" by (simp add: handle_event_id_def stripe_webhook_handler_def)
    then show ?thesis using Cons True by simp
  next
    case False
    then show ?thesis using Cons[of "handle_event_id wh ev bl"] by (simp add: handled_processed)
  qed
qed simp

text \<open>An event that fails is lost. It is recorded before it is handled, so when its handling is answered with an
  error and the provider delivers it again, the delivery is acknowledged and nothing happens: a status that the
  column does not admit is never made good.\<close>

theorem failed_event_lost:
  assumes "stripe_webhook_handler wh ev bl = (Http500, bl')"
  shows "stripe_webhook_handler wh ev bl' = (Http200, bl')"
proof -
  have "bl_processed bl' = insert (we_id ev) (bl_processed bl)"
    using handled_processed[of wh ev bl] assms by (simp add: handle_event_id_def)
  then show ?thesis by (simp add: stripe_webhook_handler_def)
qed


section \<open>Suspension of accounts\<close>

lemma set_each_status_projects:
  assumes "st \<in> {''active'', ''suspended''}"
  shows "projects (snd (set_each_status pids st sv)) pid =
    map_option (\<lambda>row. if pid \<in> set pids \<and> pj_status row \<in> {''active'', ''suspended''} then row\<lparr>pj_status := st\<rparr> else row) (projects sv pid)"
proof (induction pids arbitrary: sv)
  case (Cons p pids)
  obtain code sv1 where s: "set_project_status p st sv = (code, sv1)" by fastforce
  have "projects sv1 pid = map_option (\<lambda>row. if pid = p \<and> pj_status row \<in> {''active'', ''suspended''} then row\<lparr>pj_status := st\<rparr> else row) (projects sv pid)"
    using s by (cases "projects sv pid") (auto simp: set_project_status_def split: option.splits if_splits)
  then show ?case
    using Cons[of sv1] s assms by (cases "projects sv pid") (auto simp: case_prod_beta)
qed (simp add: option.map_ident)

lemma suspend_account_projects_eq:
  "projects (snd (suspend_account_projects ids acct sv)) pid =
    map_option (\<lambda>row. if pid \<in> set ids \<and> pj_account row = Some acct \<and> pj_status row = ''active'' then row\<lparr>pj_status := ''suspended''\<rparr> else row) (projects sv pid)"
  by (cases "projects sv pid") (auto simp: suspend_account_projects_def set_each_status_projects account_projects_def)

lemma activate_account_projects_eq:
  "projects (snd (activate_account_projects ids acct sv)) pid =
    map_option (\<lambda>row. if pid \<in> set ids \<and> pj_account row = Some acct \<and> pj_status row = ''suspended'' then row\<lparr>pj_status := ''active''\<rparr> else row) (projects sv pid)"
  by (cases "projects sv pid") (auto simp: activate_account_projects_def set_each_status_projects account_projects_def)

text \<open>Which accounts of a list are suspended by a refresh.\<close>

definition crosses :: "(uuid \<Rightarrow> (i64 \<times> i64 \<times> i64) option) \<Rightarrow> uuid \<times> string \<Rightarrow> bool" where
  "crosses sums a \<longleftrightarrow> snd a \<noteq> ''free_cap_exceeded'' \<and> (\<exists>u \<in> set_option (sums (fst a)). cap_exceeded (compute_cap_status (usage_of u)))"

lemma refresh_account_effect:
  "bl_server (refresh_account ids a (sums (fst a)) bl) =
     (if crosses sums a then snd (suspend_account_projects ids (fst a) (bl_server bl)) else bl_server bl)"
  "bl_subscriptions (refresh_account ids a (sums (fst a)) bl) b =
     (if crosses sums a \<and> b = fst a then map_option (\<lambda>r. r\<lparr>sb_status := ''free_cap_exceeded''\<rparr>) (bl_subscriptions bl b) else bl_subscriptions bl b)"
  by (auto simp: refresh_account_def crosses_def Let_def set_subscription_status_def with_server_def split: option.splits)

lemma cycle_effect:
  "projects (bl_server (fold (\<lambda>a. refresh_account ids a (sums (fst a))) L bl)) pid =
     map_option (\<lambda>row. if pid \<in> set ids \<and> pj_status row = ''active'' \<and> (\<exists>a \<in> set L. crosses sums a \<and> pj_account row = Some (fst a))
       then row\<lparr>pj_status := ''suspended''\<rparr> else row) (projects (bl_server bl) pid)"
  "bl_subscriptions (fold (\<lambda>a. refresh_account ids a (sums (fst a))) L bl) b =
     (if \<exists>a \<in> set L. crosses sums a \<and> fst a = b then map_option (\<lambda>r. r\<lparr>sb_status := ''free_cap_exceeded''\<rparr>) (bl_subscriptions bl b)
      else bl_subscriptions bl b)"
proof (induction L arbitrary: bl)
  case (Cons a L)
  {
    case 1
    have step: "projects (bl_server (refresh_account ids a (sums (fst a)) bl)) pid = map_option (\<lambda>row. if pid \<in> set ids \<and>
        pj_status row = ''active'' \<and> crosses sums a \<and> pj_account row = Some (fst a) then row\<lparr>pj_status := ''suspended''\<rparr> else row)
        (projects (bl_server bl) pid)"
      by (cases "crosses sums a")
        (simp_all add: refresh_account_effect(1) suspend_account_projects_eq option.map_ident conj_commute)
    show ?case
      unfolding fold_Cons o_def Cons.IH(1) step option.map_comp by (rule option.map_cong[OF refl]) (auto simp: o_def)
  next
    case 2
    show ?case
      unfolding fold_Cons o_def Cons.IH(2) refresh_account_effect(2) by (cases "bl_subscriptions bl b") auto
  }
qed (simp_all add: option.map_ident)

lemma cycle_steps: "(server_step keys)\<^sup>*\<^sup>* (bl_server bl) (bl_server (run_cap_cycle ids accts sums bl))"
proof -
  have "(server_step keys)\<^sup>*\<^sup>* (bl_server bl) (bl_server (fold (\<lambda>a. refresh_account ids a (sums (fst a))) L bl))" for L
  proof (induction L arbitrary: bl)
    case (Cons a L)
    have "(server_step keys)\<^sup>*\<^sup>* (bl_server bl) (bl_server (refresh_account ids a (sums (fst a)) bl))"
      by (auto simp: refresh_account_effect(1) intro!: r_into_rtranclp suspends_account[OF surjective_pairing])
    then show ?case using Cons[of "refresh_account ids a (sums (fst a)) bl"] by simp
  qed simp
  then show ?thesis by (simp add: run_cap_cycle_def)
qed

lemma free_accounts_iff:
  "(a, st) \<in> set (free_accounts accts bl) \<longleftrightarrow> a \<in> set accts \<and> (\<exists>r. bl_subscriptions bl a = Some r \<and> sb_plan r = ''free'' \<and>
     sb_status r = st \<and> (st = ''active'' \<or> st = ''free_cap_exceeded''))"
  unfolding free_accounts_def by (induction accts) (auto simp: List.map_filter_simps split: option.splits if_splits)



text \<open>A payment lifts every suspension: a project that the operator has suspended is active again after the next invoice
  of its account is paid.\<close>

lemma payment_lifts_operator_suspension:
  assumes "suspend_project pid (bl_server bl) = (Http200, sv1)"
    and "projects (bl_server bl) pid = Some row" and "pj_account row = Some acct" and "pid \<in> set (wh_projects wh)"
    and "we_type ev = ''invoice.payment_succeeded''" and "we_id ev \<notin> bl_processed bl"
    and "json_as_str (json_index (event_object ev) ''subscription'') = Some sid"
    and "resolve_account_id (wh_accounts wh) sid bl = Some acct"
  shows "map_option pj_status (projects (bl_server (snd (stripe_webhook_handler wh ev (bl\<lparr>bl_server := sv1\<rparr>)))) pid) = Some ''active''"
proof -
  let ?bl = "(bl\<lparr>bl_server := sv1\<rparr>)\<lparr>bl_processed := insert (we_id ev) (bl_processed bl)\<rparr>"
  have "projects sv1 pid = Some (row\<lparr>pj_status := ''suspended''\<rparr>)"
    using assms(1,2) by (auto simp: suspend_project_def set_project_status_def split: if_splits)
  then have "projects (snd (activate_account_projects (wh_projects wh) acct sv1)) pid = Some (row\<lparr>pj_status := ''active''\<rparr>)"
    using assms(3,4) by (simp add: activate_account_projects_eq)
  moreover have "resolve_account_id (wh_accounts wh) sid ?bl = Some acct"
    using assms(8) by (simp add: resolve_account_id_def)
  moreover have "bl_server (snd (update_by_stripe_id i f accts b)) = bl_server b" for i f accts b
    by (simp add: update_by_stripe_id_def Let_def)
  ultimately show ?thesis
    using assms(5-7) by (simp add: stripe_webhook_handler_def dispatch_event_def handle_invoice_payment_succeeded_def with_server_def)
qed

section \<open>Examples\<close>

definition sample_billing :: billing where
  "sample_billing = \<lparr>bl_server = sample_accepted, bl_accounts = [7 \<mapsto> Some ''cus''],
     bl_subscriptions = [7 \<mapsto> \<lparr>sb_plan = ''free'', sb_status = ''active'', sb_stripe_id = Some ''sub'', sb_period_end = None\<rparr>],
     bl_cap_cache = (\<lambda>_. None), bl_processed = {}\<rparr>"

definition sample_webhook_env :: webhook_env where
  "sample_webhook_env = \<lparr>wh_projects = [''my-app''], wh_accounts = [7], wh_representable = (\<lambda>_. True)\<rparr>"

definition trialing_event :: webhook_event where
  "trialing_event = \<lparr>we_id = ''evt'', we_type = ''customer.subscription.updated'',
     we_payload = JObject [(''data'', JObject [(''object'', JObject [(''id'', JString ''sub''), (''status'', JString ''trialing'')])])]\<rparr>"

theorem failed_event_lost_witness:
  "fst (stripe_webhook_handler sample_webhook_env trialing_event sample_billing) = Http500 \<and>
   stripe_webhook_handler sample_webhook_env trialing_event (snd (stripe_webhook_handler sample_webhook_env trialing_event sample_billing)) =
     (Http200, snd (stripe_webhook_handler sample_webhook_env trialing_event sample_billing))"
proof -
  have "fst (stripe_webhook_handler sample_webhook_env trialing_event sample_billing) = Http500"
    by (simp add: stripe_webhook_handler_def dispatch_event_def sync_subscription_updated_def update_by_stripe_id_def event_object_def
        json_index_def bt_get_def sample_billing_def sample_webhook_env_def trialing_event_def parse_status_def Let_def)
  then have "stripe_webhook_handler sample_webhook_env trialing_event sample_billing =
      (Http500, snd (stripe_webhook_handler sample_webhook_env trialing_event sample_billing))" by (simp add: prod_eq_iff)
  from failed_event_lost[OF this] show ?thesis using \<open>fst _ = Http500\<close> by blast
qed


end
