(* ===== verification/Spec2Isabelle.thy ===== *)
theory Spec2Isabelle
  imports Condition_Grammar Store_Refinement Change_Feed Admin_Safety Billing
begin

text \<open>
  \<^bold>\<open>What is verified.\<close> \<open>embyr-rs\<close> serves the Firestore protocol from Postgres. A request for a document, a query, a
  commit, a listing or a subscription arrives at the handlers of \<open>embyr-server/src/grpc/handler.rs\<close>. The handler
  authenticates the project, finds the access rule that governs the path, evaluates its condition on the caller and
  on the stored document, and hands the operation to the storage adapter of \<open>embyr-pg-storage\<close>, either in the same
  process or through an agent (\<open>embyr-agent\<close>) that runs next to the project's database. Writes of single documents
  send a notification, which the change feed turns into events for the listeners. Rules are written in the
  \<open>.rules\<close> language and imported by an administrator; administrators, keys, projects and subscriptions live in the
  system database. This development models those parts as executable functions and proves what they promise, in
  the composition in which the code uses them.

  \<^bold>\<open>Foundations.\<close> \<open>Prelude\<close> (integer widths, string functions of the standard library, results as sums,
  \<open>BTreeMap\<close> as a sorted association list), \<open>Float64\<close> (IEEE 754 doubles as bit patterns, with rounding, comparison
  and parsing), \<open>Field_Value\<close> (\<open>embyr-core/src/domain\<close>: values, documents, filters, JSON). A Rust \<open>enum\<close> is a
  \<open>datatype\<close> with its constructors, a \<open>struct\<close> a \<open>record\<close>, \<open>i64\<close> the type of 64-bit words where it can wrap, a
  \<open>Result\<close> a sum with the error on the left, a panic the value \<^const>\<open>None\<close> of an outer option. A Rust \<open>char\<close> is
  one of \<open>U+0000 .. U+00FF\<close>.

  \<^bold>\<open>Access rules\<close> (\<open>embyr-core/src/access_control\<close>).
  \<^item> \<open>Condition_Syntax\<close>, \<open>Condition_Lexer\<close>, \<open>Condition_Parser\<close>: \<open>parse_condition\<close> of \<open>mod.rs\<close> with its pre-scan, its
    tokenizer and all error messages. \<open>Condition_Grammar\<close>: the parser decides the grammar of conditions, and the
    trees it returns have the shape the evaluator takes for granted.
  \<^item> \<open>Evaluation\<close>: \<open>evaluate\<close> and \<open>discover_cross_document_paths\<close>; every document that an evaluation can read is
    discovered beforehand, and a decided outcome does not depend on data that was missing.
  \<^item> \<open>Query_Compliance\<close>: \<open>check_query_compliance\<close>, the decision about a query before any document is read.
  \<^item> \<open>Path_Routing\<close> (\<open>path_routing.rs\<close>): matching, overlap and containment of path patterns against the set of
    paths that a pattern reaches.
  \<^item> \<open>Rules_File\<close>, \<open>Rules_Import\<close> (\<open>rules_file.rs\<close>): the scanner of \<open>.rules\<close> files, the decomposition into rows and
    what the rows hold.
  \<^item> \<open>Rules_Db\<close> (\<open>adapters/system_db.rs\<close>), \<open>Rule_Routing\<close> (\<open>admin/handlers/access_rules.rs\<close> and
    \<open>resolve_access_rule_pattern\<close>), \<open>Routing_Safety\<close>: the import keeps the stored patterns unambiguous, and on
    unambiguous patterns the router finds the rule of a path.

  \<^bold>\<open>Storage\<close> (\<open>embyr-pg-storage\<close>).
  \<^item> \<open>Field_Transform\<close>, \<open>Field_Encoding\<close>, \<open>Document_Store\<close>: server-side transforms, the JSON of stored fields and its
    round trip, single documents over the \<open>documents\<close> table.
  \<^item> \<open>Transactions\<close>, \<open>Transaction_Safety\<close>: begin, registered reads, commit, rollback and the sweepers. An execution
    is a list of operations; commits are all or nothing, versions only grow, a transaction ends once, and the
    documents that a committed transaction read are unchanged when it commits.
  \<^item> \<open>Store_Refinement\<close>: the tables abstract to a map from paths to fields, and a commit refines the sequential
    application of its writes.
  \<^item> \<open>Query_Sql\<close>, \<open>Query_Meaning\<close>, \<open>Query_Rows\<close>: the statement of a query as text and bound values, its reading with
    the precedence and the three-valued logic of SQL, and the rows that come back.

  \<^bold>\<open>Requests\<close> (\<open>embyr-server/src/grpc\<close>, \<open>realtime\<close>).
  \<^item> \<open>Resource_Names\<close>, \<open>Proto_Values\<close>: names, statuses, protocol values.
  \<^item> \<open>Document_Requests\<close>, \<open>Enforcement\<close>: the handlers of single documents, batches and commits; nothing is read or
    written against the governing rule. \<open>Query_Request\<close> and the theorem below: the same for queries.
  \<^item> \<open>Listing\<close>: page tokens and listings; following the pages visits every document once.
  \<^item> \<open>Write_Stream\<close>: the session of the \<open>Write\<close> stream.
  \<^item> \<open>Listen_Registry\<close>, \<open>Listen\<close>: the fan-out of events as a transition system in which no event is lost without a
    reset, and the session of a listener, which passes on only what the rule allows.
  \<^item> \<open>Agent_Protocol\<close>, \<open>Agent_Equivalence\<close>: both ends of the agent protocol; documents and commits have the same
    effect as with a direct connection. \<open>Change_Feed\<close>: from a notification to the listeners, on the server and on the
    agent, and which writes never send one.

  \<^bold>\<open>Administration\<close> (\<open>embyr-core/src/admin\<close>, \<open>embyr-server/src/admin\<close>).
  \<^item> \<open>Admin_Members\<close>, \<open>Admin_Safety\<close>: roles, members, admin keys, service accounts and sessions; an account keeps an
    owner, lower roles do not reach the owners, and a removed member is locked out.
  \<^item> \<open>Project_Access\<close>, \<open>Access_Safety\<close>: authentication of requests with its credential cache, the lifecycle of
    projects and SDK keys; who is refused, who is accepted, and how an account escapes suspension.
  \<^item> \<open>Billing\<close>: caps, the refresher that enforces them, subscriptions and the webhooks of the payment provider.

  \<^bold>\<open>Interfaces.\<close> \<open>ordered_map\<close> (\<open>Prelude\<close>) is the contract of \<open>BTreeMap\<close>, interpreted on the sorted lists;
  \<open>keyed_updates\<close> (\<open>Field_Transform\<close>) says when a batch of transforms is a point-wise update, interpreted on
  \<open>apply_field_transform\<close>; \<open>versioned\<close> (\<open>Transaction_Safety\<close>) carries the argument from equal versions to equal rows,
  interpreted on the operations of the store; \<open>page_tokens\<close> (\<open>Listing\<close>) is the contract of a page token, interpreted on
  the tokens of the server and on those of the agent protocol.

  \<^bold>\<open>What comes from outside\<close> is an argument, and what a theorem needs of it is a hypothesis: Base64 (decoding
  undoes encoding), the first bytes of BLAKE3, what a \<open>JSONB\<close> and a time column give back for a bound value, the range
  of \<open>chrono\<close>, the comparisons that Postgres makes on JSON values, Argon2, ECIES, the secret stores, JSON web tokens,
  the payment provider, UUIDs and other generated ids, and every reading of a clock. A witness of a theorem with such
  a hypothesis instantiates the argument by a concrete function.

  \<^bold>\<open>Loops.\<close> The models are total functions; a loop over input is a recursion on what is left of the input, proved to
  terminate. Fuel occurs only where a client follows pages: \<open>follow_pages\<close> with one more than the number of
  documents, \<open>collect_pages\<close> with one more than the number of ids, and the theorems show that this is enough for
  the complete answer. Servers and sessions are lists of steps or step relations over all interleavings; a
  statement of a database is one step.

  \<^bold>\<open>Not modelled.\<close> Failing connections and statements (apart from constraint violations that inputs can cause),
  widths of text columns, and interleavings below one statement. Values that messages print in Rust's debug form are
  left out of the messages. Rate limiting (token buckets in floating point over a monotonic clock), the HTTP and browser
  channel gateway, configuration and start-up of server and agent, metrics and logs, listings of the admin interface,
  the user interface, the database preparation tool and the generated protocol code: glue around the modelled
  parts, or computations of libraries.
\<close>

section \<open>Queries under access rules\<close>

text \<open>The comparison of whole JSON values is exact on strings.\<close>

definition string_equality_exact :: "pg_ops \<Rightarrow> bool" where
  "string_equality_exact pg \<longleftrightarrow>
     (\<forall>x s. jsonb_eq pg x (tagged ''S'' (JString s)) \<longrightarrow> x = tagged ''S'' (JString s))"

lemma selected_equality:
  assumes "field_filter_value enc (atom_value pg r) ff = Some True" and "filter_op ff = Equal"
    and "filter_value ff = FString s" and "string_equality_exact pg"
  shows "json_get (row_fields (sr_row r)) (field_path ff) = Some (tagged ''S'' (JString s))"
  using assms by (auto simp: field_filter_value_def field_filter_tokens_def string_equality_exact_def)

lemma built_query_parts:
  assumes "selects pg env sa pid cp q r" and "query_statement (b64_encode env) sa pid cp q \<noteq> None"
    and "\<And>f. query_filter_of q = Some f \<Longrightarrow> nonempty_filter f"
  shows "\<forall>v \<in> set (condition_values (b64_encode env) (atom_value pg r) sa pid cp q). v = Some True"
proof -
  have "append_filter (b64_encode env) f \<noteq> None" if "query_filter_of q = Some f" for f
    using assms(2) that by (auto simp: query_statement_def where_common_def Option.bind_eq_Some_conv)
  then show ?thesis using selects_parts [OF assms(1)] assms(3) by blast
qed

text \<open>The rows that the statement of an admitted query selects hold fields for which the rule allows the read.\<close>

lemma admitted_rows_allowed:
  assumes "check_query_compliance c (query_filter_of q) (auth ctx) = Admitted"
    and "\<forall>v \<in> set (condition_values enc (atom_value pg r) sa pid cp q). v = Some True"
    and "row_fields (sr_row r) = JObject m" and "bt_wf m"
    and "json_to_fields dec (JObject m) = Some (resource_fields ctx)"
    and "string_equality_exact pg"
  shows "evaluate c ctx = Allow"
proof -
  let ?val = "atom_value pg r"
  define sat where "sat ff d \<longleftrightarrow> d = resource_fields ctx \<and> field_filter_value enc ?val ff = Some True" for ff d
  have "equality_exact sat"
    using selected_equality [OF _ _ _ assms(6), of enc r] decoded_string [OF assms(5,4)] assms(3)
    by (auto simp: equality_exact_def sat_def)
  moreover have "filter_matches sat f (resource_fields ctx)" if "query_filter_of q = Some f" for f
    using assms(2) that by (intro filter_matches_value [of enc ?val]) (auto simp: condition_values_def Let_def sat_def)
  ultimately show ?thesis using admitted_allows assms(1) by blast
qed


definition example_ctx :: eval_context where
  "example_ctx = \<lparr>auth = Some \<lparr>uid = ''u'', claims = []\<rparr>, resource_fields = [(''owner'', FString ''u'')],
     request_resource_fields = [], path_variable_value = None, ancestor_path_variable_values = [],
     request_time = None, cross_document_reads = []\<rparr>"

definition owner_query :: structured_query where
  "owner_query = \<lparr>query_collection_id = ''users'', all_descendants = False,
     query_filter_of = Some (Field \<lparr>field_path = ''owner'', filter_op = Equal, filter_value = FString ''u''\<rparr>),
     query_order_by = [], query_limit = None, query_offset = None, start_at = None, end_at = None, since_update_time = None\<rparr>"

definition owner_request :: proto_query where
  "owner_request =
     \<lparr>pq_from = [(''users'', False)],
      pq_where = Some (PFField (Some ''owner'') (Some FopEqual) (Some (PString ''u''))),
      pq_order_by = [], pq_limit = None, pq_offset = 0, pq_start_at = None, pq_end_at = None\<rparr>"

definition owner_rules :: rules_db where
  "owner_rules = no_rules\<lparr>access_rules := [(''p'', ''users'') \<mapsto> ''request.auth.uid == resource.data.owner'']\<rparr>"


end
